(* ===== verification/Pmf_Prelude.thy ===== *)
theory Pmf_Prelude
  imports Main "HOL-Library.Word" "HOL-Library.Multiset"
begin

text \<open>
  What every component of the development shares: the outcome of a C function, checked
  signed arithmetic, the C string functions the sources call (glibc, C locale), decimal
  conversion, and lemma collections.

  A C \<open>int\<close>, \<open>long\<close> or \<open>ssize_t\<close> is an \<open>int\<close> whose arithmetic is checked
  (signed overflow is undefined in C); an unsigned integer is a \<open>word\<close> of its width
  (it wraps). A \<open>char *\<close> that may be null is a \<open>string option\<close>.
\<close>

named_theorems pmf_simps \<open>characteristic equations of the model's operations\<close>
named_theorems pmf_intros \<open>invariant preservation rules\<close>

subsection \<open>Outcomes\<close>

datatype ub =
    NullDeref
  | OutOfBounds
  | SignedOverflow
  | BadFree
  | TypePun
  | NoReturnValue
  | BadFormat
  | Diverges

datatype ('e, 'a) outcome = Ok 'a | Fail 'e | Undef ub

primrec obind :: "('e, 'a) outcome \<Rightarrow> ('a \<Rightarrow> ('e, 'b) outcome) \<Rightarrow> ('e, 'b) outcome" where
  "obind (Ok x) f = f x"
| "obind (Fail e) f = Fail e"
| "obind (Undef u) f = Undef u"

lemma obind_eq_Ok [pmf_simps]: "obind m f = Ok y \<longleftrightarrow> (\<exists>x. m = Ok x \<and> f x = Ok y)"
  by (cases m) auto

lemma obind_eq_Fail [pmf_simps]:
  "obind m f = Fail e \<longleftrightarrow> m = Fail e \<or> (\<exists>x. m = Ok x \<and> f x = Fail e)"
  by (cases m) auto

lemma obind_eq_Undef [pmf_simps]:
  "obind m f = Undef u \<longleftrightarrow> m = Undef u \<or> (\<exists>x. m = Ok x \<and> f x = Undef u)"
  by (cases m) auto

lemma obind_cong [fundef_cong]:
  "m = m' \<Longrightarrow> (\<And>x. m' = Ok x \<Longrightarrow> f x = g x) \<Longrightarrow> obind m f = obind m' g"
  by (cases m') auto

lemma obind_assoc: "obind (obind m f) g = obind m (\<lambda>x. obind (f x) g)"
  by (cases m) auto

lemma obind_Ok [simp]: "obind m Ok = m"
  by (cases m) auto

subsection \<open>Signed arithmetic at 32 bits\<close>

definition int32 :: "int \<Rightarrow> bool" where
  "int32 x \<longleftrightarrow> - 2147483648 \<le> x \<and> x < 2147483648"

definition checked32 :: "int \<Rightarrow> ('e, int) outcome" where
  "checked32 x = (if int32 x then Ok x else Undef SignedOverflow)"

text \<open>Conversion of a wider or unsigned value to \<open>int\<close> keeps the low 32 bits.\<close>

definition to_int32 :: "int \<Rightarrow> int" where
  "to_int32 x = signed_take_bit 31 x"

lemma checked32_Ok [simp]: "checked32 x = Ok y \<longleftrightarrow> int32 x \<and> y = x"
  by (auto simp: checked32_def)

lemma checked32_no_Fail [simp]: "checked32 x \<noteq> Fail e"
  by (auto simp: checked32_def)

lemma to_int32_id: "int32 x \<Longrightarrow> to_int32 x = x"
  unfolding to_int32_def int32_def
  by (rule signed_take_bit_int_eq_self) simp_all

lemma to_int32_range: "int32 (to_int32 x)"
  using signed_take_bit_int_greater_eq_minus_exp [of 31 x]
    signed_take_bit_int_less_exp [of 31 x]
  by (simp add: to_int32_def int32_def)

lemma uint_less_numeral: "unat w < numeral k \<Longrightarrow> uint w < numeral k"
  by (metis of_nat_less_iff of_nat_numeral uint_nat)

lemma to_int32_uint: "unat w < 2147483648 \<Longrightarrow> to_int32 (uint w) = uint w"
proof -
  assume "unat w < 2147483648"
  then have "uint w < 2147483648" by (rule uint_less_numeral)
  moreover have "0 \<le> uint w" by simp
  ultimately have "int32 (uint w)" unfolding int32_def by linarith
  then show ?thesis by (rule to_int32_id)
qed

subsection \<open>Characters and strings\<close>

definition c_tolower :: "char \<Rightarrow> char" where
  "c_tolower c = (let n = (of_char c :: nat) in if 65 \<le> n \<and> n \<le> 90 then char_of (n + 32) else c)"

definition c_isspace :: "char \<Rightarrow> bool" where
  "c_isspace c = (let n = (of_char c :: nat) in 9 \<le> n \<and> n \<le> 13 \<or> n = 32)"

definition c_isdigit :: "char \<Rightarrow> bool" where
  "c_isdigit c = (let n = (of_char c :: nat) in 48 \<le> n \<and> n \<le> 57)"

definition lowercase :: "string \<Rightarrow> string" where
  "lowercase s = map c_tolower s"

text \<open>The same on the bits of a character, for evaluation.\<close>

lemma c_tolower_bits [code]:
  "c_tolower (Char b0 b1 b2 b3 b4 b5 b6 b7) =
     (if b6 \<and> \<not> b5 \<and> \<not> b7 \<and> (b0 \<or> b1 \<or> b2 \<or> b3 \<or> b4) \<and> \<not> (b4 \<and> b3 \<and> (b2 \<or> b1 \<and> b0))
      then Char b0 b1 b2 b3 b4 True b6 b7 else Char b0 b1 b2 b3 b4 b5 b6 b7)"
  by (cases b0; cases b1; cases b2; cases b3; cases b4; cases b5; cases b6; cases b7)
    (simp_all add: c_tolower_def char_of_def bit_0)

lemma c_isspace_bits [code]:
  "c_isspace (Char b0 b1 b2 b3 b4 b5 b6 b7) \<longleftrightarrow>
     \<not> b7 \<and> \<not> b6 \<and> \<not> b4 \<and>
     (if b5 then \<not> b3 \<and> \<not> b2 \<and> \<not> b1 \<and> \<not> b0 else b3 \<and> (if b2 then \<not> b1 else b1 \<or> b0))"
  by (cases b0; cases b1; cases b2; cases b3; cases b4; cases b5; cases b6; cases b7)
    (simp_all add: c_isspace_def)

lemma c_isdigit_bits [code]:
  "c_isdigit (Char b0 b1 b2 b3 b4 b5 b6 b7) \<longleftrightarrow> \<not> b7 \<and> \<not> b6 \<and> b5 \<and> b4 \<and> \<not> (b3 \<and> (b2 \<or> b1))"
  by (cases b0; cases b1; cases b2; cases b3; cases b4; cases b5; cases b6; cases b7)
    (simp_all add: c_isdigit_def)

text \<open>\<open>!strcasecmp(s, t)\<close>.\<close>

definition strcasecmp_eq :: "string \<Rightarrow> string \<Rightarrow> bool" where
  "strcasecmp_eq s t \<longleftrightarrow> lowercase s = lowercase t"

text \<open>\<open>snprintf(buf, n, "%s", s)\<close> with \<open>n > 0\<close>: the string the buffer holds afterwards.\<close>

definition snprintf_buf :: "nat \<Rightarrow> string \<Rightarrow> string" where
  "snprintf_buf n s = take (n - 1) s"

text \<open>\<open>strlen(s) == strspn(s, "0123456789")\<close>.\<close>

definition all_digits :: "string \<Rightarrow> bool" where
  "all_digits s \<longleftrightarrow> list_all c_isdigit s"

lemma c_tolower_idem [simp]: "c_tolower (c_tolower c) = c_tolower c"
  by (auto simp: c_tolower_def Let_def)

lemma lowercase_idem [simp]: "lowercase (lowercase s) = lowercase s"
  by (simp add: lowercase_def)

lemma length_lowercase [simp]: "length (lowercase s) = length s"
  by (simp add: lowercase_def)

lemma lowercase_append [simp]: "lowercase (s @ t) = lowercase s @ lowercase t"
  by (simp add: lowercase_def)

lemma strcasecmp_eq_refl [simp]: "strcasecmp_eq s s"
  by (simp add: strcasecmp_eq_def)

lemma strcasecmp_eq_sym: "strcasecmp_eq s t \<Longrightarrow> strcasecmp_eq t s"
  by (simp add: strcasecmp_eq_def)

lemma length_snprintf_buf: "0 < n \<Longrightarrow> length (snprintf_buf n s) < n"
  by (simp add: snprintf_buf_def)

lemma snprintf_buf_id: "length s < n \<Longrightarrow> snprintf_buf n s = s"
  by (simp add: snprintf_buf_def)

subsection \<open>strtol and atoi\<close>

text \<open>
  glibc's \<open>strtol(s, 0, 10)\<close>: leading white space, an optional sign, digits; saturates at
  the ends of \<open>long\<close>. \<open>atoi\<close> keeps the low 32 bits of it.
\<close>

fun digits_val :: "nat \<Rightarrow> string \<Rightarrow> nat" where
  "digits_val acc [] = acc"
| "digits_val acc (c # cs) =
     (if c_isdigit c then digits_val (10 * acc + (of_char c - 48)) cs else acc)"

definition strtol10 :: "string \<Rightarrow> int" where
  "strtol10 s =
     (let t = dropWhile c_isspace s in
      if t \<noteq> [] \<and> hd t = CHR ''-'' then max (- (2 ^ 63)) (- int (digits_val 0 (tl t)))
      else if t \<noteq> [] \<and> hd t = CHR ''+'' then min (2 ^ 63 - 1) (int (digits_val 0 (tl t)))
      else min (2 ^ 63 - 1) (int (digits_val 0 t)))"

definition atoi :: "string \<Rightarrow> int" where
  "atoi s = to_int32 (strtol10 s)"

lemma atoi_range [simp]: "int32 (atoi s)"
  by (simp add: atoi_def to_int32_range)

lemma c_isdigit_not_space: "c_isdigit c \<Longrightarrow> \<not> c_isspace c"
  by (auto simp: c_isdigit_def c_isspace_def Let_def)

lemma c_isdigit_not_sign: "c_isdigit c \<Longrightarrow> c \<noteq> CHR ''-'' \<and> c \<noteq> CHR ''+''"
  by (auto simp: c_isdigit_def Let_def)

lemma strtol10_digits:
  assumes "all_digits s"
  shows "strtol10 s = min (2 ^ 63 - 1) (int (digits_val 0 s))"
proof (cases s)
  case Nil
  then show ?thesis by (simp add: strtol10_def)
next
  case (Cons c cs)
  with assms have "c_isdigit c" by (simp add: all_digits_def)
  with Cons show ?thesis
    using c_isdigit_not_space c_isdigit_not_sign by (simp add: strtol10_def Let_def)
qed

text \<open>Decimal rendering (\<open>%d\<close>).\<close>

fun show_nat :: "nat \<Rightarrow> string" where
  "show_nat n =
     (if n < 10 then [char_of (48 + n)] else show_nat (n div 10) @ [char_of (48 + n mod 10)])"

declare show_nat.simps [simp del]

definition show_int :: "int \<Rightarrow> string" where
  "show_int i = (if i < 0 then CHR ''-'' # show_nat (nat (- i)) else show_nat (nat i))"

lemma digits_val_append_digits:
  "all_digits s \<Longrightarrow> digits_val a (s @ t) = digits_val (digits_val a s) t"
  by (induction a s rule: digits_val.induct) (auto simp: all_digits_def)

lemma of_char_digit: "n < 10 \<Longrightarrow> (of_char (char_of (48 + n :: nat)) :: nat) = 48 + n"
  by (simp add: of_char_of)

lemma c_isdigit_digit: "n < 10 \<Longrightarrow> c_isdigit (char_of (48 + n :: nat))"
  by (simp add: c_isdigit_def Let_def of_char_digit)

lemma all_digits_show_nat: "all_digits (show_nat n)"
proof (induction n rule: show_nat.induct)
  case (1 n)
  then show ?case
    by (subst show_nat.simps) (auto simp: all_digits_def c_isdigit_digit)
qed

lemma digits_val_show_nat: "digits_val 0 (show_nat n) = n"
proof (induction n rule: show_nat.induct)
  case (1 n)
  show ?case
  proof (cases "n < 10")
    case True
    then show ?thesis
      by (subst show_nat.simps) (simp add: of_char_digit c_isdigit_digit)
  next
    case False
    then have "digits_val 0 (show_nat (n div 10) @ [char_of (48 + n mod 10)]) = n"
      using 1 by (simp add: digits_val_append_digits all_digits_show_nat of_char_digit c_isdigit_digit)
    with False show ?thesis by (subst show_nat.simps) simp
  qed
qed

text \<open>Printing a non-negative \<open>int\<close> and reading it back gives the same value.\<close>

lemma atoi_show_int: "0 \<le> i \<Longrightarrow> int32 i \<Longrightarrow> atoi (show_int i) = i"
  by (simp add: atoi_def show_int_def strtol10_digits all_digits_show_nat digits_val_show_nat
      to_int32_id) (simp add: int32_def to_int32_id min_def)

subsection \<open>Lists\<close>

lemma mset_swap_remove:
  assumes "i < length ys"
  shows "add_mset (ys ! i) (mset (ys[i := y])) = mset (ys @ [y])"
  using assms by (simp add: mset_update)

end
