(* ===== verification/Pmf_Array.thy ===== *)
theory Pmf_Array
  imports Pmf_Prelude
begin

text \<open>
  The variable-length array of \<open>pmf_array.h\<close>. The block behind \<open>data\<close> is the list of
  its \<open>allocated_num\<close> member slots (\<open>None\<close> after \<open>pmf_array_free\<close>); a returned member
  pointer is the index of its slot. The three sizes are \<open>size_t\<close>, the arguments
  \<open>unsigned int\<close>, as in the header, so that \<open>used_num - 1\<close> wraps on an empty array.
\<close>

record 'a pmf_array =
  arr_data :: "'a list option"
  member_size :: "64 word"
  used_num :: "64 word"
  allocated_num :: "64 word"

subsection \<open>Operations\<close>

text \<open>
  \<open>hdr_ok\<close> and \<open>data_ok\<close> say whether \<open>malloc\<close> and \<open>calloc\<close> succeed, \<open>zero\<close> is the member
  whose bytes are all zero, \<open>hdr\<close> what a fresh header block holds. The result is the
  returned pointer (null or not) and the header after the call.
\<close>

definition pmf_array_init ::
  "bool \<Rightarrow> bool \<Rightarrow> 'a \<Rightarrow> 'a pmf_array \<Rightarrow> 'a pmf_array option \<Rightarrow> 32 word \<Rightarrow> 32 word \<Rightarrow>
   bool \<times> 'a pmf_array option" where
  "pmf_array_init hdr_ok data_ok zero hdr arr msize n =
     (case (case arr of None \<Rightarrow> if hdr_ok then Some hdr else None | Some a \<Rightarrow> Some a) of
        None \<Rightarrow> (False, None)
      | Some a \<Rightarrow>
          if \<not> data_ok
          then (False, if arr = None then None
                       else Some (a\<lparr>member_size := ucast msize, arr_data := None\<rparr>))
          else (True, Some (a\<lparr>member_size := ucast msize,
                              arr_data := Some (replicate (unat n) zero),
                              allocated_num := ucast n, used_num := 0\<rparr>)))"

definition pmf_array_item :: "'a pmf_array \<Rightarrow> 32 word \<Rightarrow> nat option" where
  "pmf_array_item a n = (if ucast n > used_num a - 1 then None else Some (unat n))"

definition pmf_array_item_last :: "'a pmf_array \<Rightarrow> nat option" where
  "pmf_array_item_last a = pmf_array_item a (ucast (used_num a - 1))"

text \<open>\<open>memcpy(to, from, member_size)\<close> between two member pointers.\<close>

definition copy_member ::
  "'a pmf_array \<Rightarrow> nat option \<Rightarrow> nat option \<Rightarrow> (unit, 'a pmf_array) outcome" where
  "copy_member a to from =
     (case (to, from, arr_data a) of
        (Some i, Some j, Some d) \<Rightarrow>
          if i < length d \<and> j < length d then Ok (a\<lparr>arr_data := Some (d[i := d ! j])\<rparr>)
          else Undef OutOfBounds
      | _ \<Rightarrow> Undef NullDeref)"

definition pmf_array_remove_item ::
  "'a pmf_array \<Rightarrow> 32 word \<Rightarrow> (unit, int \<times> 'a pmf_array) outcome" where
  "pmf_array_remove_item a n =
     (if ucast n > used_num a - 1 then Ok (- 1, a)
      else obind
        (if ucast n < used_num a - 1
         then obind (copy_member a (pmf_array_item a n) (pmf_array_item_last a))
                (\<lambda>a'. Ok (to_int32 (uint n), a'))
         else Ok (- 1, a))
        (\<lambda>(ret, a'). Ok (ret, a'\<lparr>used_num := used_num a' - 1\<rparr>)))"

text \<open>
  The members a block of \<open>member_size * n\<close> bytes has room for; the product is a \<open>size_t\<close> and
  may wrap.
\<close>

definition block_slots :: "64 word \<Rightarrow> 64 word \<Rightarrow> nat" where
  "block_slots msize n = unat (msize * n) div unat msize"

text \<open>
  \<open>realloc_ok\<close> says whether \<open>realloc\<close> succeeds; the new slots hold \<open>junk\<close>. The result is
  the returned member pointer and the array.
\<close>

definition pmf_array_push ::
  "bool \<Rightarrow> (nat \<Rightarrow> 'a) \<Rightarrow> 'a pmf_array \<Rightarrow> nat option \<times> 'a pmf_array" where
  "pmf_array_push realloc_ok junk a =
     (let full = (used_num a = allocated_num a);
          new_num = (if allocated_num a \<noteq> 0 then allocated_num a * 2 else 20);
          old = (case arr_data a of None \<Rightarrow> [] | Some d \<Rightarrow> d);
          slots = block_slots (member_size a) new_num;
          d' = take slots old @ map junk [length old ..< slots];
          a' = (if full then a\<lparr>arr_data := Some d', allocated_num := new_num\<rparr> else a)
      in if full \<and> \<not> realloc_ok then (None, a)
         else (pmf_array_item a' (ucast (used_num a')), a'\<lparr>used_num := used_num a' + 1\<rparr>))"

definition pmf_array_free :: "'a pmf_array \<Rightarrow> 'a pmf_array" where
  "pmf_array_free a = a\<lparr>arr_data := None, member_size := 0, used_num := 0, allocated_num := 0\<rparr>"

subsection \<open>Invariant and abstraction\<close>

text \<open>
  The block has \<open>allocated_num\<close> slots, of which the first \<open>used_num\<close> are in use; member
  numbers fit the \<open>unsigned int\<close> the operations take; members have a size, which was given as
  an \<open>unsigned int\<close>.
\<close>

definition array_wf :: "'a pmf_array \<Rightarrow> bool" where
  "array_wf a \<longleftrightarrow>
     (case arr_data a of None \<Rightarrow> allocated_num a = 0
      | Some d \<Rightarrow> length d = unat (allocated_num a)) \<and>
     used_num a \<le> allocated_num a \<and> unat (allocated_num a) < 2 ^ 31 \<and>
     0 < member_size a \<and> unat (member_size a) < 2 ^ 32"

definition members :: "'a pmf_array \<Rightarrow> 'a list" where
  "members a = (case arr_data a of None \<Rightarrow> [] | Some d \<Rightarrow> take (unat (used_num a)) d)"

lemma members_length: "array_wf a \<Longrightarrow> length (members a) = unat (used_num a)"
  by (auto simp: array_wf_def members_def word_le_nat_alt split: option.splits)

lemma array_wf_data:
  assumes "array_wf a" and "0 < used_num a"
  obtains d where "arr_data a = Some d" and "length d = unat (allocated_num a)"
    and "unat (used_num a) \<le> length d"
proof -
  from assms(2) have "unat (used_num a) \<noteq> 0"
    by (simp add: word_gt_0 unat_eq_zero)
  with assms(1) that show thesis
    by (auto simp: array_wf_def word_le_nat_alt split: option.splits)
qed

lemma unat_used_minus_1: "0 < used_num a \<Longrightarrow> unat (used_num a - 1) = unat (used_num a) - 1"
  by (metis unat_minus_one word_gt_0)

lemma unat_ucast_32_64 [simp]: "unat (ucast (n :: 32 word) :: 64 word) = unat n"
proof -
  have "unat n < 2 ^ 64"
    by (rule order.strict_trans2 [OF unsigned_less]) simp
  then show ?thesis by (simp add: unsigned_ucast_eq take_bit_nat_eq_self)
qed

lemma ucast_le_used [pmf_simps]:
  assumes "0 < used_num a"
  shows "ucast (n :: 32 word) > used_num a - 1 \<longleftrightarrow> unat (used_num a) \<le> unat n"
proof -
  have "ucast n > used_num a - 1 \<longleftrightarrow> unat (used_num a) - 1 < unat n"
    using assms by (simp add: word_less_nat_alt unat_used_minus_1)
  moreover from assms have "0 < unat (used_num a)" by (simp add: word_less_nat_alt)
  ultimately show ?thesis by linarith
qed

lemma pmf_array_item_used [pmf_simps]:
  "0 < used_num a \<Longrightarrow>
   pmf_array_item a n = (if unat n < unat (used_num a) then Some (unat n) else None)"
  by (simp add: pmf_array_item_def ucast_le_used not_le)

subsection \<open>What the operations do\<close>

lemma array_wf_init:
  assumes "pmf_array_init hdr_ok data_ok zero hdr arr msize n = (True, Some a)"
    and "unat n < 2 ^ 31" and "0 < msize"
  shows "array_wf a \<and> members a = []"
proof -
  have "0 < unat msize" using assms(3) by (simp add: word_less_nat_alt)
  then have "0 < (ucast msize :: 64 word)" by (simp add: word_less_nat_alt)
  moreover have "unat msize < 2 ^ 32" by (rule order.strict_trans2 [OF unsigned_less]) simp
  ultimately show ?thesis
    using assms
    by (auto simp: pmf_array_init_def array_wf_def members_def split: option.splits if_splits)
qed

lemma used_num_small: "array_wf a \<Longrightarrow> unat (used_num a) < 2 ^ 31"
  by (simp add: array_wf_def word_le_nat_alt)

lemma unat_ucast_used:
  "unat (w :: 64 word) < 2 ^ 32 \<Longrightarrow> unat (ucast w :: 32 word) = unat w"
  by (simp add: unsigned_ucast_eq take_bit_nat_eq_self)

lemma pmf_array_item_last_wf [pmf_simps]:
  assumes "array_wf a" and "0 < used_num a"
  shows "pmf_array_item_last a = Some (unat (used_num a) - 1)"
proof -
  from assms(1) have "unat (used_num a) < 2 ^ 31" by (rule used_num_small)
  with assms(2) have "unat (ucast (used_num a - 1) :: 32 word) = unat (used_num a) - 1"
    by (simp add: unat_ucast_used unat_used_minus_1)
  moreover from assms(2) have "0 < unat (used_num a)" by (simp add: word_less_nat_alt)
  ultimately show ?thesis
    using assms(2) by (simp add: pmf_array_item_last_def pmf_array_item_used)
qed


text \<open>Removal in terms of the member list: the last member fills the hole.\<close>

lemma pmf_array_remove_item_wf:
  assumes wf: "array_wf a" and n: "unat n < unat (used_num a)"
  obtains a' where
    "pmf_array_remove_item a n =
       Ok (if unat n = unat (used_num a) - 1 then - 1 else int (unat n), a')"
    and "array_wf a'" and "used_num a' = used_num a - 1"
    and "members a' = (if unat n = unat (used_num a) - 1 then butlast (members a)
                       else (butlast (members a))[unat n := last (members a)])"
proof -
  let ?u = "unat (used_num a)"
  from n have pos: "0 < used_num a" by (simp add: word_less_nat_alt)
  from wf pos obtain d where d: "arr_data a = Some d" and ld: "length d = unat (allocated_num a)"
    and le: "?u \<le> length d" by (rule array_wf_data)
  have u1: "unat (used_num a - 1) = ?u - 1" by (rule unat_used_minus_1 [OF pos])
  have small: "?u < 2 ^ 31" by (rule used_num_small [OF wf])
  have lt: "ucast n < used_num a - 1 \<longleftrightarrow> unat n < ?u - 1"
    by (simp add: word_less_nat_alt u1)
  have ret: "to_int32 (uint n) = int (unat n)"
  proof -
    from n small have "unat n < 2147483648" by simp
    then show ?thesis by (simp add: to_int32_uint)
  qed
  have memb: "members a = take ?u d"
    using d by (simp add: members_def)
  have lastm: "last (members a) = d ! (?u - 1)"
    using le n last_conv_nth [of "take ?u d"]
    by (cases "d = []") (auto simp: memb min_def split: if_splits)
  show thesis
  proof (cases "unat n = ?u - 1")
    case True
    let ?a = "a\<lparr>used_num := used_num a - 1\<rparr>"
    have "pmf_array_remove_item a n = Ok (- 1, ?a)"
      using True n lt by (simp add: pmf_array_remove_item_def ucast_le_used [OF pos])
    moreover have "array_wf ?a"
      using wf d ld u1 by (auto simp: array_wf_def word_le_nat_alt)
    moreover have "members ?a = butlast (members a)"
      using d le n u1 by (simp add: members_def butlast_take)
    ultimately show thesis using True that by simp
  next
    case False
    let ?d = "d[unat n := d ! (?u - 1)]"
    let ?a = "a\<lparr>arr_data := Some ?d, used_num := used_num a - 1\<rparr>"
    have "pmf_array_remove_item a n = Ok (int (unat n), ?a)"
      using False n lt d le pos wf ret
      by (auto simp: pmf_array_remove_item_def ucast_le_used pmf_array_item_used
          pmf_array_item_last_wf copy_member_def)
    moreover have "array_wf ?a"
      using wf d ld u1 by (auto simp: array_wf_def word_le_nat_alt)
    moreover have "members ?a = (butlast (members a))[unat n := last (members a)]"
      using d le n u1 lastm memb by (simp add: members_def butlast_take take_update_swap)
    ultimately show thesis using False that by simp
  qed
qed

text \<open>A push keeps the invariant; the block doubles when it is full.\<close>

lemma unat_used_plus_1: "array_wf a \<Longrightarrow> unat (used_num a + 1) = unat (used_num a) + 1"
  by (drule used_num_small) (simp add: unat_word_ariths)

lemma unat_double:
  "unat (w :: 64 word) < 2 ^ 62 \<Longrightarrow> unat (w * 2) = unat w * 2"
  by (simp add: unat_word_ariths)

lemma block_slots_fit:
  assumes "0 < msize" and "unat msize * unat n < 2 ^ 64"
  shows "block_slots msize n = unat n"
proof -
  have "unat (msize * n) = unat msize * unat n"
    using assms(2) by (simp add: unat_word_ariths)
  moreover have "0 < unat msize" using assms(1) by (simp add: word_less_nat_alt)
  ultimately show ?thesis by (simp add: block_slots_def)
qed

definition grown_num :: "'a pmf_array \<Rightarrow> nat" where
  "grown_num a =
     (if used_num a = allocated_num a
      then if allocated_num a \<noteq> 0 then 2 * unat (allocated_num a) else 20
      else unat (allocated_num a))"

lemma grown_num_new:
  assumes "array_wf a"
  shows "unat (if used_num a = allocated_num a
               then if allocated_num a \<noteq> 0 then allocated_num a * 2 else 20
               else allocated_num a) = grown_num a"
  using assms by (simp add: grown_num_def array_wf_def unat_double)

lemma used_num_grown: "array_wf a \<Longrightarrow> unat (used_num a) < grown_num a"
proof -
  assume wf: "array_wf a"
  then have "unat (used_num a) \<le> unat (allocated_num a)"
    by (simp add: array_wf_def word_le_nat_alt)
  moreover have "unat (allocated_num a) \<noteq> 0" if "allocated_num a \<noteq> 0"
    using that by (simp add: unat_eq_zero)
  moreover have "unat (used_num a) \<noteq> unat (allocated_num a)" if "used_num a \<noteq> allocated_num a"
    using that by (simp add: word_unat_eq_iff)
  ultimately show ?thesis by (auto simp: grown_num_def unat_gt_0 unat_eq_zero)
qed

lemma pmf_array_push_wf:
  assumes wf: "array_wf a" and ok: "used_num a = allocated_num a \<longrightarrow> realloc_ok"
    and push: "pmf_array_push realloc_ok junk a = (p, a')"
    and room: "grown_num a < 2 ^ 31"
  shows "array_wf a'" and "used_num a' = used_num a + 1"
    and "unat (allocated_num a') = grown_num a"
    and "p = (if used_num a = 0 then Some 0 else None)"
    and "take (unat (used_num a)) (members a') = members a"
proof -
  let ?new = "if allocated_num a \<noteq> 0 then allocated_num a * 2 else 20"
  define old where "old = (case arr_data a of None \<Rightarrow> [] | Some d \<Rightarrow> d)"
  let ?slots = "block_slots (member_size a) ?new"
  let ?d = "take ?slots old @ map junk [length old ..< ?slots]"
  define b where
    "b = (if used_num a = allocated_num a then a\<lparr>arr_data := Some ?d, allocated_num := ?new\<rparr> else a)"
  have lo: "length old = unat (allocated_num a)"
    using wf by (auto simp: array_wf_def old_def split: option.splits)
  have new: "unat (allocated_num b) = grown_num a"
    using grown_num_new [OF wf] by (auto simp: b_def split: if_splits)
  have slots: "?slots = grown_num a" if "used_num a = allocated_num a"
  proof -
    have new: "unat ?new = grown_num a" using grown_num_new [OF wf] that by simp
    have "unat (member_size a) * grown_num a < 2 ^ 32 * 2 ^ 31"
      using wf room by (intro mult_strict_mono) (auto simp: array_wf_def)
    then show ?thesis
      using wf new by (subst block_slots_fit) (auto simp: array_wf_def)
  qed
  have used: "used_num b = used_num a" by (simp add: b_def)
  have res: "p = pmf_array_item b (ucast (used_num a))" "a' = b\<lparr>used_num := used_num a + 1\<rparr>"
    using push ok by (auto simp: pmf_array_push_def Let_def b_def old_def split: if_splits)
  have u1: "unat (used_num a + 1) = unat (used_num a) + 1" by (rule unat_used_plus_1 [OF wf])
  have lb: "\<exists>d. arr_data b = Some d \<and> length d = grown_num a \<and> take (unat (used_num a)) d = members a"
  proof (cases "used_num a = allocated_num a")
    case True
    then show ?thesis
      using slots lo used_num_grown [OF wf]
      by (auto simp: b_def members_def old_def split: option.splits)
  next
    case False
    with wf show ?thesis
      by (auto simp: b_def array_wf_def members_def grown_num_def word_le_nat_alt
          unat_eq_zero split: option.splits)
  qed
  moreover have "member_size b = member_size a" by (simp add: b_def)
  then have "0 < member_size b \<and> unat (member_size b) < 2 ^ 32" using wf by (simp add: array_wf_def)
  ultimately show "array_wf a'"
    using res new room u1 used_num_grown [OF wf] by (auto simp: array_wf_def word_le_nat_alt)
  show "used_num a' = used_num a + 1" and "unat (allocated_num a') = grown_num a"
    using res new by simp_all
  show "take (unat (used_num a)) (members a') = members a"
    using lb res u1 by (auto simp: members_def)
  have "unat (ucast (used_num a) :: 32 word) = unat (used_num a)"
    using used_num_small [OF wf] by (simp add: unat_ucast_used)
  then show "p = (if used_num a = 0 then Some 0 else None)"
    using res used by (auto simp: pmf_array_item_used word_gt_0) (simp add: pmf_array_item_def)
qed

subsection \<open>Properties\<close>

definition sample_array :: "nat pmf_array" where
  "sample_array = \<lparr>arr_data = Some [10, 20, 30, 0], member_size = 8, used_num = 3, allocated_num = 4\<rparr>"



text \<open>
  C37: Pushing on an array that already has a member keeps the invariant and the old members,
  doubles a full block and counts one more member, but always returns a null pointer: the
  bounds check of \<open>pmf_array_item\<close> runs before \<open>used_num\<close> is incremented. Only the first
  push of an empty array returns its slot.
\<close>

theorem pmf_array_push_returns:
  assumes "array_wf a" and "grown_num a < 2 ^ 31"
    and "used_num a = allocated_num a \<longrightarrow> realloc_ok"
  shows "\<exists>a'. pmf_array_push realloc_ok junk a = (if used_num a = 0 then Some 0 else None, a')
           \<and> array_wf a' \<and> length (members a') = length (members a) + 1
           \<and> take (length (members a)) (members a') = members a
           \<and> unat (allocated_num a') = grown_num a"
proof -
  obtain p a' where push: "pmf_array_push realloc_ok junk a = (p, a')" by fastforce
  note facts = pmf_array_push_wf [OF assms(1,3) push assms(2)]
  have "length (members a') = length (members a) + 1"
    using facts(1,2) assms(1) by (simp add: members_length unat_used_plus_1)
  with facts push assms(1) show ?thesis by (auto simp: members_length)
qed

theorem pmf_array_push_returns_witness:
  "\<exists>a'. pmf_array_push False (\<lambda>_. 0) sample_array = (None, a')
      \<and> take 3 (members a') = [10, 20, 30] \<and> length (members a') = 4"
proof -
  have h: "array_wf sample_array" "grown_num sample_array < 2 ^ 31"
    "used_num sample_array = allocated_num sample_array \<longrightarrow> False"
    by (simp_all add: sample_array_def array_wf_def grown_num_def)
  have m: "members sample_array = [10, 20, 30]" and u: "used_num sample_array \<noteq> 0"
    by (simp_all add: sample_array_def members_def)
  show ?thesis
    using pmf_array_push_returns [OF h, of "\<lambda>_. 0"] u by (auto simp: m eval_nat_numeral)
qed

text \<open>
  On an empty array \<open>used_num - 1\<close> wraps to the largest \<open>size_t\<close>, so the bounds check
  refuses nothing: every index yields a pointer, and removing any index of an empty but
  allocated array copies from outside the block.
\<close>

theorem pmf_array_empty_unguarded:
  assumes "array_wf a" and "used_num a = 0" and "arr_data a \<noteq> None"
  shows "pmf_array_item a n = Some (unat n) \<and> pmf_array_remove_item a n = Undef OutOfBounds"
proof -
  obtain d where d: "arr_data a = Some d" and len: "length d < 2 ^ 31"
    using assms(1,3) by (auto simp: array_wf_def)
  have max: "unat (- 1 :: 64 word) = 2 ^ 64 - 1"
    by (simp add: unsigned_minus_1_eq_mask mask_eq_exp_minus_1)
  have max32: "unat (ucast (- 1 :: 64 word) :: 32 word) = 2 ^ 32 - 1"
    by (simp add: unsigned_minus_1_eq_mask mask_eq_exp_minus_1)
  have n: "unat n < 2 ^ 32" by (rule order.strict_trans2 [OF unsigned_less]) simp
  then have item: "\<not> - 1 < (ucast n :: 64 word)" and lt: "(ucast n :: 64 word) < - 1"
    by (simp_all add: word_less_nat_alt max)
  have "pmf_array_item_last a = Some (2 ^ 32 - 1)"
    using assms(2)
    by (simp add: pmf_array_item_last_def pmf_array_item_def word_less_nat_alt max max32)
  with item lt d len assms(2) show ?thesis
    by (simp add: pmf_array_item_def pmf_array_remove_item_def copy_member_def)
qed

theorem pmf_array_empty_unguarded_witness:
  "pmf_array_item (sample_array\<lparr>used_num := 0\<rparr>) 7 = Some 7
   \<and> pmf_array_remove_item (sample_array\<lparr>used_num := 0\<rparr>) 7 = Undef OutOfBounds"
  using pmf_array_empty_unguarded [of "sample_array\<lparr>used_num := 0\<rparr>" 7]
  by (simp add: sample_array_def array_wf_def)

end
