(* ===== verification/Pmf_Atomic.thy ===== *)
theory Pmf_Atomic
  imports Pmf_Prelude
begin

text \<open>
  \<open>pmf_atomic.h\<close>: compare-and-set on the lock word for each supported processor, the spin
  lock built on it, and the system of processes that share data under that lock. The lock is
  the \<open>atomic_t\<close> of amd64, a \<open>uint64_t\<close>; a single locked instruction is one atomic step.
\<close>

type_synonym atomic_t = "64 word"

subsection \<open>Atomic instructions\<close>

text \<open>Each returns the function's result and the memory word after the instruction.\<close>

definition atomic_fetch_add_i386 :: "32 word \<Rightarrow> 32 word \<Rightarrow> 32 word \<times> 32 word" where
  "atomic_fetch_add_i386 val add = (val, val + add)"

definition atomic_fetch_add :: "atomic_t \<Rightarrow> 64 word \<Rightarrow> 64 word \<times> atomic_t" where
  "atomic_fetch_add val add = (val, val + add)"

definition atomic_cmp_set_builtin :: "64 word \<Rightarrow> 64 word \<Rightarrow> 64 word \<Rightarrow> bool \<times> 64 word" where
  "atomic_cmp_set_builtin lock old new = (if lock = old then (True, new) else (False, lock))"

definition atomic_cmp_set_i386 :: "32 word \<Rightarrow> 32 word \<Rightarrow> 32 word \<Rightarrow> 32 word \<times> 32 word" where
  "atomic_cmp_set_i386 lock old new = (if lock = old then (1, new) else (0, lock))"

text \<open>amd64: \<open>lock cmpxchgq\<close> sets the zero flag, \<open>sete\<close> copies it to the result byte.\<close>

definition atomic_cmp_set :: "atomic_t \<Rightarrow> atomic_t \<Rightarrow> atomic_t \<Rightarrow> 64 word \<times> atomic_t" where
  "atomic_cmp_set lock old new = (if lock = old then (1, new) else (0, lock))"

text \<open>
  SPARC: \<open>casx\<close> swaps on equality and leaves the old memory word in its register; the helper
  returns it as an \<open>int\<close>, and the caller compares that \<open>int\<close>, converted back, with \<open>old\<close>.
\<close>

definition atomic_cas_64 :: "64 word \<Rightarrow> 64 word \<Rightarrow> 64 word \<Rightarrow> int \<times> 64 word" where
  "atomic_cas_64 lock old new = (to_int32 (uint lock), if lock = old then new else lock)"

definition atomic_cmp_set_sparc64 :: "64 word \<Rightarrow> 64 word \<Rightarrow> 64 word \<Rightarrow> 64 word \<times> 64 word" where
  "atomic_cmp_set_sparc64 lock old new =
     (case atomic_cas_64 lock old new of
        (r, lock') \<Rightarrow> (if word_of_int r = old then 1 else 0, lock'))"

definition atomic_cas_32 :: "32 word \<Rightarrow> 32 word \<Rightarrow> 32 word \<Rightarrow> int \<times> 32 word" where
  "atomic_cas_32 lock old new = (to_int32 (uint lock), if lock = old then new else lock)"

definition atomic_cmp_set_sparc32 :: "32 word \<Rightarrow> 32 word \<Rightarrow> 32 word \<Rightarrow> 32 word \<times> 32 word" where
  "atomic_cmp_set_sparc32 lock old new =
     (case atomic_cas_32 lock old new of
        (r, lock') \<Rightarrow> (if word_of_int r = old then 1 else 0, lock'))"

lemma atomic_cmp_set_success [pmf_simps]:
  "fst (atomic_cmp_set lock old new) \<noteq> 0 \<longleftrightarrow> lock = old"
  by (simp add: atomic_cmp_set_def)

lemma atomic_cmp_set_after [pmf_simps]:
  "snd (atomic_cmp_set lock old new) = (if lock = old then new else lock)"
  by (simp add: atomic_cmp_set_def)

lemma word_of_to_int32_uint:
  "unat (w :: 'a::len word) < 2147483648 \<Longrightarrow> word_of_int (to_int32 (uint w)) = w"
  by (simp add: to_int32_uint)

lemma word32_of_to_int32_uint: "word_of_int (to_int32 (uint (w :: 32 word))) = w"
proof -
  have "to_int32 (uint w) = sint w"
    using sint_sbintrunc' [of "uint w", where 'a = 32] by (simp add: to_int32_def)
  then show ?thesis by (simp only: of_int_sint scast_id)
qed

subsection \<open>The spin lock\<close>

text \<open>
  \<open>env k\<close> is the lock word the \<open>k\<close>-th attempt finds; other processes run between attempts
  (\<open>sched_yield\<close>). The loop has no bound, so it is a partial function: \<open>None\<close> means the call
  does not return. The result is the attempt that succeeded.
\<close>

partial_function (option) spin_attempts :: "(nat \<Rightarrow> atomic_t) \<Rightarrow> nat \<Rightarrow> nat option" where
  "spin_attempts env k =
     (if fst (atomic_cmp_set (env k) 0 1) \<noteq> 0 then Some k else spin_attempts env (Suc k))"

text \<open>The returned \<open>int\<close>, and the lock word after the call.\<close>

declare spin_attempts.simps [code]

definition pmf_spinlock :: "(nat \<Rightarrow> atomic_t) \<Rightarrow> bool \<Rightarrow> (int \<times> atomic_t) option" where
  "pmf_spinlock env try_once =
     (if try_once
      then Some (if fst (atomic_cmp_set (env 0) 0 1) \<noteq> 0 then 1 else 0,
                 snd (atomic_cmp_set (env 0) 0 1))
      else map_option (\<lambda>k. (1, snd (atomic_cmp_set (env k) 0 1))) (spin_attempts env 0))"

definition pmf_unlock :: "atomic_t \<Rightarrow> atomic_t" where
  "pmf_unlock lock = 0"

lemma spin_attempts_later:
  assumes "k \<le> m" and "env m = 0" and "\<forall>j. k \<le> j \<and> j < m \<longrightarrow> env j \<noteq> 0"
  shows "spin_attempts env k = Some m"
  using assms
proof (induction "m - k" arbitrary: k)
  case 0
  then show ?case by (subst spin_attempts.simps) (simp add: pmf_simps)
next
  case (Suc d)
  then have "k < m" by simp
  with Suc.prems have "env k \<noteq> 0" by blast
  moreover have "spin_attempts env (Suc k) = Some m"
    using Suc \<open>k < m\<close> by (intro Suc.hyps(1)) auto
  ultimately show ?case by (subst spin_attempts.simps) (simp add: pmf_simps)
qed

lemma spin_attempts_Some_zero:
  assumes ret: "spin_attempts env k = Some m"
  shows "env m = 0"
proof -
  have "(\<lambda>env k r. env r = 0) env k m"
  proof (rule spin_attempts.raw_induct [OF _ ret])
    fix f env k r
    assume IH: "\<And>env k r. f env k = Some r \<Longrightarrow> env r = 0"
      and eq: "(if fst (atomic_cmp_set (env k) 0 1) \<noteq> 0 then Some k else f env (Suc k)) = Some r"
    from eq show "env r = 0"
      by (auto simp: pmf_simps IH split: if_splits)
  qed
  then show ?thesis by simp
qed

lemma spin_attempts_iff: "(\<exists>m. spin_attempts env 0 = Some m) \<longleftrightarrow> (\<exists>m. env m = 0)"
proof
  let ?m = "LEAST m. env m = 0"
  have le0: "0 \<le> ?m" by simp
  assume "\<exists>m. env m = 0"
  then have "env ?m = 0" by (rule LeastI_ex)
  moreover have "\<forall>j. 0 \<le> j \<and> j < ?m \<longrightarrow> env j \<noteq> 0" using not_less_Least by blast
  ultimately have "spin_attempts env 0 = Some ?m" by (rule spin_attempts_later [OF le0])
  then show "\<exists>m. spin_attempts env 0 = Some m" ..
qed (auto dest: spin_attempts_Some_zero)

subsection \<open>Processes sharing data under the lock\<close>

text \<open>
  Any number of processes run critical sections on shared data. The critical section of an
  operation is the list \<open>prog op\<close> of its statements; each statement is one atomic step, so
  the steps of different processes interleave freely. A process spins until its
  compare-and-set succeeds, runs its statements in order, and unlocks by a plain store.
  \<open>taken\<close> records the operations in the order they took the lock.
\<close>

record ('op, 'd) par_state =
  lock_word :: atomic_t
  shared :: 'd
  pcs :: "nat \<Rightarrow> ('op \<times> nat) option"
  taken :: "'op list"

definition run_stmts :: "('d \<Rightarrow> 'd) list \<Rightarrow> 'd \<Rightarrow> 'd" where
  "run_stmts fs d = fold (\<lambda>f. f) fs d"

definition run_ops :: "('op \<Rightarrow> ('d \<Rightarrow> 'd) list) \<Rightarrow> 'op list \<Rightarrow> 'd \<Rightarrow> 'd" where
  "run_ops prog ops d = fold (\<lambda>op. run_stmts (prog op)) ops d"

inductive par_step ::
  "('op \<Rightarrow> ('d \<Rightarrow> 'd) list) \<Rightarrow> ('op, 'd) par_state \<Rightarrow> ('op, 'd) par_state \<Rightarrow> bool"
  for prog where
  spin: "pcs s i = None \<Longrightarrow> atomic_cmp_set (lock_word s) 0 1 = (0, l) \<Longrightarrow>
     par_step prog s (s\<lparr>lock_word := l\<rparr>)"
| acquire: "pcs s i = None \<Longrightarrow> atomic_cmp_set (lock_word s) 0 1 = (r, l) \<Longrightarrow> r \<noteq> 0 \<Longrightarrow>
     par_step prog s
       (s\<lparr>lock_word := l, pcs := (pcs s)(i := Some (op, 0)), taken := taken s @ [op]\<rparr>)"
| exec: "pcs s i = Some (op, k) \<Longrightarrow> k < length (prog op) \<Longrightarrow>
     par_step prog s
       (s\<lparr>shared := (prog op ! k) (shared s), pcs := (pcs s)(i := Some (op, Suc k))\<rparr>)"
| release: "pcs s i = Some (op, k) \<Longrightarrow> k = length (prog op) \<Longrightarrow>
     par_step prog s (s\<lparr>lock_word := pmf_unlock (lock_word s), pcs := (pcs s)(i := None)\<rparr>)"

inductive_cases par_stepE: "par_step prog s t"

definition par_init :: "'d \<Rightarrow> ('op, 'd) par_state" where
  "par_init d = \<lparr>lock_word = 0, shared = d, pcs = (\<lambda>_. None), taken = []\<rparr>"

inductive par_reach ::
  "('op \<Rightarrow> ('d \<Rightarrow> 'd) list) \<Rightarrow> 'd \<Rightarrow> ('op, 'd) par_state \<Rightarrow> bool" for prog d where
  start: "par_reach prog d (par_init d)"
| step: "par_reach prog d s \<Longrightarrow> par_step prog s t \<Longrightarrow> par_reach prog d t"

text \<open>
  Either the lock is free, nobody is inside and the data is the result of the operations in
  lock order, or one process is inside, some statements into the last operation.
\<close>

definition holder_inside ::
  "('op \<Rightarrow> ('d \<Rightarrow> 'd) list) \<Rightarrow> 'd \<Rightarrow> ('op, 'd) par_state \<Rightarrow> nat \<Rightarrow> bool" where
  "holder_inside prog d s i \<longleftrightarrow>
     (\<exists>op k ops. pcs s i = Some (op, k) \<and> (\<forall>j. j \<noteq> i \<longrightarrow> pcs s j = None)
        \<and> taken s = ops @ [op] \<and> k \<le> length (prog op)
        \<and> shared s = run_stmts (take k (prog op)) (run_ops prog ops d))"

definition par_inv :: "('op \<Rightarrow> ('d \<Rightarrow> 'd) list) \<Rightarrow> 'd \<Rightarrow> ('op, 'd) par_state \<Rightarrow> bool" where
  "par_inv prog d s \<longleftrightarrow>
     lock_word s = 0 \<and> (\<forall>i. pcs s i = None) \<and> shared s = run_ops prog (taken s) d
   \<or> lock_word s = 1 \<and> (\<exists>i. holder_inside prog d s i)"

lemma run_stmts_snoc [simp]: "run_stmts (fs @ [f]) d = f (run_stmts fs d)"
  by (simp add: run_stmts_def)

lemma run_stmts_Nil [simp]: "run_stmts [] d = d"
  by (simp add: run_stmts_def)

lemma run_ops_snoc [simp]: "run_ops prog (ops @ [op]) d = run_stmts (prog op) (run_ops prog ops d)"
  by (simp add: run_ops_def)

lemma run_ops_Nil [simp]: "run_ops prog [] d = d"
  by (simp add: run_ops_def)

lemma par_inv_init: "par_inv prog d (par_init d)"
  by (simp add: par_inv_def par_init_def)

lemma holder_unique:
  "holder_inside prog d s i \<Longrightarrow> pcs s j \<noteq> None \<Longrightarrow> j = i"
  by (auto simp: holder_inside_def)

lemma par_inv_busy:
  assumes "par_inv prog d s" and "pcs s i = Some (op, k)"
  shows "lock_word s = 1" and "holder_inside prog d s i"
  using assms by (auto simp: par_inv_def dest: holder_unique [of prog d s _ i])

lemma holder_inside_exec:
  assumes "holder_inside prog d s i" and "pcs s i = Some (op, k)" and "k < length (prog op)"
  shows "holder_inside prog d
    (s\<lparr>shared := (prog op ! k) (shared s), pcs := (pcs s)(i := Some (op, Suc k))\<rparr>) i"
  using assms by (auto simp: holder_inside_def take_Suc_conv_app_nth)

lemma par_step_inv: "par_step prog s t \<Longrightarrow> par_inv prog d s \<Longrightarrow> par_inv prog d t"
proof (induction rule: par_step.induct)
  case (spin s i l)
  then show ?case by (auto simp: atomic_cmp_set_def par_inv_def holder_inside_def split: if_splits)
next
  case (acquire s i r l op)
  then have free: "lock_word s = 0" "l = 1" by (auto simp: atomic_cmp_set_def split: if_splits)
  with acquire.prems have "\<forall>j. pcs s j = None" "shared s = run_ops prog (taken s) d"
    by (auto simp: par_inv_def)
  then show ?case using free by (auto simp: par_inv_def holder_inside_def)
next
  case (exec s i op k)
  note busy = par_inv_busy [OF exec.prems exec.hyps(1)]
  show ?case
    using busy(1) holder_inside_exec [OF busy(2) exec.hyps] by (auto simp: par_inv_def)
next
  case (release s i op k)
  note busy = par_inv_busy [OF release.prems release.hyps(1)]
  then show ?case
    using release.hyps by (auto simp: par_inv_def holder_inside_def pmf_unlock_def)
qed

lemma par_reach_inv: "par_reach prog d s \<Longrightarrow> par_inv prog d s"
  by (induction rule: par_reach.induct) (auto intro: par_inv_init par_step_inv)

text \<open>
  The holder can always run to the end of its critical section and release the lock, and a
  state with the lock free can run any operation as a whole.
\<close>

abbreviation par_steps ::
  "('op \<Rightarrow> ('d \<Rightarrow> 'd) list) \<Rightarrow> ('op, 'd) par_state \<Rightarrow> ('op, 'd) par_state \<Rightarrow> bool" where
  "par_steps prog \<equiv> (par_step prog)\<^sup>*\<^sup>*"

lemma par_reach_steps: "par_steps prog s t \<Longrightarrow> par_reach prog d s \<Longrightarrow> par_reach prog d t"
  by (induction rule: rtranclp_induct) (auto intro: par_reach.step)

lemma run_stmts_drop:
  "k < length fs \<Longrightarrow> run_stmts (drop k fs) d = run_stmts (drop (Suc k) fs) ((fs ! k) d)"
  by (simp add: run_stmts_def flip: Cons_nth_drop_Suc)

lemma holder_finishes:
  assumes "pcs s = (\<lambda>_. None)(i := Some (op, k))" and "k \<le> length (prog op)"
  shows "par_steps prog s
    (s\<lparr>lock_word := 0, shared := run_stmts (drop k (prog op)) (shared s), pcs := (\<lambda>_. None)\<rparr>)"
  using assms
proof (induction "length (prog op) - k" arbitrary: k s)
  case 0
  then have "par_step prog s (s\<lparr>lock_word := pmf_unlock (lock_word s), pcs := (pcs s)(i := None)\<rparr>)"
    by (intro par_step.release [where op = op and k = k]) simp_all
  moreover have "(pcs s)(i := None) = (\<lambda>_. None)" using 0 by (simp add: fun_eq_iff)
  ultimately show ?case using 0 by (simp add: pmf_unlock_def r_into_rtranclp)
next
  case (Suc n)
  let ?t = "s\<lparr>shared := (prog op ! k) (shared s), pcs := (pcs s)(i := Some (op, Suc k))\<rparr>"
  have less: "k < length (prog op)" using Suc.hyps(2) by simp
  have "par_step prog s ?t" using Suc.prems less by (intro par_step.exec) simp_all
  moreover have "par_steps prog ?t
      (?t\<lparr>lock_word := 0, shared := run_stmts (drop (Suc k) (prog op)) (shared ?t), pcs := (\<lambda>_. None)\<rparr>)"
    using Suc by (intro Suc.hyps(1)) auto
  ultimately show ?case
    using less by (simp add: run_stmts_drop converse_rtranclp_into_rtranclp)
qed

lemma run_whole:
  assumes "lock_word s = 0" and "pcs s = (\<lambda>_. None)"
  shows "par_steps prog s (s\<lparr>shared := run_stmts (prog op) (shared s), taken := taken s @ [op]\<rparr>)"
proof -
  let ?t = "s\<lparr>lock_word := 1, pcs := (pcs s)(i := Some (op, 0)), taken := taken s @ [op]\<rparr>"
  have "par_step prog s ?t"
    using assms by (intro par_step.acquire [where r = 1]) (simp_all add: atomic_cmp_set_def)
  moreover have "s\<lparr>shared := run_stmts (prog op) (shared s), taken := taken s @ [op]\<rparr>
      = ?t\<lparr>lock_word := 0, shared := run_stmts (drop 0 (prog op)) (shared ?t), pcs := (\<lambda>_. None)\<rparr>"
    using assms by simp
  moreover have "par_steps prog ?t
      (?t\<lparr>lock_word := 0, shared := run_stmts (drop 0 (prog op)) (shared ?t), pcs := (\<lambda>_. None)\<rparr>)"
    using assms by (intro holder_finishes) simp_all
  ultimately show ?thesis by (metis converse_rtranclp_into_rtranclp)
qed

lemma run_whole_list:
  "par_reach prog d ((par_init d)\<lparr>shared := run_ops prog ops d, taken := ops\<rparr>)"
proof (induction ops rule: rev_induct)
  case Nil
  show ?case using par_reach.start [of prog d] by (simp add: par_init_def)
next
  case (snoc op ops)
  show ?case
    using par_reach_steps [OF run_whole snoc, of op] by (simp add: par_init_def)
qed

subsection \<open>Properties\<close>

text \<open>
  C7: At most one process is inside its critical section in every reachable state of any
  number of processes that take and release the lock with \<open>pmf_spinlock\<close> and \<open>pmf_unlock\<close>.
\<close>

theorem spinlock_mutual_exclusion:
  assumes "par_reach prog d s" and "pcs s i \<noteq> None" and "pcs s j \<noteq> None"
  shows "i = j"
proof -
  from assms(1) have inv: "par_inv prog d s" by (rule par_reach_inv)
  from assms(2) obtain op k where "pcs s i = Some (op, k)" by auto
  with inv have "holder_inside prog d s i" by (rule par_inv_busy(2))
  with assms(3) show ?thesis by (blast dest: holder_unique)
qed

definition one_inside :: "(bool, nat) par_state" where
  "one_inside = \<lparr>lock_word = 1, shared = 0, pcs = (\<lambda>_. None)(4 := Some (True, 0)), taken = [True]\<rparr>"

lemma one_inside_reach: "par_reach (\<lambda>_. [Suc]) 0 one_inside"
proof -
  let ?s = "par_init 0 :: (bool, nat) par_state"
  have "par_step (\<lambda>_. [Suc]) ?s (?s\<lparr>lock_word := 1, pcs := (pcs ?s)(4 := Some (True, 0)),
      taken := taken ?s @ [True]\<rparr>)"
    by (rule par_step.acquire [where r = 1]) (simp_all add: par_init_def atomic_cmp_set_def)
  then show ?thesis
    using par_reach.step [OF par_reach.start] by (simp add: one_inside_def par_init_def)
qed

definition one_done :: "(bool, nat) par_state" where
  "one_done = \<lparr>lock_word = 0, shared = 1, pcs = (\<lambda>_. None), taken = [True]\<rparr>"

lemma one_done_reach: "par_reach (\<lambda>_. [Suc]) 0 one_done"
  using run_whole_list [of "\<lambda>_. [Suc]" 0 "[True]"]
  by (simp add: one_done_def par_init_def run_ops_def run_stmts_def)

theorem spinlock_mutual_exclusion_witness: "{j. pcs one_inside j \<noteq> None} = {4}"
proof -
  have four: "pcs one_inside 4 \<noteq> None" by (simp add: one_inside_def)
  then have "pcs one_inside j \<noteq> None \<Longrightarrow> 4 = j" for j
    by (rule spinlock_mutual_exclusion [OF one_inside_reach])
  with four show ?thesis by blast
qed

text \<open>
  Whenever the lock is free, the shared data is exactly what running the critical
  sections one after the other, in the order they took the lock, makes of the initial data:
  no update is lost and no two updates mix, whatever the interleaving of their statements.
\<close>

theorem spinlock_serialises:
  assumes "par_reach prog d s" and "lock_word s = 0"
  shows "shared s = run_ops prog (taken s) d"
  using par_reach_inv [OF assms(1)] assms(2) by (simp add: par_inv_def)

theorem spinlock_serialises_witness: "shared one_done = run_ops (\<lambda>_. [Suc]) [True] 0"
  using spinlock_serialises [OF one_done_reach] by (simp add: one_done_def)

text \<open>
  C25: No reachable state is stuck: from every one of them some steps lead to a state with the
  lock free, nobody inside, and every critical section that took the lock run completely, in the
  order they took it.
\<close>

theorem spinlock_completes:
  assumes "par_reach prog d s"
  shows "\<exists>t. par_steps prog s t \<and> lock_word t = 0 \<and> (\<forall>i. pcs t i = None)
    \<and> taken t = taken s \<and> shared t = run_ops prog (taken s) d"
proof (cases "lock_word s = 0")
  case True
  then show ?thesis
    using par_reach_inv [OF assms] by (intro exI [of _ s]) (auto simp: par_inv_def)
next
  case False
  then obtain i where "holder_inside prog d s i"
    using par_reach_inv [OF assms] by (auto simp: par_inv_def)
  then obtain op k ops where h: "pcs s = (\<lambda>_. None)(i := Some (op, k))" "taken s = ops @ [op]"
    "k \<le> length (prog op)" "shared s = run_stmts (take k (prog op)) (run_ops prog ops d)"
    by (auto simp: holder_inside_def fun_eq_iff)
  have "run_stmts (drop k (prog op)) (run_stmts (take k (prog op)) e) = run_stmts (prog op) e" for e
    by (simp add: run_stmts_def flip: fold_append [THEN fun_cong, unfolded comp_def])
  then show ?thesis
    using holder_finishes [of s i op k prog, OF h(1,3)] h(2,4)
    by (intro exI conjI) (assumption, simp_all)
qed

theorem spinlock_completes_witness:
  "\<exists>t. par_steps (\<lambda>_. [Suc]) one_inside t \<and> lock_word t = 0 \<and> shared t = 1"
  using spinlock_completes [OF one_inside_reach]
  by (auto simp: one_inside_def run_ops_def run_stmts_def)

text \<open>
  C26: A blocking \<open>pmf_spinlock\<close> returns exactly when some attempt finds the lock word 0; it
  then returns 1 and has set the word to 1 at an attempt that found it 0. If the word is never
  0 the call does not return.
\<close>

theorem spinlock_returns_iff:
  "((\<exists>r. pmf_spinlock env False = Some r) \<longleftrightarrow> (\<exists>k. env k = 0))
   \<and> (\<forall>r. pmf_spinlock env False = Some r \<longrightarrow> r = (1, 1))"
proof -
  have "(\<exists>r. pmf_spinlock env False = Some r) \<longleftrightarrow> (\<exists>m. spin_attempts env 0 = Some m)"
    by (auto simp: pmf_spinlock_def)
  moreover have "r = (1, 1)" if "pmf_spinlock env False = Some r" for r
    using that by (auto simp: pmf_spinlock_def pmf_simps dest!: spin_attempts_Some_zero)
  ultimately show ?thesis by (simp add: spin_attempts_iff)
qed

theorem spinlock_returns_iff_witness: "pmf_spinlock (\<lambda>k. if k < 3 then 1 else 0) False = Some (1, 1)"
proof -
  have "\<exists>k. (if k < (3 :: nat) then 1 else 0 :: 64 word) = 0" by (rule exI [of _ 3]) simp
  then show ?thesis
    using spinlock_returns_iff [of "\<lambda>k. if k < 3 then 1 else 0"] by metis
qed

text \<open>
  On a lock word below \<open>2 ^ 31\<close> (the spin lock only ever stores 0 and 1) the
  compare-and-set of every processor branch has the same effect and the same verdict.
\<close>

theorem atomic_cmp_set_variants_agree:
  assumes "unat lock < 2 ^ 31"
  shows "atomic_cmp_set_sparc64 lock old new = atomic_cmp_set lock old new
    \<and> (fst (atomic_cmp_set_builtin lock old new) \<longleftrightarrow> fst (atomic_cmp_set lock old new) \<noteq> 0)
    \<and> snd (atomic_cmp_set_builtin lock old new) = snd (atomic_cmp_set lock old new)
    \<and> atomic_cmp_set_sparc32 lock32 old32 new32 = atomic_cmp_set_i386 lock32 old32 new32"
  using assms
  by (simp_all add: atomic_cmp_set_sparc64_def atomic_cas_64_def atomic_cmp_set_def
      atomic_cmp_set_builtin_def atomic_cmp_set_sparc32_def atomic_cas_32_def
      atomic_cmp_set_i386_def word_of_to_int32_uint word32_of_to_int32_uint)

theorem atomic_cmp_set_variants_agree_witness:
  "atomic_cmp_set_sparc64 0 0 1 = (1, 1) \<and> atomic_cmp_set_sparc64 1 0 1 = (0, 1)"
  using atomic_cmp_set_variants_agree [of 0 0 1] atomic_cmp_set_variants_agree [of 1 0 1]
  by (simp add: atomic_cmp_set_def)

end
