(* ===== verification/Pmf_Scoreboard.thy ===== *)
theory Pmf_Scoreboard
  imports Pmf_Atomic
begin

text \<open>
  The scoreboard of \<open>pmf_scoreboard.h\<close> and its update under the spin lock
  (\<open>pmf_scoreboard_update\<close>). Signed fields are \<open>int\<close> with checked arithmetic, unsigned ones
  words. A process entry \<open>procs[i]\<close> is the address of its record in the shared block.
\<close>

record pmf_scoreboard =
  sb_lock :: atomic_t
  sb_pool :: "char list"
  sb_pm :: int
  sb_start_epoch :: int
  sb_idle :: int
  sb_active :: int
  sb_active_max :: int
  sb_requests :: "64 word"
  sb_max_children_reached :: "32 word"
  sb_lq :: int
  sb_lq_max :: int
  sb_lq_len :: "32 word"
  sb_nprocs :: "32 word"
  sb_free_proc :: int
  sb_slow_rq :: "64 word"
  sb_procs :: "64 word list"

text \<open>The arguments of one call.\<close>

record sb_update =
  up_idle :: int
  up_active :: int
  up_lq :: int
  up_lq_len :: int
  up_requests :: int
  up_max_children_reached :: int
  up_slow_rq :: int
  up_action :: int

definition PMF_SCOREBOARD_ACTION_SET :: int where "PMF_SCOREBOARD_ACTION_SET = 0"
definition PMF_SCOREBOARD_ACTION_INC :: int where "PMF_SCOREBOARD_ACTION_INC = 1"

type_synonym sb_stmt = "pmf_scoreboard \<Rightarrow> (unit, pmf_scoreboard) outcome"

subsection \<open>The statements of an update\<close>

definition sb_set_stmts :: "sb_update \<Rightarrow> sb_stmt list" where
  "sb_set_stmts u =
   [\<lambda>s. Ok (if up_idle u \<ge> 0 then s\<lparr>sb_idle := up_idle u\<rparr> else s),
    \<lambda>s. Ok (if up_active u \<ge> 0 then s\<lparr>sb_active := up_active u\<rparr> else s),
    \<lambda>s. Ok (if up_lq u \<ge> 0 then s\<lparr>sb_lq := up_lq u\<rparr> else s),
    \<lambda>s. Ok (if up_lq_len u \<ge> 0 then s\<lparr>sb_lq_len := word_of_int (up_lq_len u)\<rparr> else s),
    \<lambda>s. Ok (if sb_lq s > sb_lq_max s then s\<lparr>sb_lq_max := sb_lq s\<rparr> else s),
    \<lambda>s. Ok (if up_requests u \<ge> 0 then s\<lparr>sb_requests := word_of_int (up_requests u)\<rparr> else s),
    \<lambda>s. Ok (if up_max_children_reached u \<ge> 0
            then s\<lparr>sb_max_children_reached := word_of_int (up_max_children_reached u)\<rparr> else s),
    \<lambda>s. Ok (if up_slow_rq u > 0 then s\<lparr>sb_slow_rq := word_of_int (up_slow_rq u)\<rparr> else s)]"

definition sb_inc_stmts :: "sb_update \<Rightarrow> sb_stmt list" where
  "sb_inc_stmts u =
   [\<lambda>s. obind (checked32 (sb_idle s + up_idle u))
          (\<lambda>x. Ok (s\<lparr>sb_idle := (if x > 0 then x else 0)\<rparr>)),
    \<lambda>s. obind (checked32 (sb_active s + up_active u))
          (\<lambda>x. Ok (s\<lparr>sb_active := (if x > 0 then x else 0)\<rparr>)),
    \<lambda>s. Ok (let x = sb_requests s + word_of_int (up_requests u)
            in s\<lparr>sb_requests := (if x > 0 then x else 0)\<rparr>),
    \<lambda>s. Ok (let x = sb_max_children_reached s + word_of_int (up_max_children_reached u)
            in s\<lparr>sb_max_children_reached := (if x > 0 then x else 0)\<rparr>),
    \<lambda>s. Ok (let x = sb_slow_rq s + word_of_int (up_slow_rq u)
            in s\<lparr>sb_slow_rq := (if x > 0 then x else 0)\<rparr>)]"

definition sb_active_max_stmt :: sb_stmt where
  "sb_active_max_stmt s =
     Ok (if sb_active s > sb_active_max s then s\<lparr>sb_active_max := sb_active s\<rparr> else s)"

definition sb_update_stmts :: "sb_update \<Rightarrow> sb_stmt list" where
  "sb_update_stmts u =
     (if up_action u = PMF_SCOREBOARD_ACTION_SET then sb_set_stmts u else sb_inc_stmts u)
     @ [sb_active_max_stmt]"

text \<open>The statements as steps on an outcome: nothing runs after undefined behaviour.\<close>

definition sb_prog ::
  "sb_update \<Rightarrow> ((unit, pmf_scoreboard) outcome \<Rightarrow> (unit, pmf_scoreboard) outcome) list" where
  "sb_prog u = map (\<lambda>stmt d. obind d stmt) (sb_update_stmts u)"

text \<open>
  The call itself. \<open>global\<close> is the static \<open>pmf_scoreboard\<close>, used when the argument is null;
  the result is the scoreboard worked on, if there is one.
\<close>

definition pmf_scoreboard_update ::
  "sb_update \<Rightarrow> pmf_scoreboard option \<Rightarrow> pmf_scoreboard option \<Rightarrow>
   (unit, pmf_scoreboard option) outcome" where
  "pmf_scoreboard_update u global arg =
     (case (case arg of None \<Rightarrow> global | Some s \<Rightarrow> Some s) of
        None \<Rightarrow> Ok None
      | Some sb \<Rightarrow>
          (case pmf_spinlock (\<lambda>_. sb_lock sb) False of
             None \<Rightarrow> Undef Diverges
           | Some (_, l) \<Rightarrow>
               obind (run_stmts (sb_prog u) (Ok (sb\<lparr>sb_lock := l\<rparr>)))
                 (\<lambda>sb'. Ok (Some (sb'\<lparr>sb_lock := pmf_unlock (sb_lock sb')\<rparr>)))))"

lemma spinlock_free [pmf_simps]: "pmf_spinlock (\<lambda>_. 0) False = Some (1, 1)"
  by (simp add: pmf_spinlock_def spin_attempts.simps atomic_cmp_set_def)

lemma run_stmts_Cons [simp]: "run_stmts (f # fs) d = run_stmts fs (f d)"
  by (simp add: run_stmts_def)

lemma run_stmts_append [simp]: "run_stmts (fs @ gs) d = run_stmts gs (run_stmts fs d)"
  by (simp add: run_stmts_def)

lemma sb_upd_if:
  "(if c then s\<lparr>sb_idle := x\<rparr> else s) = s\<lparr>sb_idle := if c then x else sb_idle s\<rparr>"
  "(if c then s\<lparr>sb_active := x\<rparr> else s) = s\<lparr>sb_active := if c then x else sb_active s\<rparr>"
  "(if c then s\<lparr>sb_active_max := x\<rparr> else s) = s\<lparr>sb_active_max := if c then x else sb_active_max s\<rparr>"
  "(if c then s\<lparr>sb_lq := x\<rparr> else s) = s\<lparr>sb_lq := if c then x else sb_lq s\<rparr>"
  "(if c then s\<lparr>sb_lq_max := x\<rparr> else s) = s\<lparr>sb_lq_max := if c then x else sb_lq_max s\<rparr>"
  "(if c then s\<lparr>sb_lq_len := y\<rparr> else s) = s\<lparr>sb_lq_len := if c then y else sb_lq_len s\<rparr>"
  "(if c then s\<lparr>sb_requests := z\<rparr> else s) = s\<lparr>sb_requests := if c then z else sb_requests s\<rparr>"
  "(if c then s\<lparr>sb_max_children_reached := y\<rparr> else s) =
     s\<lparr>sb_max_children_reached := if c then y else sb_max_children_reached s\<rparr>"
  "(if c then s\<lparr>sb_slow_rq := z\<rparr> else s) = s\<lparr>sb_slow_rq := if c then z else sb_slow_rq s\<rparr>"
  by simp_all

lemma if_greater_max: "(if (x :: int) < y then y else x) = max x y"
  by simp

lemma if_pos_word: "(if (0 :: 'a::len word) < x then x else 0) = x"
  by (simp add: word_gt_0)

lemma if_pos_max: "(if (0 :: int) < x then x else 0) = max 0 x"
  by simp

lemma run_sb_set:
  "up_action u = PMF_SCOREBOARD_ACTION_SET \<Longrightarrow>
   run_stmts (sb_prog u) (Ok s) = Ok (s\<lparr>
     sb_idle := (if up_idle u \<ge> 0 then up_idle u else sb_idle s),
     sb_active := (if up_active u \<ge> 0 then up_active u else sb_active s),
     sb_active_max := max (sb_active_max s) (if up_active u \<ge> 0 then up_active u else sb_active s),
     sb_requests := (if up_requests u \<ge> 0 then word_of_int (up_requests u) else sb_requests s),
     sb_max_children_reached := (if up_max_children_reached u \<ge> 0
        then word_of_int (up_max_children_reached u) else sb_max_children_reached s),
     sb_lq := (if up_lq u \<ge> 0 then up_lq u else sb_lq s),
     sb_lq_max := max (sb_lq_max s) (if up_lq u \<ge> 0 then up_lq u else sb_lq s),
     sb_lq_len := (if up_lq_len u \<ge> 0 then word_of_int (up_lq_len u) else sb_lq_len s),
     sb_slow_rq := (if up_slow_rq u > 0 then word_of_int (up_slow_rq u) else sb_slow_rq s)\<rparr>)"
  by (simp add: sb_prog_def sb_update_stmts_def sb_set_stmts_def sb_active_max_stmt_def
      sb_upd_if if_greater_max split del: if_split cong del: if_weak_cong)

lemma run_sb_inc:
  assumes "up_action u \<noteq> PMF_SCOREBOARD_ACTION_SET"
    and "int32 (sb_idle s + up_idle u)" and "int32 (sb_active s + up_active u)"
  shows "run_stmts (sb_prog u) (Ok s) = Ok (s\<lparr>
     sb_idle := max 0 (sb_idle s + up_idle u),
     sb_active := max 0 (sb_active s + up_active u),
     sb_active_max := max (sb_active_max s) (max 0 (sb_active s + up_active u)),
     sb_requests := sb_requests s + word_of_int (up_requests u),
     sb_max_children_reached := sb_max_children_reached s + word_of_int (up_max_children_reached u),
     sb_slow_rq := sb_slow_rq s + word_of_int (up_slow_rq u)\<rparr>)"
  using assms
  by (simp add: sb_prog_def sb_update_stmts_def sb_inc_stmts_def sb_active_max_stmt_def
      checked32_def sb_upd_if if_greater_max if_pos_word if_pos_max Let_def split del: if_split cong del: if_weak_cong)

lemma run_sb_Undef: "run_stmts (sb_prog u) (Undef e) = Undef e"
proof -
  have "run_stmts (map (\<lambda>f d. obind d f) fs) (Undef e) = Undef e"
    for fs :: "sb_stmt list" by (induction fs) simp_all
  then show ?thesis by (simp add: sb_prog_def)
qed

lemma run_sb_Fail: "run_stmts (sb_prog u) (Fail e) = Fail e"
proof -
  have "run_stmts (map (\<lambda>f d. obind d f) fs) (Fail e) = Fail e"
    for fs :: "sb_stmt list" by (induction fs) simp_all
  then show ?thesis by (simp add: sb_prog_def)
qed

lemma run_sb_inc_overflow:
  assumes "up_action u \<noteq> PMF_SCOREBOARD_ACTION_SET"
    and "\<not> (int32 (sb_idle s + up_idle u) \<and> int32 (sb_active s + up_active u))"
  shows "run_stmts (sb_prog u) (Ok s) = Undef SignedOverflow"
  using assms
  by (cases "int32 (sb_idle s + up_idle u)")
    (simp_all add: sb_prog_def sb_update_stmts_def sb_inc_stmts_def sb_active_max_stmt_def
      checked32_def split del: if_split)

text \<open>The three ways a call can go.\<close>

lemma run_sb_cases:
  obtains (set) "up_action u = PMF_SCOREBOARD_ACTION_SET"
  | (inc) "up_action u \<noteq> PMF_SCOREBOARD_ACTION_SET"
      "int32 (sb_idle s + up_idle u)" "int32 (sb_active s + up_active u)"
  | (overflow) "up_action u \<noteq> PMF_SCOREBOARD_ACTION_SET"
      "run_stmts (sb_prog u) (Ok s) = Undef SignedOverflow"
  using run_sb_inc_overflow [of u s] by blast

subsection \<open>The invariant of a scoreboard, kept by every whole update\<close>

text \<open>
  What a client of the lock needs: operations that, run as a whole, keep a predicate of the
  shared data keep it whenever the lock is free, however their statements interleave.
\<close>

locale guarded_update =
  fixes prog :: "'op \<Rightarrow> ('d \<Rightarrow> 'd) list"
    and good :: "'d \<Rightarrow> bool"
  assumes op_good: "good d \<Longrightarrow> good (run_stmts (prog op) d)"
begin

lemma run_ops_good: "good d \<Longrightarrow> good (run_ops prog ops d)"
proof (induction ops arbitrary: d)
  case Nil
  then show ?case by simp
next
  case (Cons op ops)
  then have "good (run_ops prog ops (run_stmts (prog op) d))" by (simp add: op_good)
  then show ?case by (simp add: run_ops_def)
qed

lemma free_lock_good:
  assumes "par_reach prog d s" and "good d" and "lock_word s = 0"
  shows "good (shared s)"
  using par_reach_inv [OF assms(1)] assms(2,3) by (simp add: par_inv_def run_ops_good)

end

definition sb_counts_ok :: "pmf_scoreboard \<Rightarrow> bool" where
  "sb_counts_ok s \<longleftrightarrow>
     0 \<le> sb_idle s \<and> 0 \<le> sb_active s \<and> sb_active s \<le> sb_active_max s \<and> sb_lq s \<le> sb_lq_max s"

definition sb_good :: "(unit, pmf_scoreboard) outcome \<Rightarrow> bool" where
  "sb_good d = (case d of Ok s \<Rightarrow> sb_counts_ok s | _ \<Rightarrow> True)"

lemma run_sb_good: "sb_counts_ok s \<Longrightarrow> sb_good (run_stmts (sb_prog u) (Ok s))"
proof (cases rule: run_sb_cases [where u = u and s = s])
  case set
  assume "sb_counts_ok s"
  then show ?thesis by (simp add: sb_good_def run_sb_set [OF set] sb_counts_ok_def)
next
  case inc
  assume "sb_counts_ok s"
  then show ?thesis by (simp add: sb_good_def run_sb_inc [OF inc] sb_counts_ok_def)
next
  case overflow
  then show ?thesis by (simp add: sb_good_def)
qed

interpretation sb: guarded_update sb_prog sb_good
proof
  fix d :: "(unit, pmf_scoreboard) outcome" and u
  assume "sb_good d"
  then show "sb_good (run_stmts (sb_prog u) d)"
    by (cases d) (use run_sb_good in \<open>auto simp: run_sb_Undef run_sb_Fail sb_good_def\<close>)
qed

text \<open>One call on an unlocked scoreboard is its statements.\<close>

lemma run_sb_lock:
  assumes "sb_lock s = 0"
  shows "obind (run_stmts (sb_prog u) (Ok (s\<lparr>sb_lock := 1\<rparr>))) (\<lambda>s'. Ok (s'\<lparr>sb_lock := 0\<rparr>))
    = run_stmts (sb_prog u) (Ok s)"
proof (cases rule: run_sb_cases [where u = u and s = s])
  case set
  show ?thesis using assms by (simp add: run_sb_set [OF set])
next
  case inc
  show ?thesis using assms inc by (simp add: run_sb_inc)
next
  case overflow
  then have "run_stmts (sb_prog u) (Ok (s\<lparr>sb_lock := 1\<rparr>)) = Undef SignedOverflow"
    using run_sb_inc [of u s] by (intro run_sb_inc_overflow) auto
  with overflow show ?thesis by simp
qed

lemma pmf_scoreboard_update_free:
  assumes "sb_lock s = 0"
  shows "pmf_scoreboard_update u g (Some s) = obind (run_stmts (sb_prog u) (Ok s)) (\<lambda>s'. Ok (Some s'))"
  using assms
  by (simp add: pmf_scoreboard_update_def spinlock_free pmf_unlock_def flip: run_sb_lock obind_assoc)
    (simp add: obind_assoc)

lemma run_sb_keeps_lock:
  "run_stmts (sb_prog u) (Ok s) = Ok s' \<Longrightarrow> sb_lock s' = sb_lock s"
  by (cases rule: run_sb_cases [where u = u and s = s]) (auto simp: run_sb_set run_sb_inc)

subsection \<open>Properties\<close>

text \<open>One call of \<open>pmf_scoreboard_update\<close> in a sequence of calls.\<close>

definition sb_call ::
  "sb_update \<Rightarrow> (unit, pmf_scoreboard) outcome \<Rightarrow> (unit, pmf_scoreboard) outcome" where
  "sb_call u d = obind d (\<lambda>s. obind (pmf_scoreboard_update u None (Some s))
     (\<lambda>r. case r of Some s' \<Rightarrow> Ok s' | None \<Rightarrow> Undef NullDeref))"

lemma sb_call_free:
  "sb_lock s = 0 \<Longrightarrow> sb_call u (Ok s) = run_stmts (sb_prog u) (Ok s)"
  by (simp add: sb_call_def pmf_scoreboard_update_free obind_assoc)

lemma fold_sb_call:
  "(\<forall>s. d = Ok s \<longrightarrow> sb_lock s = 0) \<Longrightarrow> fold sb_call us d = run_ops sb_prog us d"
proof (induction us arbitrary: d)
  case Nil
  then show ?case by simp
next
  case (Cons u us)
  have "sb_call u d = run_stmts (sb_prog u) d"
    using Cons.prems by (cases d) (simp_all add: sb_call_free run_sb_Undef run_sb_Fail, simp_all add: sb_call_def)
  moreover have "\<forall>s'. run_stmts (sb_prog u) d = Ok s' \<longrightarrow> sb_lock s' = 0"
    using Cons.prems run_sb_keeps_lock by (cases d) (fastforce simp: run_sb_Undef run_sb_Fail)+
  ultimately show ?case using Cons.IH by (simp add: run_ops_def)
qed

definition sample_scoreboard :: pmf_scoreboard where
  "sample_scoreboard = \<lparr>sb_lock = 0, sb_pool = replicate 32 (CHR 0x00), sb_pm = 2,
     sb_start_epoch = 0, sb_idle = 1, sb_active = 2, sb_active_max = 3, sb_requests = 1,
     sb_max_children_reached = 0, sb_lq = 0, sb_lq_max = 0, sb_lq_len = 0, sb_nprocs = 0,
     sb_free_proc = 0, sb_slow_rq = 0, sb_procs = []\<rparr>"

definition sample_update :: "int \<Rightarrow> sb_update" where
  "sample_update act = \<lparr>up_idle = - 4, up_active = 5, up_lq = 0, up_lq_len = 0,
     up_requests = - 2, up_max_children_reached = 0, up_slow_rq = 0, up_action = act\<rparr>"


text \<open>A reachable state after two whole updates, an increment and a setting.\<close>

definition two_updates :: "sb_update list" where
  "two_updates = [sample_update PMF_SCOREBOARD_ACTION_INC, sample_update PMF_SCOREBOARD_ACTION_SET]"

definition after_two :: "(sb_update, (unit, pmf_scoreboard) outcome) par_state" where
  "after_two = (par_init (Ok sample_scoreboard))
     \<lparr>shared := run_ops sb_prog two_updates (Ok sample_scoreboard), taken := two_updates\<rparr>"

lemma after_two_reach: "par_reach sb_prog (Ok sample_scoreboard) after_two"
  unfolding after_two_def by (rule run_whole_list)

lemma after_two_shared:
  "\<exists>s. shared after_two = Ok s \<and> sb_idle s = 0 \<and> sb_active s = 5 \<and> sb_active_max s = 7"
  by (simp add: after_two_def two_updates_def run_ops_def run_sb_set run_sb_inc sample_update_def
      PMF_SCOREBOARD_ACTION_INC_def PMF_SCOREBOARD_ACTION_SET_def sample_scoreboard_def int32_def)




text \<open>
  C36: An increment call on an unlocked scoreboard, when neither signed sum overflows, adds to
  \<open>idle\<close> and \<open>active\<close> and clamps them at 0, raises \<open>active_max\<close> to the new \<open>active\<close>, and
  releases the lock; the unsigned counters are not clamped but wrap modulo their width. If a
  signed sum does overflow, the call has undefined behaviour.
\<close>

theorem scoreboard_inc_behaviour:
  assumes "sb_lock s = 0" and "up_action u \<noteq> PMF_SCOREBOARD_ACTION_SET"
  shows "if int32 (sb_idle s + up_idle u) \<and> int32 (sb_active s + up_active u)
    then \<exists>s'. pmf_scoreboard_update u g (Some s) = Ok (Some s')
       \<and> sb_lock s' = 0
       \<and> sb_idle s' = max 0 (sb_idle s + up_idle u)
       \<and> sb_active s' = max 0 (sb_active s + up_active u)
       \<and> sb_active_max s' = max (sb_active_max s) (sb_active s')
       \<and> uint (sb_requests s') = (uint (sb_requests s) + up_requests u) mod 2 ^ 64
       \<and> uint (sb_max_children_reached s') =
           (uint (sb_max_children_reached s) + up_max_children_reached u) mod 2 ^ 32
       \<and> uint (sb_slow_rq s') = (uint (sb_slow_rq s) + up_slow_rq u) mod 2 ^ 64
       \<and> sb_lq s' = sb_lq s \<and> sb_lq_len s' = sb_lq_len s
    else pmf_scoreboard_update u g (Some s) = Undef SignedOverflow"
  using assms
  by (simp add: pmf_scoreboard_update_free run_sb_inc run_sb_inc_overflow uint_word_ariths
      uint_word_of_int mod_add_right_eq)

theorem scoreboard_inc_behaviour_witness:
  "\<exists>s'. pmf_scoreboard_update (sample_update 1) None (Some sample_scoreboard) = Ok (Some s')
      \<and> sb_idle s' = 0 \<and> sb_active_max s' = 7 \<and> uint (sb_requests s') = 2 ^ 64 - 1"
  using scoreboard_inc_behaviour [of sample_scoreboard "sample_update 1" None]
  by (auto simp: sample_scoreboard_def sample_update_def int32_def PMF_SCOREBOARD_ACTION_SET_def)

end
