(* ===== verification/Pmf_Types.thy ===== *)
theory Pmf_Types
  imports Pmf_Scoreboard
begin

text \<open>
  The structures the components share: the global configuration and the pool configuration
  (\<open>pmf_conf.h\<close>), the worker pool (\<open>pmf_worker_pool.h\<close>), the child (\<open>pmf_children.h\<close>), and
  the process globals (\<open>pmf.h\<close>, \<open>pmf.c\<close>); and the operations of \<open>pmf_worker_pool.c\<close> and
  \<open>pmf_children.c\<close>. An embedded pointer to another structure is an option of its record.
\<close>

record pmf_global_config =
  gc_pid_file :: "string option"
  gc_include_dir :: "string option"
  gc_error_log :: "string option"
  gc_log_level :: int
  gc_emergency_restart_threshold :: int
  gc_emergency_restart_interval :: int
  gc_process_control_timeout :: int
  gc_process_max :: int
  gc_process_priority :: int
  gc_daemonize :: int
  gc_rlimit_files :: int
  gc_rlimit_core :: int
  gc_event_mechanism :: "string option"

definition PLOG_DEBUG :: int where "PLOG_DEBUG = 1"
definition PLOG_NOTICE :: int where "PLOG_NOTICE = 2"
definition PLOG_WARNING :: int where "PLOG_WARNING = 3"
definition PLOG_ERROR :: int where "PLOG_ERROR = 4"
definition PLOG_ALERT :: int where "PLOG_ALERT = 5"

lemmas plog_levels [simp] =
  PLOG_DEBUG_def PLOG_NOTICE_def PLOG_WARNING_def PLOG_ERROR_def PLOG_ALERT_def

text \<open>The initialiser of \<open>pmf_global_config\<close>; fields it does not name are zero.\<close>

definition pmf_global_config_init :: pmf_global_config where
  "pmf_global_config_init =
     \<lparr>gc_pid_file = None, gc_include_dir = None, gc_error_log = None,
      gc_log_level = PLOG_ALERT, gc_emergency_restart_threshold = 0,
      gc_emergency_restart_interval = 0, gc_process_control_timeout = 0,
      gc_process_max = 0, gc_process_priority = 64, gc_daemonize = 0,
      gc_rlimit_files = 0, gc_rlimit_core = 0, gc_event_mechanism = None\<rparr>"

definition PM_STYLE_STATIC :: int where "PM_STYLE_STATIC = 1"
definition PM_STYLE_DYNAMIC :: int where "PM_STYLE_DYNAMIC = 2"
definition PM_STYLE_ONDEMAND :: int where "PM_STYLE_ONDEMAND = 3"

lemmas pm_styles [simp] = PM_STYLE_STATIC_def PM_STYLE_DYNAMIC_def PM_STYLE_ONDEMAND_def

record wp_config =
  wpc_name :: "string option"
  wpc_user :: "string option"
  wpc_group :: "string option"
  wpc_listen_address :: "string option"
  wpc_listen_owner :: "string option"
  wpc_listen_group :: "string option"
  wpc_listen_mode :: "string option"
  wpc_listen_backlog :: int
  wpc_process_priority :: int
  wpc_process_dumpable :: int
  wpc_pm_type :: int
  wpc_pm_max_children :: int
  wpc_pm_start_servers :: int
  wpc_pm_min_spare_servers :: int
  wpc_pm_max_spare_servers :: int
  wpc_pm_process_idle_timeout :: int
  wpc_pm_max_requests :: int

datatype address_domain = PMF_AF_UNIX | PMF_AF_INET

record pmf_child =
  child_start_time :: "int \<times> int"
  child_pid :: int
  child_scoreboard_index :: int

text \<open>
  \<open>wp_domain\<close> is \<open>None\<close> while the field holds 0, which is no enumerator. The scoreboard
  pointer carries its address and the block it points to.
\<close>

record worker_pool =
  wp_config :: "wp_config option"
  wp_listening_socket_fd :: int
  wp_domain :: "address_domain option"
  wp_user :: "string option"
  wp_home :: "string option"
  wp_set_uid :: int
  wp_set_gid :: int
  wp_socket_uid :: int
  wp_socket_gid :: int
  wp_socket_mode :: int
  wp_running_children_num :: int
  wp_idle_rate :: int
  wp_max_children :: int
  wp_children :: "pmf_child list"
  wp_scoreboard :: "(64 word \<times> pmf_scoreboard) option"

record pmf_globals =
  g_parent_pid :: int
  g_running_children_num :: int
  g_error_log_fd :: int
  g_log_level :: int
  g_is_child :: int
  g_listening_socket :: int
  g_max_requests :: int
  g_send_config_pipe :: "int \<times> int"

definition pmf_globals_init :: pmf_globals where
  "pmf_globals_init =
     \<lparr>g_parent_pid = 0, g_running_children_num = 0, g_error_log_fd = 0, g_log_level = 0,
      g_is_child = 0, g_listening_socket = 0, g_max_requests = 0, g_send_config_pipe = (0, 0)\<rparr>"

subsection \<open>pmf_worker_pool.c\<close>

text \<open>\<open>malloc_ok\<close> says whether \<open>malloc\<close> succeeds.\<close>

definition pmf_worker_pool_alloc :: "bool \<Rightarrow> worker_pool option" where
  "pmf_worker_pool_alloc malloc_ok =
     (if \<not> malloc_ok then None
      else Some \<lparr>wp_config = None, wp_listening_socket_fd = 0, wp_domain = None,
        wp_user = None, wp_home = None, wp_set_uid = 0, wp_set_gid = 0, wp_socket_uid = 0,
        wp_socket_gid = 0, wp_socket_mode = 0, wp_running_children_num = 0,
        wp_idle_rate = 1, wp_max_children = 0, wp_children = [], wp_scoreboard = None\<rparr>)"

text \<open>The blocks \<open>pmf_worker_pool_free\<close> hands to \<open>free\<close>, in order.\<close>

datatype freed_block = Freed_config wp_config | Freed_pool worker_pool

definition pmf_worker_pool_free :: "worker_pool \<Rightarrow> freed_block list" where
  "pmf_worker_pool_free wp =
     (case wp_config wp of Some c \<Rightarrow> [Freed_config c] | None \<Rightarrow> []) @ [Freed_pool wp]"

definition pmf_worker_pool_init_main :: int where
  "pmf_worker_pool_init_main = 0"

subsection \<open>pmf_children.c\<close>

text \<open>
  \<open>malloc_ok\<close> answers a request of that many bytes. The table \<open>last_faults\<close> starts as
  \<open>faults\<close>; the size is computed in \<open>size_t\<close>, to which a negative threshold converts.
\<close>

definition pmf_children_init_main ::
  "(64 word \<Rightarrow> bool) \<Rightarrow> pmf_global_config \<Rightarrow> int list option \<Rightarrow> int \<times> int list option" where
  "pmf_children_init_main malloc_ok g faults =
     (if gc_emergency_restart_threshold g \<noteq> 0 \<and> gc_emergency_restart_interval g \<noteq> 0
      then let sz = 8 * word_of_int (gc_emergency_restart_threshold g)
           in if \<not> malloc_ok sz then (- 1, None)
              else (0, Some (replicate (unat sz div 8) 0))
      else (0, faults))"

subsection \<open>A sample pool for concrete instances\<close>

definition sample_wp_config :: wp_config where
  "sample_wp_config =
     \<lparr>wpc_name = Some ''www'', wpc_user = Some ''nobody'', wpc_group = Some ''nobody'',
      wpc_listen_address = Some ''127.0.0.1:9000'', wpc_listen_owner = None,
      wpc_listen_group = None, wpc_listen_mode = None, wpc_listen_backlog = 511,
      wpc_process_priority = 64, wpc_process_dumpable = 0, wpc_pm_type = 2,
      wpc_pm_max_children = 5, wpc_pm_start_servers = 0, wpc_pm_min_spare_servers = 1,
      wpc_pm_max_spare_servers = 3, wpc_pm_process_idle_timeout = 10, wpc_pm_max_requests = 0\<rparr>"

definition sample_pool :: worker_pool where
  "sample_pool = the (pmf_worker_pool_alloc True)\<lparr>wp_config := Some sample_wp_config\<rparr>"

lemmas sample_pool_defs = sample_pool_def sample_wp_config_def pmf_worker_pool_alloc_def

end
