(* ===== verification/Pmf_Scoreboard_Init.thy ===== *)
theory Pmf_Scoreboard_Init
  imports Pmf_Types
begin

text \<open>
  Shared memory (\<open>pmf_shm.c\<close>) and the creation of one scoreboard per pool
  (\<open>pmf_scoreboard_init_main\<close>). \<open>mmap\<close> is a parameter: the address it returns for a size;
  its documented failure value is \<open>MAP_FAILED\<close>, the all-ones address. A null pointer is 0.
\<close>

definition MAP_FAILED :: "64 word" where "MAP_FAILED = - 1"

subsection \<open>Shared memory\<close>

text \<open>The state is the counter \<open>pmf_shm_size\<close>.\<close>

definition pmf_shm_alloc ::
  "(64 word \<Rightarrow> 64 word) \<Rightarrow> 64 word \<Rightarrow> 64 word \<Rightarrow> 64 word \<times> 64 word" where
  "pmf_shm_alloc mmap sz shm_size =
     (let mem = mmap sz in if mem = 0 then (0, shm_size) else (mem, shm_size + sz))"

definition pmf_shm_free :: "bool \<Rightarrow> 64 word \<Rightarrow> 64 word \<Rightarrow> 64 word \<Rightarrow> int \<times> 64 word" where
  "pmf_shm_free munmap_ok mem sz shm_size =
     (if mem = 0 then (0, shm_size)
      else if \<not> munmap_ok then (0, shm_size)
      else (1, if shm_size - sz > 0 then shm_size - sz else 0))"

subsection \<open>Scoreboard creation\<close>

text \<open>Sizes of the two structures and of a pointer on the LP64 ABI.\<close>

definition sizeof_scoreboard :: "64 word" where "sizeof_scoreboard = 120"
definition sizeof_scoreboard_proc :: "64 word" where "sizeof_scoreboard_proc = 112"
definition sizeof_ptr :: "64 word" where "sizeof_ptr = 8"

definition scoreboard_size :: "int \<Rightarrow> 64 word" where
  "scoreboard_size n = sizeof_scoreboard + word_of_int n * sizeof_ptr"

definition scoreboard_nprocs_size :: "int \<Rightarrow> 64 word" where
  "scoreboard_nprocs_size n = sizeof_scoreboard_proc * word_of_int n"

text \<open>\<open>strncpy(dst, s, n)\<close>: no terminator when \<open>s\<close> has \<open>n\<close> characters or more.\<close>

definition strncpy_bytes :: "nat \<Rightarrow> string \<Rightarrow> char list" where
  "strncpy_bytes n s = take n (s @ replicate n (CHR 0x00))"

text \<open>The block \<open>mmap\<close> returned at \<open>mem\<close>, zero-filled, after the assignments.\<close>

definition scoreboard_block :: "64 word \<Rightarrow> int \<Rightarrow> int \<Rightarrow> int \<Rightarrow> string \<Rightarrow> pmf_scoreboard" where
  "scoreboard_block mem n pm now pname =
     \<lparr>sb_lock = 0, sb_pool = strncpy_bytes 32 pname, sb_pm = pm, sb_start_epoch = now,
      sb_idle = 0, sb_active = 0, sb_active_max = 0, sb_requests = 0,
      sb_max_children_reached = 0, sb_lq = 0, sb_lq_max = 0, sb_lq_len = 0,
      sb_nprocs = word_of_int n, sb_free_proc = 0, sb_slow_rq = 0,
      sb_procs = map (\<lambda>i. mem + scoreboard_size n + of_nat i * sizeof_scoreboard_proc)
                   [0 ..< unat (word_of_int n :: 32 word)]\<rparr>"

text \<open>
  The loop over the pools. The result holds the value of an executed \<open>return\<close> statement, or
  \<open>None\<close> when control reaches the end of the function, which has no \<open>return\<close>; then the pools
  and the shared memory counter. Writing through \<open>MAP_FAILED\<close> is an access outside any block.
\<close>

fun pmf_scoreboard_init_main ::
  "(64 word \<Rightarrow> 64 word) \<Rightarrow> int \<Rightarrow> worker_pool list \<Rightarrow> 64 word \<Rightarrow>
   (unit, int option \<times> worker_pool list \<times> 64 word) outcome" where
  "pmf_scoreboard_init_main mmap now [] shm_size = Ok (None, [], shm_size)"
| "pmf_scoreboard_init_main mmap now (wp # wps) shm_size =
     (case wp_config wp of
        None \<Rightarrow> Undef NullDeref
      | Some c \<Rightarrow>
          let n = wpc_pm_max_children c in
          if n < 1 then Ok (Some (- 1), wp # wps, shm_size)
          else if wp_scoreboard wp \<noteq> None then Ok (Some (- 1), wp # wps, shm_size)
          else
            case pmf_shm_alloc mmap (scoreboard_size n + scoreboard_nprocs_size n) shm_size of
              (mem, shm_size') \<Rightarrow>
                if mem = 0 then Ok (Some (- 1), wp # wps, shm_size')
                else if mem = MAP_FAILED then Undef OutOfBounds
                else
                  case wpc_name c of
                    None \<Rightarrow> Undef NullDeref
                  | Some pname \<Rightarrow>
                      obind (pmf_scoreboard_init_main mmap now wps shm_size')
                        (\<lambda>(ret, wps', shm_size''). Ok (ret,
                           wp\<lparr>wp_scoreboard :=
                               Some (mem, scoreboard_block mem n (wpc_pm_type c) now pname)\<rparr> # wps',
                           shm_size'')))"

subsection \<open>Layout\<close>

lemma sizeof_simps [simp]:
  "sizeof_scoreboard = 120" "sizeof_scoreboard_proc = 112" "sizeof_ptr = 8"
  by (simp_all add: sizeof_scoreboard_def sizeof_scoreboard_proc_def sizeof_ptr_def)

lemma unat_word_of_pos: "0 \<le> n \<Longrightarrow> n < 2 ^ 31 \<Longrightarrow> unat (word_of_int n :: 32 word) = nat n"
  by (simp add: unat_eq_nat_uint uint_word_of_int)

lemma unat_entry_address:
  assumes "0 \<le> n" and "unat mem + 120 + 8 * nat n + 112 * i < 2 ^ 64"
  shows "unat (mem + scoreboard_size n + of_nat i * sizeof_scoreboard_proc)
    = unat mem + 120 + 8 * nat n + 112 * i"
proof -
  have "(word_of_int n :: 64 word) = of_nat (nat n)" using assms(1) by simp
  then have "mem + scoreboard_size n + of_nat i * sizeof_scoreboard_proc
      = (of_nat (unat mem + 120 + 8 * nat n + 112 * i) :: 64 word)"
    by (simp add: scoreboard_size_def algebra_simps)
  with assms(2) show ?thesis by (simp only: unat_of_nat) simp
qed

lemma unat_block_size:
  assumes "0 \<le> n" and "120 + 120 * nat n < 2 ^ 64"
  shows "unat (scoreboard_size n + scoreboard_nprocs_size n) = 120 + 120 * nat n"
proof -
  have "(word_of_int n :: 64 word) = of_nat (nat n)" using assms(1) by simp
  then have "scoreboard_size n + scoreboard_nprocs_size n = (of_nat (120 + 120 * nat n) :: 64 word)"
    by (simp add: scoreboard_size_def scoreboard_nprocs_size_def algebra_simps)
  with assms(2) show ?thesis by (simp only: unat_of_nat) simp
qed

lemma scoreboard_block_counts_ok: "sb_counts_ok (scoreboard_block mem n pm now nm)"
  by (simp add: sb_counts_ok_def scoreboard_block_def)

subsection \<open>Properties\<close>

text \<open>
  C39: The process entries of a new scoreboard for \<open>n\<close> children lie inside the block that was
  allocated for it, behind the header and its table of \<open>n\<close> pointers, and do not overlap.
\<close>

theorem scoreboard_entries_disjoint:
  assumes "1 \<le> n" and "n < 2 ^ 31" and "unat mem + 120 + 120 * nat n < 2 ^ 64"
    and procs_def: "procs = sb_procs (scoreboard_block mem n pm now pname)"
  shows "length procs = nat n
    \<and> (\<forall>i < nat n. unat mem + 120 + 8 * nat n \<le> unat (procs ! i)
         \<and> unat (procs ! i) + 112 \<le> unat mem + unat (scoreboard_size n + scoreboard_nprocs_size n))
    \<and> (\<forall>i j. i < j \<and> j < nat n \<longrightarrow> unat (procs ! i) + 112 \<le> unat (procs ! j))"
proof -
  have n: "unat (word_of_int n :: 32 word) = nat n"
    using assms(1,2) by (intro unat_word_of_pos) simp_all
  have entry: "unat (procs ! i) = unat mem + 120 + 8 * nat n + 112 * i" if "i < nat n" for i
  proof -
    have "procs ! i = mem + scoreboard_size n + of_nat i * sizeof_scoreboard_proc"
      using that n by (simp add: procs_def scoreboard_block_def)
    moreover have "unat mem + 120 + 8 * nat n + 112 * i < 2 ^ 64" using that assms(3) by simp
    ultimately show ?thesis using assms(1) by (simp only: unat_entry_address)
  qed
  have "unat (scoreboard_size n + scoreboard_nprocs_size n) = 120 + 120 * nat n"
    using assms(1,3) by (intro unat_block_size) simp_all
  moreover have "length procs = nat n" by (simp add: procs_def scoreboard_block_def n)
  ultimately show ?thesis using entry by simp
qed

theorem scoreboard_entries_disjoint_witness:
  "length (sb_procs (scoreboard_block 4096 2 1 0 ''www'')) = 2
   \<and> unat (sb_procs (scoreboard_block 4096 2 1 0 ''www'') ! 0) + 112
     \<le> unat (sb_procs (scoreboard_block 4096 2 1 0 ''www'') ! 1)"
  using scoreboard_entries_disjoint [OF _ _ _ refl, of 2 4096 1 0 "''www''"] by simp

text \<open>
  Freeing what was allocated restores the shared memory counter; and \<open>pmf_shm_free\<close>
  always subtracts modulo \<open>2 ^ 64\<close>: its clamp at 0 has no effect, so freeing more than the
  counter holds makes it wrap to a huge value.
\<close>

theorem pmf_shm_accounting:
  assumes "mmap sz \<noteq> 0" and "mem \<noteq> 0"
  shows "pmf_shm_alloc mmap sz held = (mmap sz, held + sz)
    \<and> pmf_shm_free True (mmap sz) sz (held + sz) = (1, held)
    \<and> pmf_shm_free True mem sz held = (1, held - sz)"
  using assms by (auto simp: pmf_shm_alloc_def pmf_shm_free_def word_gt_0)

theorem pmf_shm_accounting_witness:
  "pmf_shm_free True 4096 8 (0 :: 64 word) = (1, - 8)
   \<and> pmf_shm_free True 4096 8 (5 + 8) = (1, 5)"
  using pmf_shm_accounting [of "\<lambda>_. 4096" 8 4096 0] pmf_shm_accounting [of "\<lambda>_. 4096" 8 4096 5]
  by simp

definition block_request :: "worker_pool \<Rightarrow> 64 word" where
  "block_request wp = (case wp_config wp of None \<Rightarrow> 0
     | Some c \<Rightarrow> scoreboard_size (wpc_pm_max_children c) + scoreboard_nprocs_size (wpc_pm_max_children c))"

definition pool_initialised :: "int \<Rightarrow> worker_pool \<Rightarrow> worker_pool \<Rightarrow> bool" where
  "pool_initialised now wp wp' \<longleftrightarrow>
     (\<exists>c pname mem. wp_config wp = Some c \<and> wpc_name c = Some pname
        \<and> 1 \<le> wpc_pm_max_children c \<and> mem \<noteq> 0 \<and> mem \<noteq> MAP_FAILED
        \<and> wp' = wp\<lparr>wp_scoreboard := Some (mem, scoreboard_block mem (wpc_pm_max_children c)
                     (wpc_pm_type c) now pname)\<rparr>)"

lemma pmf_shm_alloc_nonzero:
  "pmf_shm_alloc mmap sz t = (mem, t') \<Longrightarrow> mem \<noteq> 0 \<Longrightarrow> t' = t + sz"
  by (auto simp: pmf_shm_alloc_def Let_def split: if_splits)

lemma scoreboard_init_cases:
  assumes "pmf_scoreboard_init_main mmap now wps held = Ok (ret, wps', held')"
  shows "ret = Some (- 1) \<or>
    (ret = None \<and> list_all2 (pool_initialised now) wps wps'
       \<and> held' = held + sum_list (map block_request wps))"
  using assms
proof (induction mmap now wps held arbitrary: ret wps' held' rule: pmf_scoreboard_init_main.induct)
  case (1 mmap now held)
  then show ?case by simp
next
  case (2 mmap now wp wps held)
  from "2.prems" obtain c where c: "wp_config wp = Some c"
    by (auto split: option.splits)
  let ?n = "wpc_pm_max_children c"
  obtain mem t where alloc:
    "pmf_shm_alloc mmap (scoreboard_size ?n + scoreboard_nprocs_size ?n) held = (mem, t)"
    by fastforce
  show ?case
  proof (cases "?n < 1 \<or> wp_scoreboard wp \<noteq> None \<or> mem = 0")
    case True
    with "2.prems" c alloc show ?thesis by (auto simp: Let_def split: if_splits)
  next
    case False
    with "2.prems" c alloc obtain pname wps2 where rec:
      "pmf_scoreboard_init_main mmap now wps t = Ok (ret, wps2, held')"
      "wpc_name c = Some pname" "mem \<noteq> MAP_FAILED"
      "wps' = wp\<lparr>wp_scoreboard := Some (mem, scoreboard_block mem ?n (wpc_pm_type c) now pname)\<rparr> # wps2"
      by (auto simp: Let_def pmf_simps split: if_splits option.splits)
    with False c alloc have "ret = Some (- 1) \<or> (ret = None \<and> list_all2 (pool_initialised now) wps wps2
       \<and> held' = t + sum_list (map block_request wps))"
      by (intro "2.IH" [OF c refl]) (auto simp: alloc)
    moreover have "t = held + block_request wp"
      using False c pmf_shm_alloc_nonzero [OF alloc] by (simp add: block_request_def)
    moreover have "pool_initialised now wp (hd wps')"
      unfolding pool_initialised_def using rec False c by (intro exI) auto
    ultimately show ?thesis using rec(4) by (auto simp: add.assoc)
  qed
qed



end
