(* ===== verification/Pmf_Dictionary.thy ===== *)
theory Pmf_Dictionary
  imports Pmf_Prelude "HOL-Library.AList"
begin

text \<open>
  The string dictionary of \<open>lib/iniparser/dictionary.c\<close>: three parallel arrays of \<open>size\<close> slots
  (keys, values, key hashes) with \<open>n\<close> slots in use, scanned linearly. A null key pointer is a
  free slot; a null value is a key without a value. The arrays are the lists \<open>d_key\<close>,
  \<open>d_val\<close> and \<open>d_hash\<close>; the string and array allocations whose failure the code looks at are
  parameters.
\<close>

record dictionary =
  d_n :: int
  d_size :: int
  d_val :: "string option list"
  d_key :: "string option list"
  d_hash :: "32 word list"

text \<open>What a \<open>char *\<close> result can be: null, the \<open>(char * )-1\<close> marker, or a string.\<close>

datatype cptr = NULLP | INVALID_KEY | Str string

definition val_ptr :: "string option \<Rightarrow> cptr" where
  "val_ptr v = (case v of None \<Rightarrow> NULLP | Some s \<Rightarrow> Str s)"

text \<open>
  Whether the allocations of one \<open>dictionary_set\<close> succeed, and that of the copy the ini parser
  makes of a line.
\<close>

record dict_alloc =
  grow_ok :: bool
  dupkey_ok :: bool
  dupval_ok :: bool
  dupline_ok :: bool

definition all_alloc :: dict_alloc where
  "all_alloc = \<lparr>grow_ok = True, dupkey_ok = True, dupval_ok = True,
     dupline_ok = True\<rparr>"

lemma all_alloc_sel [simp]:
  "grow_ok all_alloc" "dupkey_ok all_alloc" "dupval_ok all_alloc" "dupline_ok all_alloc"
  by (simp_all add: all_alloc_def)

definition DICTMINSZ :: int where "DICTMINSZ = 128"

subsection \<open>Operations\<close>

definition xstrdup :: "bool \<Rightarrow> string option \<Rightarrow> string option" where
  "xstrdup ok s = (case s of None \<Rightarrow> None | Some t \<Rightarrow> if ok then Some t else None)"

lemma xstrdup_True [simp]: "xstrdup True v = v"
  by (cases v) (simp_all add: xstrdup_def)

definition dictionary_grow :: "bool \<Rightarrow> dictionary \<Rightarrow> int \<times> dictionary" where
  "dictionary_grow ok d =
     (if \<not> ok then (- 1, d)
      else (0, d\<lparr>d_size := d_size d * 2,
                 d_val := take (nat (d_size d)) (d_val d) @ replicate (nat (d_size d)) None,
                 d_key := take (nat (d_size d)) (d_key d) @ replicate (nat (d_size d)) None,
                 d_hash := take (nat (d_size d)) (d_hash d) @ replicate (nat (d_size d)) 0\<rparr>))"

text \<open>
  \<open>(unsigned)key[i]\<close>: \<open>char\<close> is signed on the supported processors, so the conversion
  extends its sign.
\<close>

definition char_unsigned :: "char \<Rightarrow> 32 word" where
  "char_unsigned c = word_of_int (signed_take_bit 7 (of_char c))"

unbundle bit_operations_syntax

definition hash_char :: "32 word \<Rightarrow> char \<Rightarrow> 32 word" where
  "hash_char h c =
     (let h1 = h + char_unsigned c; h2 = h1 + push_bit 10 h1 in h2 XOR drop_bit 6 h2)"

definition hash_finish :: "32 word \<Rightarrow> 32 word" where
  "hash_finish h =
     (let h1 = h + push_bit 3 h; h2 = h1 XOR drop_bit 11 h1 in h2 + push_bit 15 h2)"

definition dictionary_hash :: "string option \<Rightarrow> 32 word" where
  "dictionary_hash key = (case key of None \<Rightarrow> 0 | Some s \<Rightarrow> hash_finish (foldl hash_char 0 s))"

text \<open>\<open>ok\<close>: the header allocation; the three arrays are taken to be allocated.\<close>

definition dictionary_new :: "bool \<Rightarrow> int \<Rightarrow> dictionary option" where
  "dictionary_new ok sz =
     (let sz = (if sz < DICTMINSZ then DICTMINSZ else sz) in
      if \<not> ok then None
      else Some \<lparr>d_n = 0, d_size = sz, d_val = replicate (nat sz) None,
                 d_key = replicate (nat sz) None, d_hash = replicate (nat sz) 0\<rparr>)"

text \<open>The strings \<open>dictionary_del\<close> frees, in order (then the arrays and the header).\<close>

definition dictionary_del :: "dictionary option \<Rightarrow> string list" where
  "dictionary_del dp =
     (case dp of None \<Rightarrow> []
      | Some d \<Rightarrow> concat (map (\<lambda>(k, v). (case k of None \<Rightarrow> [] | Some s \<Rightarrow> [s])
                                    @ (case v of None \<Rightarrow> [] | Some s \<Rightarrow> [s]))
                        (zip (d_key d) (d_val d))))"

text \<open>
  The scan shared by get, set and unset: the first used slot with this hash and this key. The
  last argument is the number of the first slot of the lists.
\<close>

fun dict_scan :: "string \<Rightarrow> 32 word \<Rightarrow> string option list \<Rightarrow> 32 word list \<Rightarrow> nat \<Rightarrow> nat option" where
  "dict_scan key h (k # ks) (x # xs) i =
     (case k of
        None \<Rightarrow> dict_scan key h ks xs (Suc i)
      | Some s \<Rightarrow> if h = x \<and> key = s then Some i else dict_scan key h ks xs (Suc i))"
| "dict_scan key h _ _ i = None"

definition dict_find :: "dictionary \<Rightarrow> string \<Rightarrow> nat option" where
  "dict_find d key = dict_scan key (dictionary_hash (Some key)) (d_key d) (d_hash d) 0"

definition dictionary_get :: "dictionary \<Rightarrow> string \<Rightarrow> cptr \<Rightarrow> cptr" where
  "dictionary_get d key def =
     (case dict_find d key of Some i \<Rightarrow> val_ptr (d_val d ! i) | None \<Rightarrow> def)"

text \<open>
  The search for a free slot, from slot \<open>i\<close> on, wrapping at \<open>size\<close>. It has no bound of its
  own, so it is a partial function.
\<close>

partial_function (option) free_slot ::
  "string option list \<Rightarrow> int \<Rightarrow> nat \<Rightarrow> (unit, nat) outcome option" where
  "free_slot keys sz i =
     (if i \<ge> length keys then Some (Undef OutOfBounds)
      else if keys ! i = None then Some (Ok i)
      else free_slot keys sz (if int (Suc i) = sz then 0 else Suc i))"

declare free_slot.simps [code]

definition dictionary_set ::
  "dict_alloc \<Rightarrow> dictionary option \<Rightarrow> string option \<Rightarrow> string option \<Rightarrow>
   (unit, int \<times> dictionary option) outcome" where
  "dictionary_set al dp keyp v =
     (case (dp, keyp) of
        (Some d, Some key) \<Rightarrow>
          (case (if d_n d > 0 then dict_find d key else None) of
             Some i \<Rightarrow> Ok (0, Some (d\<lparr>d_val := (d_val d)[i := xstrdup (dupval_ok al) v]\<rparr>))
           | None \<Rightarrow>
               (case (if d_n d = d_size d then dictionary_grow (grow_ok al) d else (0, d)) of
                  (r, d1) \<Rightarrow>
                    if r \<noteq> 0 then Ok (- 1, Some d1)
                    else
                      (case free_slot (d_key d1) (d_size d1) (nat (d_n d1)) of
                         None \<Rightarrow> Undef Diverges
                       | Some slot \<Rightarrow>
                           obind slot (\<lambda>i. obind (checked32 (d_n d1 + 1)) (\<lambda>n'.
                             Ok (0, Some (d1\<lparr>
                               d_key := (d_key d1)[i := xstrdup (dupkey_ok al) (Some key)],
                               d_val := (d_val d1)[i := xstrdup (dupval_ok al) v],
                               d_hash := (d_hash d1)[i := dictionary_hash (Some key)],
                               d_n := n'\<rparr>)))))))
      | _ \<Rightarrow> Ok (- 1, dp))"

definition dictionary_unset :: "dictionary option \<Rightarrow> string option \<Rightarrow> dictionary option" where
  "dictionary_unset dp keyp =
     (case (dp, keyp) of
        (Some d, Some key) \<Rightarrow>
          (case dict_find d key of
             None \<Rightarrow> Some d
           | Some i \<Rightarrow> Some (d\<lparr>d_key := (d_key d)[i := None], d_val := (d_val d)[i := None],
                              d_hash := (d_hash d)[i := 0], d_n := d_n d - 1\<rparr>))
      | _ \<Rightarrow> dp)"

definition pad_left :: "nat \<Rightarrow> string \<Rightarrow> string" where
  "pad_left n s = replicate (n - length s) (CHR '' '') @ s"

definition dictionary_dump :: "dictionary option \<Rightarrow> string" where
  "dictionary_dump dp =
     (case dp of
        None \<Rightarrow> []
      | Some d \<Rightarrow>
          if d_n d < 1 then ''empty dictionary'' @ [CHR 0x0A]
          else concat (map (\<lambda>(k, v). case k of None \<Rightarrow> []
                 | Some s \<Rightarrow> pad_left 20 s @ [CHR 0x09] @ ''['' @
                     (case v of None \<Rightarrow> ''UNDEF'' | Some t \<Rightarrow> t) @ '']'' @ [CHR 0x0A])
               (zip (d_key d) (d_val d))))"

subsection \<open>Invariant and abstraction\<close>

text \<open>
  The arrays have \<open>size\<close> slots; \<open>n\<close> counts the used ones; every used slot holds the hash of
  its key; no key is in two slots.
\<close>

definition has_slot :: "dictionary \<Rightarrow> nat \<Rightarrow> string \<Rightarrow> bool" where
  "has_slot d i key \<longleftrightarrow> i < length (d_key d) \<and> d_key d ! i = Some key"

definition slots_unique :: "dictionary \<Rightarrow> bool" where
  "slots_unique d \<longleftrightarrow> (\<forall>i j s. has_slot d i s \<and> has_slot d j s \<longrightarrow> i = j)"

definition used_slots :: "'a option list \<Rightarrow> nat" where
  "used_slots ks = length (filter (\<lambda>k. k \<noteq> None) ks)"

definition dict_wf :: "dictionary \<Rightarrow> bool" where
  "dict_wf d \<longleftrightarrow>
     0 < d_size d \<and> length (d_key d) = nat (d_size d) \<and> length (d_val d) = nat (d_size d)
   \<and> length (d_hash d) = nat (d_size d)
   \<and> d_n d = int (used_slots (d_key d))
   \<and> (\<forall>i < length (d_key d). \<forall>s. d_key d ! i = Some s \<longrightarrow> d_hash d ! i = dictionary_hash (Some s))
   \<and> slots_unique d"

text \<open>The entries in slot order, and the map they stand for.\<close>

definition dict_entries :: "dictionary \<Rightarrow> (string \<times> string option) list" where
  "dict_entries d =
     map (\<lambda>(k, v). (the k, v)) (filter (\<lambda>(k, v). k \<noteq> None) (zip (d_key d) (d_val d)))"

definition dict_map :: "dictionary \<Rightarrow> string \<Rightarrow> string option option" where
  "dict_map d = map_of (dict_entries d)"

lemma has_slot_unique: "dict_wf d \<Longrightarrow> has_slot d i key \<Longrightarrow> has_slot d j key \<Longrightarrow> i = j"
  unfolding dict_wf_def slots_unique_def by blast

lemma used_slots_update:
  "i < length ks \<Longrightarrow>
   used_slots (ks[i := x]) + (if ks ! i = None then 0 else 1)
   = used_slots ks + (if x = None then 0 else 1)"
proof (induction ks arbitrary: i)
  case Nil
  then show ?case by simp
next
  case (Cons k ks)
  show ?case
  proof (cases i)
    case 0
    then show ?thesis by (simp add: used_slots_def)
  next
    case (Suc j)
    then show ?thesis
      using Cons.IH [of j] Cons.prems by (auto simp: used_slots_def split: if_splits)
  qed
qed

lemma used_slots_full: "used_slots ks \<le> length ks"
  by (simp add: used_slots_def)

lemma used_slots_free: "used_slots ks < length ks \<Longrightarrow> \<exists>i < length ks. ks ! i = None"
  by (metis (mono_tags, lifting) filter_id_conv in_set_conv_nth less_irrefl used_slots_def)

lemma map_of_slots:
  assumes "length vs = length ks"
    and "\<forall>i j s. i < length ks \<and> j < length ks \<and> ks ! i = Some s \<and> ks ! j = Some s \<longrightarrow> i = j"
  shows "map_of (map (\<lambda>(k, v). (the k, v)) (filter (\<lambda>(k, v). k \<noteq> None) (zip ks vs))) key = Some v
    \<longleftrightarrow> (\<exists>i < length ks. ks ! i = Some key \<and> vs ! i = v)"
  using assms
proof (induction vs ks rule: list_induct2)
  case Nil
  then show ?case by simp
next
  case (Cons w vs k ks)
  have inj: "\<forall>i j s. i < length ks \<and> j < length ks \<and> ks ! i = Some s \<and> ks ! j = Some s \<longrightarrow> i = j"
    using Cons.prems by (metis Suc_less_eq Suc_inject length_Cons nth_Cons_Suc)
  have head: "k = Some key \<Longrightarrow> i < length ks \<Longrightarrow> ks ! i \<noteq> Some key" for i
    using Cons.prems [rule_format, of 0 "Suc i" key] by auto
  show ?case
    using Cons.IH [OF inj] head by (auto simp: less_Suc_eq_0_disj)
qed

text \<open>The scan finds the slot of a key.\<close>

lemma dict_scan_iff:
  assumes "length hs = length ks"
    and "\<forall>i < length ks. \<forall>s. ks ! i = Some s \<longrightarrow> hs ! i = dictionary_hash (Some s)"
  shows "dict_scan key (dictionary_hash (Some key)) ks hs j =
    (if \<exists>i < length ks. ks ! i = Some key
     then Some (j + (LEAST i. i < length ks \<and> ks ! i = Some key)) else None)"
  using assms
proof (induction ks arbitrary: hs j)
  case Nil
  then show ?case by simp
next
  case (Cons k ks)
  then obtain x xs where hs: "hs = x # xs" by (cases hs) auto
  have tail: "\<forall>i < length ks. \<forall>s. ks ! i = Some s \<longrightarrow> xs ! i = dictionary_hash (Some s)"
    using Cons.prems(2) hs by fastforce
  let ?P = "\<lambda>i. i < length (k # ks) \<and> (k # ks) ! i = Some key"
  show ?case
  proof (cases "k = Some key")
    case True
    then have "?P 0" by simp
    then have "(LEAST i. ?P i) = 0" by (rule Least_eq_0)
    moreover have "x = dictionary_hash (Some key)" using Cons.prems(2) hs True by fastforce
    ultimately show ?thesis using True hs by auto
  next
    case False
    have ex: "(\<exists>i < length (k # ks). (k # ks) ! i = Some key) \<longleftrightarrow> (\<exists>i < length ks. ks ! i = Some key)"
      using False by (auto simp: less_Suc_eq_0_disj)
    have least: "(LEAST i. ?P i) = Suc (LEAST i. i < length ks \<and> ks ! i = Some key)"
      if "\<exists>i < length ks. ks ! i = Some key"
    proof -
      from that obtain i where "?P (Suc i)" by auto
      moreover have "\<not> ?P 0" using False by simp
      ultimately have "(LEAST i. ?P i) = Suc (LEAST m. ?P (Suc m))" by (rule Least_Suc)
      then show ?thesis by simp
    qed
    have "dict_scan key (dictionary_hash (Some key)) (k # ks) hs j
        = dict_scan key (dictionary_hash (Some key)) ks xs (Suc j)"
      using False hs by (auto split: option.splits)
    then show ?thesis
      using Cons.IH [of xs "Suc j"] Cons.prems(1) hs tail ex least by simp
  qed
qed

lemma dict_find_Some:
  assumes wf: "dict_wf d"
  shows "dict_find d key = Some i \<longleftrightarrow> has_slot d i key"
proof -
  let ?P = "\<lambda>i. i < length (d_key d) \<and> d_key d ! i = Some key"
  have scan: "dict_find d key = (if \<exists>i. ?P i then Some (LEAST i. ?P i) else None)"
    using wf by (simp add: dict_find_def dict_scan_iff dict_wf_def)
  show ?thesis
  proof
    assume "dict_find d key = Some i"
    then show "has_slot d i key"
      using LeastI_ex [of ?P] by (auto simp: scan has_slot_def split: if_splits)
  next
    assume i: "has_slot d i key"
    then have ex: "\<exists>i. ?P i" by (auto simp: has_slot_def)
    then have "has_slot d (LEAST i. ?P i) key"
      using LeastI_ex [of ?P] by (auto simp: has_slot_def)
    with i wf have "(LEAST i. ?P i) = i" by (blast intro: has_slot_unique)
    with ex show "dict_find d key = Some i" by (simp add: scan)
  qed
qed

lemma dict_find_None: "dict_wf d \<Longrightarrow> dict_find d key = None \<longleftrightarrow> (\<nexists>i. has_slot d i key)"
  using dict_find_Some [of d key] by (metis option.collapse option.distinct(1))

lemma dict_map_Some:
  assumes "dict_wf d"
  shows "dict_map d key = Some v \<longleftrightarrow> (\<exists>i. has_slot d i key \<and> d_val d ! i = v)"
proof -
  have "dict_map d key = Some v \<longleftrightarrow> (\<exists>i < length (d_key d). d_key d ! i = Some key \<and> d_val d ! i = v)"
    unfolding dict_map_def dict_entries_def
    by (rule map_of_slots) (use assms in \<open>auto simp: dict_wf_def slots_unique_def has_slot_def\<close>)
  then show ?thesis by (auto simp: has_slot_def)
qed

lemma dict_map_find:
  assumes "dict_wf d"
  shows "dict_map d key = map_option (\<lambda>i. d_val d ! i) (dict_find d key)"
proof (cases "dict_find d key")
  case None
  then have "\<nexists>i. has_slot d i key" using assms by (simp add: dict_find_None)
  then have "dict_map d key = None"
    using dict_map_Some [OF assms] by (metis option.collapse)
  with None show ?thesis by simp
next
  case (Some i)
  then have "dict_map d key = Some (d_val d ! i)"
    using assms by (auto simp: dict_map_Some dict_find_Some)
  with Some show ?thesis by simp
qed

subsection \<open>Lookup, insertion and removal on the map\<close>

lemma dictionary_get_map:
  "dict_wf d \<Longrightarrow> dictionary_get d key def =
     (case dict_map d key of None \<Rightarrow> def | Some v \<Rightarrow> val_ptr v)"
  by (simp add: dictionary_get_def dict_map_find split: option.split)

lemma dict_wf_set_val: "dict_wf d \<Longrightarrow> dict_wf (d\<lparr>d_val := (d_val d)[i := v]\<rparr>)"
  by (simp add: dict_wf_def slots_unique_def has_slot_def)

lemma has_slot_val [simp]: "has_slot (d\<lparr>d_val := w\<rparr>) = has_slot d"
  by (simp add: has_slot_def fun_eq_iff)

lemma has_slot_val_length: "dict_wf d \<Longrightarrow> has_slot d i key \<Longrightarrow> i < length (d_val d)"
  by (simp add: dict_wf_def has_slot_def)

lemma dict_map_ext:
  assumes "\<And>k v. dict_map d k = Some v \<longleftrightarrow> m k = Some v"
  shows "dict_map d = m"
proof
  fix k show "dict_map d k = m k"
    using assms [of k] by (cases "m k") (metis option.exhaust, simp)
qed

lemma dict_map_set_val:
  assumes wf: "dict_wf d" and i: "has_slot d i key"
  shows "dict_map (d\<lparr>d_val := (d_val d)[i := v]\<rparr>) = (dict_map d)(key \<mapsto> v)"
proof (rule dict_map_ext)
  fix k w
  have len: "i < length (d_val d)" by (rule has_slot_val_length [OF wf i])
  have same: "j = i" if "has_slot d j key" for j by (rule has_slot_unique [OF wf that i])
  have other: "(d_val d)[i := v] ! j = d_val d ! j" if "has_slot d j k" "k \<noteq> key" for j
  proof -
    from that i have "i \<noteq> j" by (auto simp: has_slot_def)
    then show ?thesis by simp
  qed
  show "dict_map (d\<lparr>d_val := (d_val d)[i := v]\<rparr>) k = Some w \<longleftrightarrow> ((dict_map d)(key \<mapsto> v)) k = Some w"
  proof (cases "k = key")
    case True
    then show ?thesis
      using i len by (auto simp: dict_map_Some [OF dict_wf_set_val [OF wf]] dest: same)
  next
    case False
    then show ?thesis
      by (auto simp: dict_map_Some [OF dict_wf_set_val [OF wf]] dict_map_Some [OF wf] other)
  qed
qed

definition dict_fill :: "dictionary \<Rightarrow> nat \<Rightarrow> string \<Rightarrow> string option \<Rightarrow> dictionary" where
  "dict_fill d i key v =
     d\<lparr>d_key := (d_key d)[i := Some key], d_val := (d_val d)[i := v],
       d_hash := (d_hash d)[i := dictionary_hash (Some key)], d_n := d_n d + 1\<rparr>"

lemma has_slot_fill:
  "i < length (d_key d) \<Longrightarrow> d_key d ! i = None \<Longrightarrow>
   has_slot (dict_fill d i key v) j k \<longleftrightarrow> (j = i \<and> k = key) \<or> has_slot d j k"
  by (auto simp: has_slot_def dict_fill_def nth_list_update split: if_splits)

lemma dict_wf_fill:
  assumes wf: "dict_wf d" and i: "i < length (d_key d)" "d_key d ! i = None"
    and new: "\<nexists>j. has_slot d j key"
  shows "dict_wf (dict_fill d i key v)"
proof -
  have "used_slots ((d_key d)[i := Some key]) = used_slots (d_key d) + 1"
    using used_slots_update [OF i(1), of "Some key"] i(2) by simp
  moreover have "slots_unique (dict_fill d i key v)"
    unfolding slots_unique_def has_slot_fill [OF i]
    using new has_slot_unique [OF wf] by blast
  ultimately show ?thesis
    using wf i unfolding dict_wf_def by (auto simp: dict_fill_def nth_list_update split: if_splits)
qed

lemma dict_map_fill:
  assumes wf: "dict_wf d" and i: "i < length (d_key d)" "d_key d ! i = None"
    and new: "\<nexists>j. has_slot d j key"
  shows "dict_map (dict_fill d i key v) = (dict_map d)(key \<mapsto> v)"
proof (rule dict_map_ext)
  fix k w
  have vals: "d_val (dict_fill d i key v) = (d_val d)[i := v]" by (simp add: dict_fill_def)
  have len: "i < length (d_val d)" using wf i by (simp add: dict_wf_def)
  have other: "has_slot d j k \<Longrightarrow> j \<noteq> i" for j using i by (auto simp: has_slot_def)
  show "dict_map (dict_fill d i key v) k = Some w \<longleftrightarrow> ((dict_map d)(key \<mapsto> v)) k = Some w"
    using new len other
    by (auto simp: dict_map_Some [OF dict_wf_fill [OF wf i new]] dict_map_Some [OF wf] vals
        has_slot_fill [OF i] nth_list_update)
qed

text \<open>Growing doubles the arrays and changes no entry.\<close>

definition dict_grown :: "dictionary \<Rightarrow> dictionary" where
  "dict_grown d = snd (dictionary_grow True d)"

lemma dictionary_grow_True: "dictionary_grow True d = (0, dict_grown d)"
  by (simp add: dict_grown_def dictionary_grow_def)

lemma dict_grown_arrays:
  assumes "dict_wf d"
  shows "d_key (dict_grown d) = d_key d @ replicate (length (d_key d)) None"
    and "d_val (dict_grown d) = d_val d @ replicate (length (d_key d)) None"
    and "d_hash (dict_grown d) = d_hash d @ replicate (length (d_key d)) 0"
    and "d_n (dict_grown d) = d_n d" and "d_size (dict_grown d) = d_size d * 2"
  using assms by (auto simp: dict_grown_def dictionary_grow_def dict_wf_def)

lemma has_slot_grown: "dict_wf d \<Longrightarrow> has_slot (dict_grown d) i k \<longleftrightarrow> has_slot d i k"
  by (auto simp: has_slot_def dict_grown_arrays nth_append split: if_splits)

lemma dict_wf_grown:
  assumes "dict_wf d"
  shows "dict_wf (dict_grown d)"
proof -
  have "slots_unique (dict_grown d)"
    using assms by (auto simp: slots_unique_def has_slot_grown intro: has_slot_unique)
  then show ?thesis
    using assms unfolding dict_wf_def
    by (auto simp: dict_grown_arrays [OF assms] used_slots_def nth_append nat_mult_distrib
        split: if_splits)
qed

lemma dict_entries_grown: "dict_wf d \<Longrightarrow> dict_entries (dict_grown d) = dict_entries d"
  by (simp add: dict_entries_def dict_grown_arrays dict_wf_def)

lemma dict_map_grown: "dict_wf d \<Longrightarrow> dict_map (dict_grown d) = dict_map d"
  by (simp add: dict_map_def dict_entries_grown)

text \<open>The search for a free slot stops if there is one.\<close>

lemma free_slot_here: "i < length keys \<Longrightarrow> keys ! i = None \<Longrightarrow> free_slot keys sz i = Some (Ok i)"
  by (subst free_slot.simps) simp

lemma free_slot_next:
  "i < length keys \<Longrightarrow> keys ! i \<noteq> None \<Longrightarrow>
   free_slot keys (int (length keys)) i =
     free_slot keys (int (length keys)) (if Suc i = length keys then 0 else Suc i)"
  using free_slot.simps [of keys "int (length keys)" i] by auto

lemma free_slot_returns:
  assumes "j < length keys" and "keys ! j = None" and "i < length keys"
  shows "\<exists>r. free_slot keys (int (length keys)) i = Some (Ok r) \<and> r < length keys \<and> keys ! r = None"
  using assms(3)
proof (induction "if i \<le> j then j - i else j + length keys - i" arbitrary: i rule: less_induct)
  case less
  show ?case
  proof (cases "keys ! i = None")
    case True
    with less.prems show ?thesis by (auto simp: free_slot_here)
  next
    case False
    with assms(2) have "i \<noteq> j" by auto
    let ?i = "if Suc i = length keys then 0 else Suc i"
    have "?i < length keys" using less.prems by auto
    moreover have "(if ?i \<le> j then j - ?i else j + length keys - ?i)
        < (if i \<le> j then j - i else j + length keys - i)"
      using less.prems assms(1) \<open>i \<noteq> j\<close> by auto
    ultimately obtain r where
      "free_slot keys (int (length keys)) ?i = Some (Ok r)" "r < length keys" "keys ! r = None"
      using less.hyps by blast
    with False less.prems show ?thesis by (simp add: free_slot_next)
  qed
qed

text \<open>The fresh slot of a new key: the dictionary grows first when it is full.\<close>

definition dict_room :: "dictionary \<Rightarrow> dictionary" where
  "dict_room d = (if d_n d = d_size d then dict_grown d else d)"

lemma dict_room_facts:
  assumes wf: "dict_wf d"
  shows "dict_wf (dict_room d)" and "dict_map (dict_room d) = dict_map d"
    and "dict_entries (dict_room d) = dict_entries d" and "d_n (dict_room d) = d_n d"
    and "d_n d < d_size (dict_room d)" and "has_slot (dict_room d) = has_slot d"
proof -
  have "d_n d \<le> d_size d"
    using wf used_slots_full [of "d_key d"] by (auto simp: dict_wf_def)
  moreover have "0 < d_size d" using wf by (simp add: dict_wf_def)
  ultimately show "d_n d < d_size (dict_room d)"
    using wf by (auto simp: dict_room_def dict_grown_arrays)
qed (use wf in \<open>auto simp: dict_room_def dict_wf_grown dict_map_grown dict_entries_grown
      dict_grown_arrays has_slot_grown fun_eq_iff\<close>)

lemma dictionary_set_new:
  assumes wf: "dict_wf d" and new: "\<nexists>i. has_slot d i key" and small: "d_n d < 2147483647"
  obtains i where
    "dictionary_set all_alloc (Some d) (Some key) v = Ok (0, Some (dict_fill (dict_room d) i key v))"
    and "i < length (d_key (dict_room d))" and "d_key (dict_room d) ! i = None"
    and "free_slot (d_key (dict_room d)) (d_size (dict_room d)) (nat (d_n d)) = Some (Ok i)"
proof -
  let ?e = "dict_room d"
  note room = dict_room_facts [OF wf]
  have len: "int (length (d_key ?e)) = d_size ?e" and n: "d_n d = int (used_slots (d_key ?e))"
    using room(1,4) by (auto simp: dict_wf_def)
  then have lt: "used_slots (d_key ?e) < length (d_key ?e)" using room(5) by linarith
  then obtain j where "j < length (d_key ?e)" "d_key ?e ! j = None" using used_slots_free by blast
  moreover have "nat (d_n d) < length (d_key ?e)" using lt n by simp
  ultimately obtain i where i: "free_slot (d_key ?e) (d_size ?e) (nat (d_n d)) = Some (Ok i)"
    "i < length (d_key ?e)" "d_key ?e ! i = None"
    using free_slot_returns len by metis
  have none: "(if d_n d > 0 then dict_find d key else None) = None"
    using wf new by (simp add: dict_find_None)
  have grow: "(if d_n d = d_size d then dictionary_grow (grow_ok all_alloc) d else (0, d)) = (0, ?e)"
    by (simp add: dict_room_def dictionary_grow_True)
  have "int32 (d_n d + 1)" using small n by (simp add: int32_def)
  then have "dictionary_set all_alloc (Some d) (Some key) v = Ok (0, Some (dict_fill ?e i key v))"
    using i(1) room(4) unfolding dictionary_set_def prod.case option.case grow none
    by (simp add: checked32_def dict_fill_def)
  with i that show thesis by blast
qed

lemma dictionary_set_old:
  assumes wf: "dict_wf d" and i: "has_slot d i key"
  shows "dictionary_set all_alloc (Some d) (Some key) v =
    Ok (0, Some (d\<lparr>d_val := (d_val d)[i := v]\<rparr>))"
proof -
  have "Some key \<in> set (filter (\<lambda>k. k \<noteq> None) (d_key d))"
    using i nth_mem [of i "d_key d"] by (simp add: has_slot_def)
  then have "0 < used_slots (d_key d)"
    unfolding used_slots_def by (rule length_pos_if_in_set)
  then have "0 < d_n d" using wf by (simp add: dict_wf_def)
  moreover have "dict_find d key = Some i" using wf i by (simp add: dict_find_Some)
  ultimately show ?thesis by (simp add: dictionary_set_def)
qed

definition dict_small :: "dictionary \<Rightarrow> bool" where
  "dict_small d \<longleftrightarrow> d_n d < 2147483647"

lemma dictionary_set_map:
  assumes wf: "dict_wf d" and small: "dict_small d"
  obtains d' where "dictionary_set all_alloc (Some d) (Some key) v = Ok (0, Some d')"
    and "dict_wf d'" and "dict_map d' = (dict_map d)(key \<mapsto> v)"
proof (cases "\<exists>i. has_slot d i key")
  case True
  then obtain i where i: "has_slot d i key" ..
  from dictionary_set_old [OF wf i] dict_wf_set_val [OF wf] dict_map_set_val [OF wf i]
  show thesis by (rule that)
next
  case False
  note room = dict_room_facts [OF wf]
  have fresh: "\<nexists>i. has_slot (dict_room d) i key" using False room(6) by simp
  obtain i where i: "dictionary_set all_alloc (Some d) (Some key) v
      = Ok (0, Some (dict_fill (dict_room d) i key v))"
    "i < length (d_key (dict_room d))" "d_key (dict_room d) ! i = None"
    using dictionary_set_new [OF wf False] small unfolding dict_small_def by blast
  from i(1) dict_wf_fill [OF room(1) i(2,3) fresh]
    dict_map_fill [OF room(1) i(2,3) fresh, unfolded room(2)]
  show thesis by (rule that)
qed

definition dict_cleared :: "dictionary \<Rightarrow> nat \<Rightarrow> dictionary" where
  "dict_cleared d i = d\<lparr>d_key := (d_key d)[i := None], d_val := (d_val d)[i := None],
     d_hash := (d_hash d)[i := 0], d_n := d_n d - 1\<rparr>"

lemma dictionary_unset_cases:
  "dictionary_unset (Some d) (Some key) =
     (case dict_find d key of None \<Rightarrow> Some d | Some i \<Rightarrow> Some (dict_cleared d i))"
  by (simp add: dictionary_unset_def dict_cleared_def split: option.split)

lemma has_slot_cleared:
  "has_slot (dict_cleared d i) j k \<longleftrightarrow> j \<noteq> i \<and> has_slot d j k"
  by (cases "j = i") (auto simp: has_slot_def dict_cleared_def)

lemma dict_wf_cleared:
  assumes wf: "dict_wf d" and i: "has_slot d i key"
  shows "dict_wf (dict_cleared d i)"
proof -
  from i have len: "i < length (d_key d)" and key: "d_key d ! i = Some key"
    by (simp_all add: has_slot_def)
  have "used_slots ((d_key d)[i := None]) + 1 = used_slots (d_key d)"
    using used_slots_update [OF len, of None] key by simp
  moreover have "slots_unique (dict_cleared d i)"
    unfolding slots_unique_def has_slot_cleared using has_slot_unique [OF wf] by blast
  ultimately show ?thesis
    using wf len unfolding dict_wf_def
    by (auto simp: dict_cleared_def nth_list_update split: if_splits)
qed

lemma dict_map_cleared:
  assumes wf: "dict_wf d" and i: "has_slot d i key"
  shows "dict_map (dict_cleared d i) = (dict_map d)(key := None)"
proof (rule dict_map_ext)
  fix k w
  have vals: "d_val (dict_cleared d i) = (d_val d)[i := None]" by (simp add: dict_cleared_def)
  have eq: "(j \<noteq> i \<and> has_slot d j k \<and> (d_val d)[i := None] ! j = w)
      \<longleftrightarrow> (k \<noteq> key \<and> has_slot d j k \<and> d_val d ! j = w)" for j
    using i has_slot_unique [OF wf i, of j] by (cases "j = i") (auto simp: has_slot_def)
  show "dict_map (dict_cleared d i) k = Some w \<longleftrightarrow> ((dict_map d)(key := None)) k = Some w"
    unfolding dict_map_Some [OF dict_wf_cleared [OF wf i]] has_slot_cleared vals
    using eq by (auto simp: dict_map_Some [OF wf])
qed

lemma dictionary_unset_map:
  assumes wf: "dict_wf d"
  obtains d' where "dictionary_unset (Some d) (Some key) = Some d'" and "dict_wf d'"
    and "dict_map d' = (dict_map d)(key := None)"
proof (cases "dict_find d key")
  case None
  then have "dict_map d key = None" using wf by (simp add: dict_map_find)
  then have "dict_map d = (dict_map d)(key := None)" by auto
  with None wf that show thesis by (simp add: dictionary_unset_cases)
next
  case (Some i)
  then have "has_slot d i key" using wf by (simp add: dict_find_Some)
  with wf Some that show thesis
    by (simp add: dictionary_unset_cases dict_wf_cleared dict_map_cleared)
qed

lemma dict_wf_new: "dictionary_new True sz = Some d \<Longrightarrow> dict_wf d \<and> dict_map d = Map.empty"
  by (auto simp: dictionary_new_def DICTMINSZ_def Let_def dict_wf_def used_slots_def
      slots_unique_def has_slot_def dict_map_def dict_entries_def split: if_splits)

subsection \<open>Slot order\<close>

text \<open>
  Until a key is removed the used slots are the first \<open>n\<close>, and the entries stand in the order
  in which their keys were first set.
\<close>

definition dict_packed :: "dictionary \<Rightarrow> bool" where
  "dict_packed d \<longleftrightarrow> (\<forall>i < length (d_key d). d_key d ! i \<noteq> None \<longleftrightarrow> int i < d_n d)"

lemma filter_upt_less: "n \<le> m \<Longrightarrow> filter (\<lambda>i. i < n) [0 ..< m] = [0 ..< n]"
  by (induction m) (auto simp: le_Suc_eq)

lemma dict_entries_packed:
  assumes wf: "dict_wf d" and pk: "dict_packed d"
  shows "dict_entries d =
    zip (map the (take (nat (d_n d)) (d_key d))) (take (nat (d_n d)) (d_val d))"
proof -
  let ?n = "nat (d_n d)" and ?m = "length (d_key d)"
  have len: "length (d_val d) = ?m" and n: "?n \<le> ?m"
    using wf used_slots_full [of "d_key d"] by (simp_all add: dict_wf_def)
  have "zip (d_key d) (d_val d) = map (\<lambda>i. (d_key d ! i, d_val d ! i)) [0 ..< ?m]"
    by (rule nth_equalityI) (simp_all add: len)
  moreover have "filter (\<lambda>i. d_key d ! i \<noteq> None) [0 ..< ?m] = filter (\<lambda>i. i < ?n) [0 ..< ?m]"
    using pk by (intro filter_cong) (auto simp: dict_packed_def)
  ultimately have "dict_entries d = map (\<lambda>i. (the (d_key d ! i), d_val d ! i)) [0 ..< ?n]"
    by (simp add: dict_entries_def filter_map comp_def filter_upt_less [OF n])
  also have "\<dots> = zip (map the (take ?n (d_key d))) (take ?n (d_val d))"
    by (rule nth_equalityI) (use n len in simp_all)
  finally show ?thesis .
qed

lemma alist_update_fresh: "key \<notin> fst ` set al \<Longrightarrow> AList.update key v al = al @ [(key, v)]"
  by (induction al) auto

lemma alist_update_zip:
  "length vs = length ks \<Longrightarrow> distinct ks \<Longrightarrow> i < length ks \<Longrightarrow>
   AList.update (ks ! i) v (zip ks vs) = zip ks (vs[i := v])"
proof (induction vs ks arbitrary: i rule: list_induct2)
  case Nil
  then show ?case by simp
next
  case (Cons w vs k ks)
  then show ?case by (cases i) auto
qed

lemma packed_slot:
  "dict_packed d \<Longrightarrow> i < length (d_key d) \<Longrightarrow> (\<exists>k. d_key d ! i = Some k) \<longleftrightarrow> int i < d_n d"
  by (auto simp: dict_packed_def)

lemma packed_keys_distinct:
  assumes wf: "dict_wf d" and pk: "dict_packed d"
  shows "distinct (map the (take (nat (d_n d)) (d_key d)))"
proof -
  have n: "nat (d_n d) \<le> length (d_key d)"
    using wf used_slots_full [of "d_key d"] by (simp add: dict_wf_def)
  have "i = j" if "i < nat (d_n d)" "j < nat (d_n d)" "the (d_key d ! i) = the (d_key d ! j)" for i j
  proof -
    from that n have lt: "i < length (d_key d)" "j < length (d_key d)" by simp_all
    with that obtain k k' where kk: "d_key d ! i = Some k" "d_key d ! j = Some k'"
      using packed_slot [OF pk] by force
    with that(3) have "k' = k" by simp
    with lt kk have "has_slot d i k" "has_slot d j k" by (simp_all add: has_slot_def)
    then show "i = j" by (rule has_slot_unique [OF wf])
  qed
  then show ?thesis using n by (auto simp: distinct_conv_nth)
qed

lemma packed_room:
  assumes wf: "dict_wf d" and pk: "dict_packed d"
  shows "dict_packed (dict_room d)"
proof -
  have "d_n d = int (length (d_key d))" if "d_n d = d_size d"
    using that wf by (simp add: dict_wf_def)
  then show ?thesis
    using pk by (auto simp: dict_room_def dict_packed_def dict_grown_arrays [OF wf] nth_append)
qed

lemma packed_fresh_key:
  assumes wf: "dict_wf d" and pk: "dict_packed d" and "\<nexists>i. has_slot d i key"
  shows "key \<notin> fst ` set (dict_entries d)"
proof
  assume "key \<in> fst ` set (dict_entries d)"
  then obtain v where "map_of (dict_entries d) key = Some v"
    by (metis map_of_eq_None_iff option.exhaust)
  then show False using assms by (auto simp: dict_map_Some [OF wf] simp flip: dict_map_def)
qed

lemma packed_fill:
  assumes wf: "dict_wf d" and pk: "dict_packed d" and n: "nat (d_n d) < length (d_key d)"
    and key: "\<nexists>i. has_slot d i key"
  shows "dict_packed (dict_fill d (nat (d_n d)) key v)"
    and "dict_entries (dict_fill d (nat (d_n d)) key v) = dict_entries d @ [(key, v)]"
proof -
  let ?n = "nat (d_n d)" and ?f = "dict_fill d (nat (d_n d)) key v"
  have pos: "0 \<le> d_n d" using wf by (simp add: dict_wf_def)
  have none: "d_key d ! ?n = None" using packed_slot [OF pk n] pos by (cases "d_key d ! ?n") auto
  have len: "length (d_val d) = length (d_key d)" using wf by (simp add: dict_wf_def)
  have n': "nat (d_n ?f) = Suc ?n" using pos by (simp add: dict_fill_def)
  show pk': "dict_packed ?f"
    using pk pos n by (auto simp: dict_packed_def dict_fill_def nth_list_update) 
  have wf': "dict_wf ?f" by (rule dict_wf_fill [OF wf n none key])
  have "take (Suc ?n) (d_key ?f) = take ?n (d_key d) @ [Some key]"
    and "take (Suc ?n) (d_val ?f) = take ?n (d_val d) @ [v]"
    using n len by (simp_all add: dict_fill_def take_Suc_conv_app_nth)
  then show "dict_entries ?f = dict_entries d @ [(key, v)]"
    using n len by (simp add: dict_entries_packed [OF wf' pk'] dict_entries_packed [OF wf pk] n')
qed

lemma dictionary_set_packed:
  assumes wf: "dict_wf d" and pk: "dict_packed d" and small: "dict_small d"
  obtains d' where "dictionary_set all_alloc (Some d) (Some key) v = Ok (0, Some d')"
    and "dict_wf d'" and "dict_packed d'"
    and "dict_entries d' = AList.update key v (dict_entries d)"
proof (cases "\<exists>i. has_slot d i key")
  case True
  then obtain i where i: "has_slot d i key" ..
  let ?n = "nat (d_n d)" and ?d = "d\<lparr>d_val := (d_val d)[i := v]\<rparr>"
  have le: "?n \<le> length (d_key d)" and len: "length (d_val d) = length (d_key d)"
    using wf used_slots_full [of "d_key d"] by (simp_all add: dict_wf_def)
  have pk': "dict_packed ?d" using pk by (simp add: dict_packed_def)
  have "i < ?n" "map the (take ?n (d_key d)) ! i = key"
    using i packed_slot [OF pk, of i] le by (auto simp: has_slot_def)
  then have "dict_entries ?d = AList.update key v (dict_entries d)"
    using alist_update_zip [of "take ?n (d_val d)" "map the (take ?n (d_key d))" i v] le len
      packed_keys_distinct [OF wf pk]
    by (simp add: dict_entries_packed [OF wf pk] dict_entries_packed [OF dict_wf_set_val [OF wf] pk']
        take_update_swap)
  with dictionary_set_old [OF wf i] dict_wf_set_val [OF wf] pk' show thesis by (rule that)
next
  case False
  note room = dict_room_facts [OF wf] and pkr = packed_room [OF wf pk]
  have fresh: "\<nexists>i. has_slot (dict_room d) i key" using False room(6) by simp
  have lt: "nat (d_n d) < length (d_key (dict_room d))"
    using room(1,4,5) by (auto simp: dict_wf_def)
  then have "d_key (dict_room d) ! nat (d_n d) = None"
    using packed_slot [OF pkr lt] room(4) wf
    by (cases "d_key (dict_room d) ! nat (d_n d)") (auto simp: dict_wf_def)
  then have slot: "free_slot (d_key (dict_room d)) (d_size (dict_room d)) (nat (d_n d))
      = Some (Ok (nat (d_n d)))"
    by (rule free_slot_here [OF lt])
  obtain i where i: "dictionary_set all_alloc (Some d) (Some key) v
      = Ok (0, Some (dict_fill (dict_room d) i key v))"
    "i < length (d_key (dict_room d))" "d_key (dict_room d) ! i = None"
    "free_slot (d_key (dict_room d)) (d_size (dict_room d)) (nat (d_n d)) = Some (Ok i)"
    using dictionary_set_new [OF wf False] small unfolding dict_small_def by blast
  then have i_n: "i = nat (d_n (dict_room d))" using slot room(4) by simp
  have lt': "nat (d_n (dict_room d)) < length (d_key (dict_room d))" using lt room(4) by simp
  note fill = packed_fill [OF room(1) pkr lt' fresh, of v, folded i_n]
  have "dict_entries (dict_fill (dict_room d) i key v) = AList.update key v (dict_entries d)"
    using fill(2) room(3) packed_fresh_key [OF wf pk False] by (simp add: alist_update_fresh)
  with i(1) dict_wf_fill [OF room(1) i(2,3) fresh] fill(1) show thesis by (rule that)
qed

lemma packed_new: "dictionary_new True sz = Some d \<Longrightarrow> dict_packed d \<and> dict_small d \<and> dict_entries d = []"
  by (auto simp: dictionary_new_def DICTMINSZ_def Let_def dict_packed_def dict_small_def
      dict_entries_def split: if_splits)

subsection \<open>The interface of a string table\<close>

text \<open>
  What the ini parser and the configuration rely on: an invariant, a limit on the number of
  entries, and lookup laws for insertion and removal.
\<close>

locale string_table =
  fixes lookup :: "'d \<Rightarrow> string \<Rightarrow> string option option"
    and get :: "'d \<Rightarrow> string \<Rightarrow> cptr \<Rightarrow> cptr"
    and put :: "'d \<Rightarrow> string \<Rightarrow> string option \<Rightarrow> (unit, 'd) outcome"
    and del :: "'d \<Rightarrow> string \<Rightarrow> 'd"
    and ok :: "'d \<Rightarrow> bool"
    and room :: "'d \<Rightarrow> bool"
  assumes get_lookup:
      "ok d \<Longrightarrow> get d k def = (case lookup d k of None \<Rightarrow> def | Some v \<Rightarrow> val_ptr v)"
    and put_lookup:
      "ok d \<Longrightarrow> room d \<Longrightarrow> \<exists>d'. put d k v = Ok d' \<and> ok d' \<and> lookup d' = (lookup d)(k \<mapsto> v)"
    and del_lookup: "ok d \<Longrightarrow> ok (del d k) \<and> lookup (del d k) = (lookup d)(k := None)"
begin

lemma put_get:
  assumes "ok d" and "room d"
  shows "\<exists>d'. put d k v = Ok d' \<and> ok d' \<and> get d' k def = val_ptr v
    \<and> (\<forall>k'. k' \<noteq> k \<longrightarrow> get d' k' def = get d k' def)"
  using put_lookup [OF assms, of k v] assms(1) by (auto simp: get_lookup)

lemma del_get:
  assumes "ok d"
  shows "ok (del d k) \<and> get (del d k) k def = def
    \<and> (\<forall>k'. k' \<noteq> k \<longrightarrow> get (del d k) k' def = get d k' def)"
  using del_lookup [OF assms, of k] assms by (auto simp: get_lookup)

end

definition dict_put :: "dictionary \<Rightarrow> string \<Rightarrow> string option \<Rightarrow> (unit, dictionary) outcome" where
  "dict_put d k v = obind (dictionary_set all_alloc (Some d) (Some k) v)
     (\<lambda>(r, dp). case dp of None \<Rightarrow> Undef NullDeref | Some d' \<Rightarrow> if r = 0 then Ok d' else Fail ())"

definition dict_del :: "dictionary \<Rightarrow> string \<Rightarrow> dictionary" where
  "dict_del d k = (case dictionary_unset (Some d) (Some k) of None \<Rightarrow> d | Some d' \<Rightarrow> d')"

interpretation dict: string_table dict_map dictionary_get dict_put dict_del dict_wf dict_small
proof
  fix d k v
  assume "dict_wf d" and "dict_small d"
  then obtain d' where "dictionary_set all_alloc (Some d) (Some k) v = Ok (0, Some d')"
    "dict_wf d'" "dict_map d' = (dict_map d)(k \<mapsto> v)"
    by (rule dictionary_set_map)
  then show "\<exists>d'. dict_put d k v = Ok d' \<and> dict_wf d' \<and> dict_map d' = (dict_map d)(k \<mapsto> v)"
    by (simp add: dict_put_def)
next
  fix d k
  assume "dict_wf d"
  then obtain d' where "dictionary_unset (Some d) (Some k) = Some d'" "dict_wf d'"
    "dict_map d' = (dict_map d)(k := None)"
    by (rule dictionary_unset_map)
  then show "dict_wf (dict_del d k) \<and> dict_map (dict_del d k) = (dict_map d)(k := None)"
    by (simp add: dict_del_def)
qed (rule dictionary_get_map)

lemma dict_put_Ok:
  "dict_put d k v = Ok d' \<longleftrightarrow> dictionary_set all_alloc (Some d) (Some k) v = Ok (0, Some d')"
  by (auto simp: dict_put_def pmf_simps split: option.splits if_splits)

subsection \<open>Properties\<close>

definition dict_empty :: dictionary where
  "dict_empty = \<lparr>d_n = 0, d_size = 128, d_val = replicate 128 None,
     d_key = replicate 128 None, d_hash = replicate 128 0\<rparr>"

lemma dict_empty_new: "dictionary_new True 0 = Some dict_empty"
  by (simp add: dictionary_new_def dict_empty_def DICTMINSZ_def)

lemma dict_empty_wf [simp]: "dict_wf dict_empty" "dict_small dict_empty" "dict_packed dict_empty"
    "dict_entries dict_empty = []"
  using dict_wf_new [OF dict_empty_new] packed_new [OF dict_empty_new] by simp_all

text \<open>
  C6: Setting a key of a well-formed dictionary that has not reached \<open>INT_MAX\<close> entries
  returns 0 (in particular the search for a free slot stops), keeps the invariant, and a
  later get yields the new value for that key and the old answer for every other key.
\<close>

theorem dictionary_set_get:
  assumes "dict_wf d" and "d_n d < 2147483647"
  shows "\<exists>d'. dictionary_set all_alloc (Some d) (Some key) v = Ok (0, Some d') \<and> dict_wf d'
    \<and> dictionary_get d' key def = val_ptr v
    \<and> (\<forall>k. k \<noteq> key \<longrightarrow> dictionary_get d' k def = dictionary_get d k def)"
  using dict.put_get [of d key v def] assms by (simp add: dict_put_Ok dict_small_def)

theorem dictionary_set_get_witness:
  "\<exists>d'. dictionary_set all_alloc (Some dict_empty) (Some ''pm'') (Some ''static'') = Ok (0, Some d')
     \<and> dictionary_get d' ''pm'' NULLP = Str ''static''"
  using dictionary_set_get [of dict_empty "''pm''" "Some ''static''" NULLP] dict_empty_wf
  by (auto simp: val_ptr_def dict_small_def)

text \<open>
  C21: Removing a key keeps the invariant; afterwards the key is not found and every other key
  answers as before.
\<close>

theorem dictionary_unset_get:
  assumes "dict_wf d"
  shows "\<exists>d'. dictionary_unset (Some d) (Some key) = Some d' \<and> dict_wf d'
    \<and> dictionary_get d' key def = def
    \<and> (\<forall>k. k \<noteq> key \<longrightarrow> dictionary_get d' k def = dictionary_get d k def)"
  using dict.del_get [OF assms, of key def] dictionary_unset_map [OF assms, of key]
  by (force simp: dict_del_def)

theorem dictionary_unset_get_witness:
  "\<exists>d'. dictionary_unset (Some dict_empty) (Some ''pm'') = Some d' \<and> dict_wf d'
     \<and> dictionary_get d' ''pm'' INVALID_KEY = INVALID_KEY"
  using dictionary_unset_get [of dict_empty "''pm''" INVALID_KEY] by auto

text \<open>
  C13: As long as no key was removed, a set replaces the value of a known key in place and
  appends a new key at the end: the entries in slot order are those of an association list
  under update, also when the arrays had to grow.
\<close>

theorem dictionary_set_order:
  assumes "dict_wf d" and "dict_packed d" and "d_n d < 2147483647"
  shows "\<exists>d'. dictionary_set all_alloc (Some d) (Some key) v = Ok (0, Some d')
    \<and> dict_wf d' \<and> dict_packed d' \<and> dict_entries d' = AList.update key v (dict_entries d)"
  using dictionary_set_packed [OF assms(1,2), of key v] assms(3) by (auto simp: dict_small_def)

theorem dictionary_set_order_witness:
  "\<exists>d'. dictionary_set all_alloc (Some dict_empty) (Some ''www'') None = Ok (0, Some d')
     \<and> dict_entries d' = [(''www'', None)]"
  using dictionary_set_order [of dict_empty "''www''" None] dict_empty_wf
  by (auto simp: dict_small_def)

text \<open>
  C38: When an allocation fails while a new key is set, a failed growth is reported as \<open>-1\<close>
  and leaves the dictionary unchanged; but a failed copy of the key is not noticed: the call
  returns 0, counts an entry that no slot holds, and the invariant is lost.
\<close>

theorem dictionary_set_allocation_failure:
  assumes wf: "dict_wf d" and new: "dict_map d key = None" and "d_n d < 2147483647"
  shows "(d_n d = d_size d \<longrightarrow>
      dictionary_set (all_alloc\<lparr>grow_ok := False\<rparr>) (Some d) (Some key) v = Ok (- 1, Some d))
    \<and> (d_n d < d_size d \<longrightarrow>
      (\<exists>d'. dictionary_set (all_alloc\<lparr>dupkey_ok := False\<rparr>) (Some d) (Some key) v = Ok (0, Some d')
         \<and> d_n d' = d_n d + 1 \<and> d_key d' = d_key d \<and> \<not> dict_wf d'))"
proof -
  have find: "dict_find d key = None" using wf new by (simp add: dict_map_find)
  then have fresh: "\<nexists>i. has_slot d i key" using wf by (simp add: dict_find_None)
  have none: "(if d_n d > 0 then dict_find d key else None) = None" by (simp add: find)
  have full: "dictionary_set (all_alloc\<lparr>grow_ok := False\<rparr>) (Some d) (Some key) v = Ok (- 1, Some d)"
    if "d_n d = d_size d"
    using that unfolding dictionary_set_def prod.case option.case none
    by (simp add: dictionary_grow_def)
  have "\<exists>d'. dictionary_set (all_alloc\<lparr>dupkey_ok := False\<rparr>) (Some d) (Some key) v = Ok (0, Some d')
         \<and> d_n d' = d_n d + 1 \<and> d_key d' = d_key d \<and> \<not> dict_wf d'"
    if lt: "d_n d < d_size d"
  proof -
    have room: "dict_room d = d" using lt by (simp add: dict_room_def)
    obtain i where i: "i < length (d_key d)" "d_key d ! i = None"
      "free_slot (d_key d) (d_size d) (nat (d_n d)) = Some (Ok i)"
      using dictionary_set_new [OF wf fresh assms(3)] unfolding room by metis
    have "0 \<le> d_n d" using wf by (simp add: dict_wf_def)
    then have n32: "int32 (d_n d + 1)" using assms(3) by (simp add: int32_def)
    have same: "(d_key d)[i := None] = d_key d" using i by (metis list_update_id)
    let ?d = "d\<lparr>d_key := d_key d, d_val := (d_val d)[i := v],
      d_hash := (d_hash d)[i := dictionary_hash (Some key)], d_n := d_n d + 1\<rparr>"
    have "dictionary_set (all_alloc\<lparr>dupkey_ok := False\<rparr>) (Some d) (Some key) v = Ok (0, Some ?d)"
      using lt i n32 same unfolding dictionary_set_def prod.case option.case none
      by (simp add: checked32_def xstrdup_def [of False])
    moreover have "\<not> dict_wf ?d" using wf by (simp add: dict_wf_def)
    ultimately show ?thesis by auto
  qed
  with full show ?thesis by blast
qed

theorem dictionary_set_allocation_failure_witness:
  "\<exists>d'. dictionary_set (all_alloc\<lparr>dupkey_ok := False\<rparr>) (Some dict_empty) (Some ''pm'') None
       = Ok (0, Some d') \<and> \<not> dict_wf d'"
proof -
  have h: "dict_map dict_empty ''pm'' = None" "d_n dict_empty < 2147483647" "d_n dict_empty < d_size dict_empty"
    using dict_wf_new [OF dict_empty_new] by (simp_all add: dict_empty_def)
  show ?thesis
    using dictionary_set_allocation_failure [OF dict_empty_wf(1) h(1,2), of None] h(3) by auto
qed

end
