(* ===== verification/Pmf_Log.thy ===== *)
theory Pmf_Log
  imports Pmf_Types
begin

text \<open>
  The log of \<open>pmf_log.c\<close>: its state, the level names, and the line \<open>vplog\<close> builds in its
  1024-byte buffer and writes. The text \<open>strftime\<close> produces, the formatted message and the
  text of \<open>strerror\<close> are inputs.
\<close>

definition MAX_LINE_LENGTH :: nat where "MAX_LINE_LENGTH = 1024"
definition PLOG_LEVEL_MASK :: int where "PLOG_LEVEL_MASK = 7"
definition PLOG_HAVE_ERRNO :: int where "PLOG_HAVE_ERRNO = 256"
definition PLOG_SYSERROR :: int where "PLOG_SYSERROR = or PLOG_ERROR PLOG_HAVE_ERRNO"
definition STDERR_FILENO :: int where "STDERR_FILENO = 2"

record plog_state =
  plog_fd :: int
  plog_level :: int
  launched :: bool
  external_logger :: bool

definition plog_init :: plog_state where
  "plog_init = \<lparr>plog_fd = - 1, plog_level = PLOG_NOTICE, launched = False, external_logger = False\<rparr>"

text \<open>The entries of \<open>level_names\<close>; index 0 is a null pointer, the array has 6 elements.\<close>

definition level_name :: "int \<Rightarrow> (unit, string option) outcome" where
  "level_name l =
     (if l = PLOG_DEBUG then Ok (Some ''DEBUG'')
      else if l = PLOG_NOTICE then Ok (Some ''NOTICE'')
      else if l = PLOG_WARNING then Ok (Some ''WARNING'')
      else if l = PLOG_ERROR then Ok (Some ''ERROR'')
      else if l = PLOG_ALERT then Ok (Some ''ALERT'')
      else if l = 0 then Ok None
      else Undef OutOfBounds)"

definition plog_get_level_name :: "plog_state \<Rightarrow> int \<Rightarrow> (unit, string option) outcome" where
  "plog_get_level_name st lvl =
     (if lvl < 0 then level_name (plog_level st)
      else if lvl < PLOG_DEBUG \<or> lvl > PLOG_ALERT then Ok (Some ''unknown value'')
      else level_name lvl)"

definition plog_set_fd :: "int \<Rightarrow> plog_state \<Rightarrow> int \<times> plog_state" where
  "plog_set_fd new_fd st = (plog_fd st, st\<lparr>plog_fd := new_fd\<rparr>)"

definition plog_set_level :: "int \<Rightarrow> plog_state \<Rightarrow> int \<times> plog_state" where
  "plog_set_level new_value st =
     (if new_value < PLOG_DEBUG \<or> new_value > PLOG_ALERT then (plog_level st, st)
      else (plog_level st, st\<lparr>plog_level := new_value\<rparr>))"

subsection \<open>Building the line\<close>

text \<open>
  The text printed so far: its length is the code's \<open>len\<close>, its first \<open>cap - 1\<close> characters
  are what the buffer holds. A further \<open>snprintf(buf + len, cap - len, ...)\<close> with \<open>len\<close> beyond
  the buffer would wrap the size around.
\<close>

definition print_at :: "nat \<Rightarrow> string \<Rightarrow> string \<Rightarrow> (unit, string) outcome" where
  "print_at cap txt s = (if length txt > cap then Undef OutOfBounds else Ok (txt @ s))"

definition pad_zero :: "nat \<Rightarrow> string \<Rightarrow> string" where
  "pad_zero n s = replicate (n - length s) (CHR ''0'') @ s"

text \<open>\<open>stamp\<close> is what \<open>strftime\<close> stores.\<close>

definition plog_print_time :: "plog_state \<Rightarrow> string \<Rightarrow> int \<Rightarrow> nat \<Rightarrow> (unit, string) outcome" where
  "plog_print_time st stamp usec timebuf_len =
     obind (if plog_level st = PLOG_DEBUG
            then print_at timebuf_len stamp (''.'' @ pad_zero 6 (show_int usec))
            else Ok stamp)
       (\<lambda>t. print_at timebuf_len t ''] '')"

record log_call =
  lc_function :: string
  lc_line :: int
  lc_flags :: int
  lc_message :: string
  lc_stamp :: string
  lc_usec :: int
  lc_pid :: int
  lc_errno :: int
  lc_strerror :: string

text \<open>The level prefix of a line; \<open>%s\<close> with a null name is undefined.\<close>

definition log_prefix :: "plog_state \<Rightarrow> bool \<Rightarrow> log_call \<Rightarrow> (unit, string) outcome" where
  "log_prefix st is_child c =
     obind (level_name (and (lc_flags c) PLOG_LEVEL_MASK)) (\<lambda>name.
       case name of
         None \<Rightarrow> Undef NullDeref
       | Some nm \<Rightarrow>
           Ok (if plog_level st = PLOG_DEBUG then
                 if \<not> is_child
                 then nm @ '': pid '' @ show_int (lc_pid c) @ '', '' @ lc_function c @ ''(), line ''
                        @ show_int (lc_line c) @ '': ''
                 else nm @ '': '' @ lc_function c @ ''(), line '' @ show_int (lc_line c) @ '': ''
               else nm @ '': ''))"

text \<open>
  The cuts: \<open>memcpy(buf + buf_size - sizeof("..."), "...", 3)\<close> puts the dots at 1020 to 1022.
\<close>

definition cut_line :: "string \<Rightarrow> string" where
  "cut_line txt = take (MAX_LINE_LENGTH - 4) txt @ ''...''"

record log_output =
  lo_external :: "(int \<times> string) option"
  lo_writes :: "(int \<times> string) list"

definition vplog :: "plog_state \<Rightarrow> bool \<Rightarrow> log_call \<Rightarrow> (unit, log_output) outcome" where
  "vplog st is_child c =
     (let lvl = and (lc_flags c) PLOG_LEVEL_MASK;
          ext = (if external_logger st
                 then Some (lvl, if length (lc_message c) \<ge> MAX_LINE_LENGTH
                                 then cut_line (lc_message c) else lc_message c)
                 else None)
      in if lvl < plog_level st then Ok \<lparr>lo_external = ext, lo_writes = []\<rparr>
         else
           obind (if \<not> is_child then plog_print_time st (lc_stamp c) (lc_usec c) MAX_LINE_LENGTH
                  else Ok []) (\<lambda>t0.
           obind (log_prefix st is_child c) (\<lambda>prefix.
           obind (print_at MAX_LINE_LENGTH t0 prefix) (\<lambda>t1.
             let cut1 = length t1 > MAX_LINE_LENGTH - 1;
                 t2 = (if \<not> cut1 then t1 @ lc_message c else t1);
                 cut2 = (cut1 \<or> length t2 \<ge> MAX_LINE_LENGTH);
                 t3 = (if \<not> cut2 \<and> and (lc_flags c) PLOG_HAVE_ERRNO \<noteq> 0
                       then t2 @ '': '' @ lc_strerror c @ '' ('' @ show_int (lc_errno c) @ '')''
                       else t2);
                 cut3 = (cut2 \<or> length t3 \<ge> MAX_LINE_LENGTH);
                 line = (if cut3 then cut_line t3 else t3) @ [CHR 0x0A]
             in Ok \<lparr>lo_external = ext,
                    lo_writes = [(if plog_fd st > - 1 then plog_fd st else STDERR_FILENO, line)]
                      @ (if plog_fd st \<noteq> STDERR_FILENO \<and> plog_fd st \<noteq> - 1 \<and> \<not> launched st
                            \<and> lvl \<ge> PLOG_NOTICE
                         then [(STDERR_FILENO, line)] else [])\<rparr>))))"

definition plog_ex :: "plog_state \<Rightarrow> bool \<Rightarrow> log_call \<Rightarrow> (unit, log_output) outcome" where
  "plog_ex st is_child c = vplog st is_child c"

subsection \<open>Properties\<close>

text \<open>The text a line stands for, before any cut.\<close>

definition log_text :: "plog_state \<Rightarrow> bool \<Rightarrow> log_call \<Rightarrow> string \<Rightarrow> string" where
  "log_text st is_child c prefix =
     (if is_child then []
      else lc_stamp c @ (if plog_level st = PLOG_DEBUG then ''.'' @ pad_zero 6 (show_int (lc_usec c)) else [])
           @ ''] '')
     @ prefix @ lc_message c
     @ (if and (lc_flags c) PLOG_HAVE_ERRNO \<noteq> 0
        then '': '' @ lc_strerror c @ '' ('' @ show_int (lc_errno c) @ '')'' else [])"

definition log_time_fits :: "log_call \<Rightarrow> bool" where
  "log_time_fits c \<longleftrightarrow> length (lc_stamp c) < 900 \<and> length (show_int (lc_usec c)) < 100"

lemma cut_steps:
  assumes "cut1 \<longleftrightarrow> length t1 > MAX_LINE_LENGTH - 1"
    and "t2 = (if \<not> cut1 then t1 @ m else t1)"
    and "cut2 \<longleftrightarrow> cut1 \<or> length t2 \<ge> MAX_LINE_LENGTH"
    and "t3 = (if \<not> cut2 \<and> e then t2 @ err else t2)"
    and "cut3 \<longleftrightarrow> cut2 \<or> length t3 \<ge> MAX_LINE_LENGTH"
    and "t = t1 @ m @ (if e then err else [])"
  shows "(if cut3 then cut_line t3 else t3)
    = (if length t < MAX_LINE_LENGTH then t else take 1020 t @ ''...'')"
  using assms by (auto simp: cut_line_def MAX_LINE_LENGTH_def)


definition sample_call :: log_call where
  "sample_call = \<lparr>lc_function = ''pmf_init'', lc_line = 42, lc_flags = PLOG_SYSERROR,
     lc_message = ''failed'', lc_stamp = ''[19-Nov-2025 10:00:00'', lc_usec = 0, lc_pid = 1,
     lc_errno = 2, lc_strerror = ''No such file''\<rparr>"


end
