(* ===== verification/Pmf_Events.thy ===== *)
theory Pmf_Events
  imports Pmf_Types
begin

text \<open>
  The event loop's modules: the choice of a mechanism and the reservation of descriptors
  (\<open>pmf_events.c\<close>), and the two back ends (\<open>events/epoll.c\<close>, \<open>events/select.c\<close>). What the
  kernel answers (\<open>epoll_create\<close>, \<open>epoll_ctl\<close>, \<open>epoll_wait\<close>, \<open>select\<close>) is a parameter; a
  callback that runs is an entry of the trace of calls.
\<close>

definition PMF_EV_TIMEOUT :: int where "PMF_EV_TIMEOUT = 1"
definition PMF_EV_READ :: int where "PMF_EV_READ = 2"
definition PMF_EV_LEVEL_TRIGGER :: int where "PMF_EV_LEVEL_TRIGGER = 1"
definition PMF_EV_EDGE_TRIGGER :: int where "PMF_EV_EDGE_TRIGGER = 2"

text \<open>Callback and argument are names for what the pointers point to.\<close>

record pmf_event =
  ev_fd :: int
  ev_callback :: "nat option"
  ev_arg :: nat
  ev_flags :: int
  ev_type :: int

datatype callback_run = Callback nat int nat

definition pmf_event_proc :: "pmf_event option \<Rightarrow> callback_run list" where
  "pmf_event_proc evp =
     (case evp of None \<Rightarrow> []
      | Some ev \<Rightarrow> (case ev_callback ev of None \<Rightarrow> []
                     | Some cb \<Rightarrow> [Callback cb (ev_type ev) (ev_arg ev)]))"

subsection \<open>pmf_events.c\<close>

datatype event_backend = Epoll_backend | Select_backend

record event_module =
  em_name :: string
  em_support_edge_trigger :: int
  em_has_wait :: bool
  em_backend :: event_backend

definition epoll_module :: event_module where
  "epoll_module = \<lparr>em_name = ''epoll'', em_support_edge_trigger = 1, em_has_wait = True,
     em_backend = Epoll_backend\<rparr>"

definition select_module :: event_module where
  "select_module = \<lparr>em_name = ''select'', em_support_edge_trigger = 0, em_has_wait = True,
     em_backend = Select_backend\<rparr>"

definition pmf_event_epoll_module :: "event_module option" where
  "pmf_event_epoll_module = Some epoll_module"

definition pmf_event_select_module :: "event_module option" where
  "pmf_event_select_module = Some select_module"

definition pmf_event_support_edge_trigger :: "event_module option \<Rightarrow> int" where
  "pmf_event_support_edge_trigger m = (case m of None \<Rightarrow> 0 | Some em \<Rightarrow> em_support_edge_trigger em)"

text \<open>The result and the module pointer afterwards.\<close>

definition module_matches :: "event_module option \<Rightarrow> string option \<Rightarrow> bool" where
  "module_matches m mechanism =
     (case m of None \<Rightarrow> False
      | Some em \<Rightarrow> (case mechanism of None \<Rightarrow> True | Some n \<Rightarrow> strcasecmp_eq (em_name em) n))"

definition pmf_event_pre_init :: "string option \<Rightarrow> int \<times> event_module option" where
  "pmf_event_pre_init mechanism =
     (if module_matches pmf_event_epoll_module mechanism then (0, pmf_event_epoll_module)
      else if module_matches pmf_event_select_module mechanism then (0, pmf_event_select_module)
      else (- 1, pmf_event_select_module))"

fun count_fds :: "worker_pool list \<Rightarrow> int \<Rightarrow> (unit, int) outcome" where
  "count_fds [] mx = Ok mx"
| "count_fds (wp # wps) mx =
     (case wp_config wp of
        None \<Rightarrow> count_fds wps mx
      | Some c \<Rightarrow>
          if wpc_pm_max_children c > 0 then
            obind (checked32 (wpc_pm_max_children c * 2)) (\<lambda>two.
              obind (checked32 (mx + two)) (count_fds wps))
          else count_fds wps mx)"

text \<open>\<open>init\<close> is the module's initialiser; the result also says what it was called with.\<close>

definition pmf_event_init_main ::
  "(event_backend \<Rightarrow> int \<Rightarrow> int) \<Rightarrow> event_module option \<Rightarrow> worker_pool list \<Rightarrow>
   (unit, int \<times> int option) outcome" where
  "pmf_event_init_main init m pools =
     (case m of None \<Rightarrow> Ok (- 1, None)
      | Some em \<Rightarrow>
          if \<not> em_has_wait em then Ok (- 1, None)
          else obind (count_fds pools 1) (\<lambda>mx.
                 if init (em_backend em) mx < 0 then Ok (- 1, Some mx) else Ok (0, Some mx)))"

subsection \<open>events/select.c\<close>

text \<open>An \<open>fd_set\<close> is its 1024 bits; \<open>FD_ISSET\<close> and friends must get a bit of it.\<close>

definition FD_SETSIZE :: int where "FD_SETSIZE = 1024"

definition fd_isset :: "int \<Rightarrow> bool list \<Rightarrow> (unit, bool) outcome" where
  "fd_isset fd s = (if 0 \<le> fd \<and> fd < FD_SETSIZE then Ok (s ! nat fd) else Undef OutOfBounds)"

definition pmf_event_select_init :: "int \<Rightarrow> int \<times> bool list" where
  "pmf_event_select_init mx = (0, replicate 1024 False)"

definition pmf_event_select_add :: "pmf_event \<Rightarrow> bool list \<Rightarrow> (unit, int \<times> bool list) outcome" where
  "pmf_event_select_add ev fds =
     (if ev_fd ev \<ge> FD_SETSIZE then Ok (- 1, fds)
      else obind (fd_isset (ev_fd ev) fds) (\<lambda>b.
             if \<not> b then Ok (0, fds[nat (ev_fd ev) := True]) else Ok (0, fds)))"

definition pmf_event_select_remove :: "pmf_event \<Rightarrow> bool list \<Rightarrow> (unit, int \<times> bool list) outcome" where
  "pmf_event_select_remove ev fds =
     obind (fd_isset (ev_fd ev) fds) (\<lambda>b.
       if b then Ok (0, fds[nat (ev_fd ev) := False]) else Ok (0, fds))"

text \<open>
  The queue is the list of its \<open>ev\<close> pointers. \<open>sel fds sec usec\<close> is the answer of \<open>select\<close>:
  its result, whether \<open>errno\<close> is \<open>EINTR\<close>, and the set it leaves.
\<close>

fun dispatch_ready :: "bool list \<Rightarrow> pmf_event option list \<Rightarrow> (unit, callback_run list) outcome" where
  "dispatch_ready ready [] = Ok []"
| "dispatch_ready ready (None # q) = dispatch_ready ready q"
| "dispatch_ready ready (Some ev # q) =
     obind (fd_isset (ev_fd ev) ready) (\<lambda>b.
       obind (dispatch_ready ready q) (\<lambda>runs.
         Ok ((if b then pmf_event_proc (Some ev) else []) @ runs)))"

definition pmf_event_select_wait ::
  "(bool list \<Rightarrow> 64 word \<Rightarrow> 64 word \<Rightarrow> int \<times> bool \<times> bool list) \<Rightarrow> bool list \<Rightarrow>
   pmf_event option list \<Rightarrow> 64 word \<Rightarrow> (unit, int \<times> callback_run list) outcome" where
  "pmf_event_select_wait sel fds queue timeout =
     (case sel fds (timeout div 1000) ((timeout mod 1000) * 1000) of
        (ret, eintr, current_fds) \<Rightarrow>
          if ret = - 1 \<and> \<not> eintr then Ok (- 1, [])
          else if ret > 0
          then obind (dispatch_ready current_fds queue) (\<lambda>runs. Ok (ret, runs))
          else Ok (ret, []))"

subsection \<open>events/epoll.c\<close>

text \<open>
  The back end's static data; \<open>ep_buf\<close> is the event buffer as the list of the \<open>data.ptr\<close> of
  its entries (a null pointer is \<open>None\<close>).
\<close>

record epoll_state =
  ep_fd :: int
  ep_buf :: "pmf_event option list option"
  ep_buf_num :: int

definition epoll_start :: epoll_state where
  "epoll_start = \<lparr>ep_fd = - 1, ep_buf = None, ep_buf_num = 0\<rparr>"

text \<open>\<open>create\<close> is \<open>epoll_create\<close>, given \<open>max + 1\<close>.\<close>

definition pmf_event_epoll_init ::
  "(int \<Rightarrow> int) \<Rightarrow> bool \<Rightarrow> int \<Rightarrow> epoll_state \<Rightarrow> (unit, int \<times> epoll_state) outcome" where
  "pmf_event_epoll_init create malloc_ok mx st =
     (if mx < 1 then Ok (0, st)
      else obind (checked32 (mx + 1)) (\<lambda>n.
        let st = st\<lparr>ep_fd := create n\<rparr> in
        if ep_fd st < 0 then Ok (- 1, st)
        else if \<not> malloc_ok then Ok (- 1, st\<lparr>ep_buf := None\<rparr>)
        else Ok (0, st\<lparr>ep_buf := Some (replicate (nat mx) None), ep_buf_num := mx\<rparr>)))"

text \<open>The second component lists the descriptors handed to \<open>close\<close>.\<close>

definition pmf_event_epoll_clean :: "epoll_state \<Rightarrow> int \<times> int list \<times> epoll_state" where
  "pmf_event_epoll_clean st =
     (let st1 = (case ep_buf st of None \<Rightarrow> st | Some _ \<Rightarrow> st\<lparr>ep_buf := None, ep_buf_num := - 1\<rparr>)
      in if ep_fd st1 \<noteq> - 1 then (- 1, [ep_fd st1], st1\<lparr>ep_fd := - 1\<rparr>) else (- 1, [], st1))"

text \<open>
  \<open>wait\<close> answers \<open>epoll_wait\<close>: its result, whether \<open>errno\<close> is \<open>EINTR\<close>, and the events it
  stores at the front of the cleared buffer. It takes an \<open>int\<close>, so the timeout is narrowed.
\<close>

definition pmf_event_epoll_wait ::
  "(int \<Rightarrow> int \<Rightarrow> int \<Rightarrow> int \<times> bool \<times> pmf_event option list) \<Rightarrow> epoll_state \<Rightarrow> 64 word \<Rightarrow>
   (unit, int \<times> callback_run list) outcome" where
  "pmf_event_epoll_wait wait st timeout =
     (case ep_buf st of None \<Rightarrow> Undef NullDeref
      | Some buf \<Rightarrow>
          (case wait (ep_fd st) (ep_buf_num st) (to_int32 (uint timeout)) of
             (ret, eintr, evs) \<Rightarrow>
               let buf' = evs @ replicate (length buf - length evs) None in
               if ret = - 1 \<and> \<not> eintr then Ok (- 1, [])
               else if ret > int (length buf') then Undef OutOfBounds
               else Ok (ret, concat (map pmf_event_proc (take (nat ret) buf')))))"

definition EPOLLIN :: "32 word" where "EPOLLIN = 1"
definition EPOLLET :: "32 word" where "EPOLLET = 0x80000000"

datatype epoll_op = EPOLL_CTL_ADD | EPOLL_CTL_DEL

definition epoll_events :: "pmf_event \<Rightarrow> 32 word" where
  "epoll_events ev =
     (if and (ev_flags ev) PMF_EV_EDGE_TRIGGER \<noteq> 0 then or EPOLLIN EPOLLET else EPOLLIN)"

text \<open>\<open>ctl\<close> is \<open>epoll_ctl\<close> on a kernel state: the result and the state after.\<close>

definition pmf_event_epoll_add ::
  "('k \<Rightarrow> int \<Rightarrow> epoll_op \<Rightarrow> int \<Rightarrow> 32 word \<Rightarrow> pmf_event \<Rightarrow> int \<times> 'k) \<Rightarrow> pmf_event \<Rightarrow>
   epoll_state \<times> 'k \<Rightarrow> int \<times> (epoll_state \<times> 'k)" where
  "pmf_event_epoll_add ctl ev s =
     (case s of (st, k) \<Rightarrow>
        (case ctl k (ep_fd st) EPOLL_CTL_ADD (ev_fd ev) (epoll_events ev) ev of
           (r, k') \<Rightarrow> if r = - 1 then (- 1, (st, k')) else (0, (st, k'))))"

definition pmf_event_epoll_remove ::
  "('k \<Rightarrow> int \<Rightarrow> epoll_op \<Rightarrow> int \<Rightarrow> 32 word \<Rightarrow> pmf_event \<Rightarrow> int \<times> 'k) \<Rightarrow> pmf_event \<Rightarrow>
   epoll_state \<times> 'k \<Rightarrow> int \<times> (epoll_state \<times> 'k)" where
  "pmf_event_epoll_remove ctl ev s =
     (case s of (st, k) \<Rightarrow>
        (case ctl k (ep_fd st) EPOLL_CTL_DEL (ev_fd ev) (epoll_events ev) ev of
           (r, k') \<Rightarrow> if r = - 1 then (- 1, (st, k')) else (0, (st, k'))))"

subsection \<open>The contract of a back end\<close>

text \<open>
  Registering and unregistering keep a state in order and change the watched descriptors by
  exactly the one of the event.
\<close>

locale event_backend_ops =
  fixes add :: "pmf_event \<Rightarrow> 'b \<Rightarrow> (unit, int \<times> 'b) outcome"
    and remove :: "pmf_event \<Rightarrow> 'b \<Rightarrow> (unit, int \<times> 'b) outcome"
    and watched :: "'b \<Rightarrow> int \<Rightarrow> bool"
    and ok :: "'b \<Rightarrow> bool"
    and fits :: "pmf_event \<Rightarrow> bool"
  assumes add_watched: "ok s \<Longrightarrow> fits ev \<Longrightarrow>
      \<exists>s'. add ev s = Ok (0, s') \<and> ok s' \<and> watched s' = (watched s)(ev_fd ev := True)"
    and remove_watched: "ok s \<Longrightarrow> fits ev \<Longrightarrow>
      \<exists>s'. remove ev s = Ok (0, s') \<and> ok s' \<and> watched s' = (watched s)(ev_fd ev := False)"
begin

lemma add_remove:
  assumes "ok s" and "fits ev"
  shows "\<exists>s1 s2. add ev s = Ok (0, s1) \<and> remove ev s1 = Ok (0, s2) \<and> ok s2
    \<and> watched s2 = (watched s)(ev_fd ev := False)"
proof -
  obtain s1 where s1: "add ev s = Ok (0, s1)" "ok s1" "watched s1 = (watched s)(ev_fd ev := True)"
    using add_watched [OF assms] by blast
  then obtain s2 where "remove ev s1 = Ok (0, s2)" "ok s2" "watched s2 = (watched s1)(ev_fd ev := False)"
    using remove_watched [OF s1(2) assms(2)] by blast
  with s1 show ?thesis by (metis fun_upd_upd)
qed

lemma add_all:
  assumes "ok s" and "\<forall>ev \<in> set evs. fits ev"
  shows "\<exists>s'. fold (\<lambda>ev m. obind m (\<lambda>(r, s). add ev s)) evs (Ok (0, s)) = Ok (0, s') \<and> ok s'
    \<and> (\<forall>fd. watched s' fd \<longleftrightarrow> watched s fd \<or> fd \<in> ev_fd ` set evs)"
  using assms
proof (induction evs arbitrary: s)
  case (Cons ev evs)
  obtain s1 where s1: "add ev s = Ok (0, s1)" "ok s1" "watched s1 = (watched s)(ev_fd ev := True)"
    using add_watched [of s ev] Cons.prems by auto
  obtain s' where "fold (\<lambda>ev m. obind m (\<lambda>(r, s). add ev s)) evs (Ok (0, s1)) = Ok (0, s')" "ok s'"
    "\<forall>fd. watched s' fd \<longleftrightarrow> watched s1 fd \<or> fd \<in> ev_fd ` set evs"
    using Cons.IH [OF s1(2)] Cons.prems(2) by auto
  then show ?case using s1 by auto
qed simp

end

definition fds_ok :: "bool list \<Rightarrow> bool" where
  "fds_ok fds \<longleftrightarrow> length fds = 1024"

definition fd_watched :: "bool list \<Rightarrow> int \<Rightarrow> bool" where
  "fd_watched fds fd \<longleftrightarrow> 0 \<le> fd \<and> fd < FD_SETSIZE \<and> fds ! nat fd"

definition fd_fits :: "pmf_event \<Rightarrow> bool" where
  "fd_fits ev \<longleftrightarrow> 0 \<le> ev_fd ev \<and> ev_fd ev < FD_SETSIZE"

lemma fd_watched_update:
  assumes "fds_ok fds" and "fd_fits ev"
  shows "fd_watched (fds[nat (ev_fd ev) := b]) = (fd_watched fds)(ev_fd ev := b)"
proof
  fix fd
  show "fd_watched (fds[nat (ev_fd ev) := b]) fd = ((fd_watched fds)(ev_fd ev := b)) fd"
    using assms
    by (cases "fd = ev_fd ev")
      (auto simp: fd_watched_def fds_ok_def fd_fits_def FD_SETSIZE_def nth_list_update)
qed

interpretation sel: event_backend_ops pmf_event_select_add pmf_event_select_remove
    fd_watched fds_ok fd_fits
proof
  fix fds ev
  assume fds: "fds_ok fds" and ev: "fd_fits ev"
  note upd = fd_watched_update [OF fds ev]
  have same: "fd_watched fds = (fd_watched fds)(ev_fd ev := fds ! nat (ev_fd ev))"
    using ev by (auto simp: fun_eq_iff fd_watched_def fd_fits_def)
  show "\<exists>s'. pmf_event_select_add ev fds = Ok (0, s') \<and> fds_ok s'
      \<and> fd_watched s' = (fd_watched fds)(ev_fd ev := True)"
    using fds ev upd [of True] same
    by (auto simp: pmf_event_select_add_def fd_isset_def fd_fits_def fds_ok_def)
  show "\<exists>s'. pmf_event_select_remove ev fds = Ok (0, s') \<and> fds_ok s'
      \<and> fd_watched s' = (fd_watched fds)(ev_fd ev := False)"
    using fds ev upd [of False] same
    by (auto simp: pmf_event_select_remove_def fd_isset_def fd_fits_def fds_ok_def)
qed

subsection \<open>Properties\<close>

definition pool_fds :: "worker_pool \<Rightarrow> int" where
  "pool_fds wp = (case wp_config wp of None \<Rightarrow> 0 | Some c \<Rightarrow> 2 * max 0 (wpc_pm_max_children c))"

lemma pool_fds_nonneg: "0 \<le> pool_fds wp"
  by (simp add: pool_fds_def split: option.split)

lemma sum_pool_fds_nonneg: "0 \<le> sum_list (map pool_fds wps)"
  by (induction wps) (simp_all add: pool_fds_nonneg add_nonneg_nonneg)

lemma count_fds_sum:
  assumes "0 \<le> mx" and "int32 mx"
  shows "count_fds wps mx = (let t = mx + sum_list (map pool_fds wps) in
    if int32 t then Ok t else Undef SignedOverflow)"
  using assms
proof (induction wps arbitrary: mx)
  case (Cons wp wps)
  have nn: "0 \<le> sum_list (map pool_fds wps)" by (rule sum_pool_fds_nonneg)
  show ?case
  proof (cases "wp_config wp")
    case None
    then show ?thesis using Cons by (simp add: pool_fds_def)
  next
    case (Some c)
    show ?thesis
    proof (cases "0 < wpc_pm_max_children c")
      case False
      then show ?thesis using Cons Some by (simp add: pool_fds_def max_def)
    next
      case True
      then have p: "pool_fds wp = wpc_pm_max_children c * 2" by (simp add: pool_fds_def Some max_def)
      show ?thesis
      proof (cases "int32 (wpc_pm_max_children c * 2) \<and> int32 (mx + wpc_pm_max_children c * 2)")
        case ok: True
        then show ?thesis
          using Cons.IH [of "mx + wpc_pm_max_children c * 2"] Cons.prems True Some p
          by (simp add: checked32_def add.assoc)
      next
        case False
        then show ?thesis
          using True Some p nn Cons.prems
          by (auto simp: checked32_def Let_def int32_def)
      qed
    qed
  qed
qed (simp add: Let_def)

text \<open>
  C33: After the mechanism was chosen, the main initialisation reserves one descriptor for the
  master's signal pipe and two per child of every configured pool, and returns what the
  module's initialiser answers; when that number exceeds \<open>INT_MAX\<close> the addition overflows.
\<close>

theorem event_init_reserves:
  assumes "snd (pmf_event_pre_init mechanism) = Some em"
  shows "pmf_event_init_main init (Some em) pools =
    (let n = 1 + sum_list (map pool_fds pools) in
     if n < 2147483648 then Ok (if init (em_backend em) n < 0 then - 1 else 0, Some n)
     else Undef SignedOverflow)"
proof -
  have "em_has_wait em"
    using assms by (auto simp: pmf_event_pre_init_def pmf_event_epoll_module_def
        pmf_event_select_module_def epoll_module_def select_module_def split: if_splits)
  moreover have "count_fds pools 1 = (let n = 1 + sum_list (map pool_fds pools) in
     if n < 2147483648 then Ok n else Undef SignedOverflow)"
    using count_fds_sum [of 1 pools] sum_pool_fds_nonneg [of pools]
    by (simp add: Let_def int32_def)
  ultimately show ?thesis by (simp add: pmf_event_init_main_def Let_def)
qed

theorem event_init_reserves_witness:
  "pmf_event_init_main (\<lambda>b n. if n < 100 then 0 else - 1) (Some select_module)
     [sample_pool, sample_pool\<lparr>wp_config := None\<rparr>] = Ok (0, Some 11)"
proof -
  have "strcasecmp_eq ''select'' ''SELECT''" "\<not> strcasecmp_eq ''epoll'' ''SELECT''" by code_simp+
  then have "snd (pmf_event_pre_init (Some ''SELECT'')) = Some select_module"
    by (simp add: pmf_event_pre_init_def module_matches_def pmf_event_epoll_module_def
        pmf_event_select_module_def epoll_module_def select_module_def)
  from event_init_reserves [OF this] show ?thesis
    by (simp add: pool_fds_def sample_pool_defs)
qed

lemma dispatch_ready_filter:
  assumes "\<forall>ev. Some ev \<in> set q \<longrightarrow> fd_fits ev"
  shows "dispatch_ready ready q
    = Ok (concat (map pmf_event_proc (filter (\<lambda>e. case e of None \<Rightarrow> False
        | Some ev \<Rightarrow> ready ! nat (ev_fd ev)) q)))"
  using assms
proof (induction q)
  case (Cons e q)
  then show ?case by (cases e) (auto simp: fd_isset_def fd_fits_def)
qed simp

text \<open>
  C34: With the \<open>select\<close> back end, once a set of events is registered, a wait runs the
  callbacks of exactly those queued events whose descriptor \<open>select\<close> reports, each once and
  in queue order; as \<open>select\<close> only reports descriptors it was given, each of them belongs to
  a registered event.
\<close>

theorem select_wait_dispatches:
  assumes "\<forall>ev \<in> set evs. fd_fits ev" and q: "\<forall>ev. Some ev \<in> set q \<longrightarrow> fd_fits ev"
    and sel: "\<And>fds s u. case sel fds s u of (ret, eintr, ready) \<Rightarrow>
        \<forall>fd. fd_watched ready fd \<longrightarrow> fd_watched fds fd"
  shows "\<exists>fds. fold (\<lambda>ev m. obind m (\<lambda>(r, s). pmf_event_select_add ev s)) evs
        (Ok (pmf_event_select_init mx)) = Ok (0, fds)
    \<and> (case sel fds (timeout div 1000) ((timeout mod 1000) * 1000) of (ret, eintr, ready) \<Rightarrow>
        ret > 0 \<longrightarrow> pmf_event_select_wait sel fds q timeout
            = Ok (ret, concat (map pmf_event_proc (filter (\<lambda>e. case e of None \<Rightarrow> False
                 | Some ev \<Rightarrow> ready ! nat (ev_fd ev)) q)))
        \<and> (\<forall>ev. Some ev \<in> set q \<and> ready ! nat (ev_fd ev) \<longrightarrow> ev_fd ev \<in> ev_fd ` set evs))"
proof -
  let ?start = "replicate 1024 False"
  have "fds_ok ?start" by (simp add: fds_ok_def)
  from sel.add_all [OF this assms(1)] obtain fds where fds:
    "fold (\<lambda>ev m. obind m (\<lambda>(r, s). pmf_event_select_add ev s)) evs (Ok (0, ?start)) = Ok (0, fds)"
    "\<forall>fd. fd_watched fds fd \<longleftrightarrow> fd_watched ?start fd \<or> fd \<in> ev_fd ` set evs"
    by auto
  have start: "\<not> fd_watched ?start fd" for fd by (simp add: fd_watched_def FD_SETSIZE_def nat_less_iff)
  obtain ret eintr ready where s: "sel fds (timeout div 1000) ((timeout mod 1000) * 1000) = (ret, eintr, ready)"
    by (cases "sel fds (timeout div 1000) ((timeout mod 1000) * 1000)") auto
  have "ev_fd ev \<in> ev_fd ` set evs" if "Some ev \<in> set q" "ready ! nat (ev_fd ev)" for ev
  proof -
    have "fd_watched ready (ev_fd ev)" using q that by (auto simp: fd_watched_def fd_fits_def)
    then show ?thesis using sel [of fds "timeout div 1000" "(timeout mod 1000) * 1000"] s fds(2) start by auto
  qed
  then show ?thesis
    using fds(1) s dispatch_ready_filter [OF q, of ready]
    by (auto simp: pmf_event_select_init_def pmf_event_select_wait_def)
qed

definition sample_event :: "int \<Rightarrow> pmf_event" where
  "sample_event fd = \<lparr>ev_fd = fd, ev_callback = Some 7, ev_arg = 1, ev_flags = 0, ev_type = PMF_EV_READ\<rparr>"

theorem select_wait_dispatches_witness:
  "\<exists>fds. pmf_event_select_wait (\<lambda>fds s u. (1, False, fds)) fds
     [None, Some (sample_event 5), Some (sample_event 6)] 10000 = Ok (1, [Callback 7 2 1])"
proof -
  let ?q = "[None, Some (sample_event 5), Some (sample_event 6)]" and ?sel = "\<lambda>fds s u. (1, False, fds)"
  have fits: "\<forall>ev \<in> set [sample_event 5]. fd_fits ev" "\<forall>ev. Some ev \<in> set ?q \<longrightarrow> fd_fits ev"
    by (auto simp: sample_event_def fd_fits_def FD_SETSIZE_def)
  have add: "fold (\<lambda>ev m. obind m (\<lambda>(r, s). pmf_event_select_add ev s)) [sample_event 5]
      (Ok (pmf_event_select_init 0)) = Ok (0, (replicate 1024 False)[5 := True])"
    by (simp add: pmf_event_select_init_def pmf_event_select_add_def fd_isset_def sample_event_def FD_SETSIZE_def)
  show ?thesis
    using select_wait_dispatches [OF fits, of ?sel 0 10000]
    unfolding add
    by (auto simp: sample_event_def pmf_event_proc_def PMF_EV_READ_def nth_list_update)
qed

end
