(* ===== verification/Pmf_Iniparser.thy ===== *)
theory Pmf_Iniparser
  imports Pmf_Dictionary
begin

text \<open>
  The ini parser of \<open>lib/iniparser/iniparser.c\<close> on top of the dictionary: the accessors, the
  line parser with its five \<open>sscanf\<close> formats, the loader with its line buffer and
  continuation lines, and the dump functions. A file is the string of its characters; an
  output stream is the string written to it.
\<close>

definition ASCIILINESZ :: nat where "ASCIILINESZ = 1024"

subsection \<open>String helpers\<close>

definition strlwc :: "string option \<Rightarrow> nat \<Rightarrow> string option" where
  "strlwc s len =
     (case s of None \<Rightarrow> None
      | Some t \<Rightarrow> if len = 0 then None else Some (lowercase (take (len - 1) t)))"

definition rstrip :: "string \<Rightarrow> string" where
  "rstrip s = rev (dropWhile c_isspace (rev s))"

text \<open>The string left in the buffer; the result of the call is its length.\<close>

definition strstrip :: "string \<Rightarrow> string" where
  "strstrip s = rstrip (dropWhile c_isspace s)"

subsection \<open>Sections\<close>

definition is_section_key :: "string option \<Rightarrow> bool" where
  "is_section_key k = (case k of None \<Rightarrow> False | Some s \<Rightarrow> CHR '':'' \<notin> set s)"

definition iniparser_getnsec :: "dictionary option \<Rightarrow> int" where
  "iniparser_getnsec dp =
     (case dp of None \<Rightarrow> - 1
      | Some d \<Rightarrow> int (length (filter is_section_key (d_key d))))"

text \<open>The loop over the slots; \<open>found\<close> is \<open>foundsec\<close>.\<close>

fun secname_loop :: "string option list \<Rightarrow> int \<Rightarrow> int \<Rightarrow> string option" where
  "secname_loop [] found n = None"
| "secname_loop (k # ks) found n =
     (if is_section_key k then
        if found + 1 > n then k else secname_loop ks (found + 1) n
      else secname_loop ks found n)"

definition iniparser_getsecname :: "dictionary option \<Rightarrow> int \<Rightarrow> string option" where
  "iniparser_getsecname dp n =
     (case dp of None \<Rightarrow> None
      | Some d \<Rightarrow> if n < 0 then None else secname_loop (d_key d) 0 n)"

subsection \<open>Accessors\<close>

definition iniparser_getstring :: "dictionary option \<Rightarrow> string option \<Rightarrow> cptr \<Rightarrow> cptr" where
  "iniparser_getstring dp key def =
     (case (dp, key) of
        (Some d, Some k) \<Rightarrow>
          (case strlwc (Some k) (ASCIILINESZ + 1) of
             Some lc \<Rightarrow> dictionary_get d lc def | None \<Rightarrow> def)
      | _ \<Rightarrow> def)"

text \<open>\<open>strtol(s, 0, 0)\<close>: base 16 after \<open>0x\<close>, base 8 after \<open>0\<close>, else base 10.\<close>

definition hex_digit :: "char \<Rightarrow> nat" where
  "hex_digit c = (let n = of_char (c_tolower c) :: nat in
     if 48 \<le> n \<and> n \<le> 57 then n - 48 else if 97 \<le> n \<and> n \<le> 122 then n - 87 else 99)"

fun base_val :: "nat \<Rightarrow> nat \<Rightarrow> string \<Rightarrow> nat" where
  "base_val b acc [] = acc"
| "base_val b acc (c # cs) =
     (if hex_digit c < b then base_val b (b * acc + hex_digit c) cs else acc)"

definition strtol_mag :: "string \<Rightarrow> nat" where
  "strtol_mag t =
     (if length t \<ge> 3 \<and> t ! 0 = CHR ''0'' \<and> c_tolower (t ! 1) = CHR ''x'' \<and> hex_digit (t ! 2) < 16
      then base_val 16 0 (drop 2 t)
      else if t \<noteq> [] \<and> hd t = CHR ''0'' then base_val 8 0 t
      else base_val 10 0 t)"

definition strtol0 :: "string \<Rightarrow> int" where
  "strtol0 s =
     (let t = dropWhile c_isspace s in
      if t \<noteq> [] \<and> hd t = CHR ''-'' then max (- (2 ^ 63)) (- int (strtol_mag (tl t)))
      else if t \<noteq> [] \<and> hd t = CHR ''+'' then min (2 ^ 63 - 1) (int (strtol_mag (tl t)))
      else min (2 ^ 63 - 1) (int (strtol_mag t)))"

definition iniparser_getlongint ::
  "dictionary option \<Rightarrow> string option \<Rightarrow> int \<Rightarrow> (unit, int) outcome" where
  "iniparser_getlongint dp key notfound =
     (case iniparser_getstring dp key INVALID_KEY of
        INVALID_KEY \<Rightarrow> Ok notfound
      | NULLP \<Rightarrow> Undef NullDeref
      | Str s \<Rightarrow> Ok (strtol0 s))"

definition iniparser_getint ::
  "dictionary option \<Rightarrow> string option \<Rightarrow> int \<Rightarrow> (unit, int) outcome" where
  "iniparser_getint dp key notfound =
     obind (iniparser_getlongint dp key notfound) (\<lambda>n. Ok (to_int32 n))"

text \<open>\<open>atof\<close> of the C library stays a parameter.\<close>

definition iniparser_getdouble ::
  "(string \<Rightarrow> 'a) \<Rightarrow> dictionary option \<Rightarrow> string option \<Rightarrow> 'a \<Rightarrow> (unit, 'a) outcome" where
  "iniparser_getdouble atof dp key notfound =
     (case iniparser_getstring dp key INVALID_KEY of
        INVALID_KEY \<Rightarrow> Ok notfound
      | NULLP \<Rightarrow> Undef NullDeref
      | Str s \<Rightarrow> Ok (atof s))"

definition iniparser_getboolean ::
  "dictionary option \<Rightarrow> string option \<Rightarrow> int \<Rightarrow> (unit, int) outcome" where
  "iniparser_getboolean dp key notfound =
     (case iniparser_getstring dp key INVALID_KEY of
        INVALID_KEY \<Rightarrow> Ok notfound
      | NULLP \<Rightarrow> Undef NullDeref
      | Str c \<Rightarrow>
          if c \<noteq> [] \<and> hd c \<in> set ''yY1tT'' then Ok 1
          else if c \<noteq> [] \<and> hd c \<in> set ''nN0fF'' then Ok 0
          else Ok notfound)"

definition iniparser_find_entry :: "dictionary option \<Rightarrow> string option \<Rightarrow> bool" where
  "iniparser_find_entry ini entry = (iniparser_getstring ini entry INVALID_KEY \<noteq> INVALID_KEY)"

definition iniparser_set ::
  "dict_alloc \<Rightarrow> dictionary option \<Rightarrow> string option \<Rightarrow> string option \<Rightarrow>
   (unit, int \<times> dictionary option) outcome" where
  "iniparser_set al ini entry v = dictionary_set al ini (strlwc entry (ASCIILINESZ + 1)) v"

definition iniparser_unset :: "dictionary option \<Rightarrow> string option \<Rightarrow> dictionary option" where
  "iniparser_unset ini entry = dictionary_unset ini (strlwc entry (ASCIILINESZ + 1))"

definition iniparser_freedict :: "dictionary option \<Rightarrow> string list" where
  "iniparser_freedict d = dictionary_del d"

text \<open>The error callback: the one printing on \<open>stderr\<close>, or the function with that number.\<close>

datatype error_callback = Default_error_callback | Error_callback nat

definition iniparser_set_error_callback :: "nat option \<Rightarrow> error_callback" where
  "iniparser_set_error_callback errback =
     (case errback of Some f \<Rightarrow> Error_callback f | None \<Rightarrow> Default_error_callback)"

subsection \<open>Keys of a section\<close>

definition starts_with :: "string \<Rightarrow> string \<Rightarrow> bool" where
  "starts_with p s \<longleftrightarrow> take (length p) s = p"

definition section_keys :: "string \<Rightarrow> string option list \<Rightarrow> string list" where
  "section_keys p ks = map the (filter (\<lambda>k. k \<noteq> None \<and> starts_with p (the k)) ks)"

text \<open>
  \<open>keym\<close> has 1025 bytes; the colon is stored at index \<open>strlen(s)\<close>. The comparison reads
  exactly the \<open>seclen + 1\<close> characters stored.
\<close>

definition iniparser_getsecnkeys :: "dictionary option \<Rightarrow> string \<Rightarrow> (unit, int) outcome" where
  "iniparser_getsecnkeys dp s =
     (case dp of None \<Rightarrow> Ok 0
      | Some d \<Rightarrow>
          if \<not> iniparser_find_entry dp (Some s) then Ok 0
          else if length s \<ge> ASCIILINESZ + 1 then Undef OutOfBounds
          else Ok (int (length (section_keys (lowercase s @ '':'') (d_key d)))))"

text \<open>The caller's array \<open>keys\<close> receives the names from index 0 on.\<close>

definition iniparser_getseckeys ::
  "dictionary option \<Rightarrow> string \<Rightarrow> string list option \<Rightarrow> (unit, string list option) outcome" where
  "iniparser_getseckeys dp s keysp =
     (case (dp, keysp) of
        (Some d, Some keys) \<Rightarrow>
          if \<not> iniparser_find_entry dp (Some s) then Ok None
          else if length s \<ge> ASCIILINESZ + 1 then Undef OutOfBounds
          else
            (let found = section_keys (lowercase s @ '':'') (d_key d) in
             if length found > length keys then Undef OutOfBounds
             else Ok (Some (found @ drop (length found) keys)))
      | _ \<Rightarrow> Ok None)"

subsection \<open>Dumping\<close>

definition nl :: string where "nl = [CHR 0x0A]"

definition iniparser_dump :: "dictionary option \<Rightarrow> string" where
  "iniparser_dump dp =
     (case dp of None \<Rightarrow> []
      | Some d \<Rightarrow> concat (map (\<lambda>(k, v). case k of None \<Rightarrow> []
          | Some s \<Rightarrow> (case v of Some t \<Rightarrow> ''['' @ s @ '']=['' @ t @ '']'' @ nl
                               | None \<Rightarrow> ''['' @ s @ '']=UNDEF'' @ nl))
          (zip (d_key d) (d_val d))))"

text \<open>\<open>%-30s\<close>.\<close>

definition pad_right :: "nat \<Rightarrow> string \<Rightarrow> string" where
  "pad_right n s = s @ replicate (n - length s) (CHR '' '')"

text \<open>\<open>sprintf(keym, "%s:", s)\<close> stores \<open>strlen(s) + 2\<close> bytes in the 1025 of \<open>keym\<close>.\<close>

definition iniparser_dumpsection_ini :: "dictionary option \<Rightarrow> string \<Rightarrow> (unit, string) outcome" where
  "iniparser_dumpsection_ini dp s =
     (case dp of None \<Rightarrow> Ok []
      | Some d \<Rightarrow>
          if \<not> iniparser_find_entry dp (Some s) then Ok []
          else if length s + 2 > ASCIILINESZ + 1 then Undef OutOfBounds
          else Ok (nl @ ''['' @ s @ '']'' @ nl
            @ concat (map (\<lambda>(k, v). case k of None \<Rightarrow> []
                | Some t \<Rightarrow> if starts_with (s @ '':'') t
                    then pad_right 30 (drop (length s + 1) t) @ '' = ''
                         @ (case v of Some w \<Rightarrow> w | None \<Rightarrow> []) @ nl
                    else []) (zip (d_key d) (d_val d)))
            @ nl))"

primrec dump_sections :: "dictionary option \<Rightarrow> string option list \<Rightarrow> (unit, string) outcome" where
  "dump_sections dp [] = Ok nl"
| "dump_sections dp (s # ss) =
     (case s of None \<Rightarrow> Undef NullDeref
      | Some t \<Rightarrow> obind (iniparser_dumpsection_ini dp t) (\<lambda>out.
                    obind (dump_sections dp ss) (\<lambda>out'. Ok (out @ out'))))"

primrec dump_plain :: "(string option \<times> string option) list \<Rightarrow> (unit, string) outcome" where
  "dump_plain [] = Ok []"
| "dump_plain (kv # kvs) =
     (case kv of
        (None, _) \<Rightarrow> dump_plain kvs
      | (Some k, None) \<Rightarrow> Undef NullDeref
      | (Some k, Some v) \<Rightarrow>
          obind (dump_plain kvs) (\<lambda>out. Ok (k @ '' = '' @ v @ nl @ out)))"

definition iniparser_dump_ini :: "dictionary option \<Rightarrow> (unit, string) outcome" where
  "iniparser_dump_ini dp =
     (case dp of None \<Rightarrow> Ok []
      | Some d \<Rightarrow>
          (let nsec = iniparser_getnsec dp in
           if nsec < 1 then dump_plain (zip (d_key d) (d_val d))
           else dump_sections dp (map (\<lambda>i. iniparser_getsecname dp (int i)) [0..<nat nsec])))"

subsection \<open>The line parser\<close>

text \<open>
  \<open>sscanf\<close>: a format is a list of directives (a non-empty span of a character set, skipped
  white space, a literal); the result lists the spans assigned before the first mismatch.
\<close>

datatype directive = Scan "char \<Rightarrow> bool" | Blank | Lit char

fun sscanf :: "directive list \<Rightarrow> string \<Rightarrow> string list" where
  "sscanf [] s = []"
| "sscanf (Scan p # ds) s =
     (if takeWhile p s = [] then [] else takeWhile p s # sscanf ds (dropWhile p s))"
| "sscanf (Blank # ds) s = sscanf ds (dropWhile c_isspace s)"
| "sscanf (Lit c # ds) s = (case s of [] \<Rightarrow> [] | x # xs \<Rightarrow> if x = c then sscanf ds xs else [])"

definition fmt_section :: "directive list" where
  "fmt_section = [Lit (CHR ''[''), Scan (\<lambda>c. c \<noteq> CHR '']'')]"

definition fmt_quoted :: "char \<Rightarrow> directive list" where
  "fmt_quoted q = [Scan (\<lambda>c. c \<noteq> CHR ''=''), Blank, Lit (CHR ''=''), Blank, Lit q,
     Scan (\<lambda>c. c \<noteq> q), Lit q]"

definition fmt_value :: "directive list" where
  "fmt_value = [Scan (\<lambda>c. c \<noteq> CHR ''=''), Blank, Lit (CHR ''=''), Blank,
     Scan (\<lambda>c. c \<noteq> CHR '';'' \<and> c \<noteq> CHR ''#'')]"

definition fmt_comment :: "directive list" where
  "fmt_comment = [Scan (\<lambda>c. c \<noteq> CHR ''=''), Blank, Lit (CHR ''=''), Blank,
     Scan (\<lambda>c. c = CHR '';'' \<or> c = CHR ''#'')]"

definition fmt_equals :: "directive list" where
  "fmt_equals = [Scan (\<lambda>c. c \<noteq> CHR ''=''), Blank, Scan (\<lambda>c. c = CHR ''='')]"

datatype line_status =
  LINE_UNPROCESSED | LINE_ERROR | LINE_EMPTY | LINE_COMMENT | LINE_SECTION | LINE_VALUE

text \<open>The three output buffers of \<open>iniparser_line\<close>.\<close>

record ini_buffers =
  b_section :: string
  b_key :: string
  b_value :: string

definition store_scan :: "string list \<Rightarrow> ini_buffers \<Rightarrow> ini_buffers" where
  "store_scan vs b =
     (case vs of [] \<Rightarrow> b | [k] \<Rightarrow> b\<lparr>b_key := k\<rparr> | k # v # _ \<Rightarrow> b\<lparr>b_key := k, b_value := v\<rparr>)"

definition DQUOTE :: char where "DQUOTE = CHR 0x22"
definition SQUOTE :: char where "SQUOTE = CHR 0x27"
definition BACKSLASH :: char where "BACKSLASH = CHR 0x5C"
definition NEWLINE :: char where "NEWLINE = CHR 0x0A"
definition NUL :: char where "NUL = CHR 0x00"

lemmas special_chars = DQUOTE_def SQUOTE_def BACKSLASH_def NEWLINE_def NUL_def

text \<open>\<open>strstrip(key); strlwc(key, key, len);\<close>\<close>

definition clean_name :: "nat \<Rightarrow> string \<Rightarrow> string" where
  "clean_name len k = (case strlwc (Some (strstrip k)) len of Some t \<Rightarrow> t | None \<Rightarrow> strstrip k)"

text \<open>
  \<open>ok\<close> says whether the copy of the line could be allocated: \<open>strstrip\<close> of a null pointer answers
  the length 0, so a line without a copy counts as empty.
\<close>

definition iniparser_line :: "bool \<Rightarrow> string \<Rightarrow> ini_buffers \<Rightarrow> line_status \<times> ini_buffers" where
  "iniparser_line ok input_line b =
     (let line = (case xstrdup ok (Some input_line) of None \<Rightarrow> [] | Some l \<Rightarrow> strstrip l);
          len = length line in
      if len < 1 then (LINE_EMPTY, b)
      else if line ! 0 = CHR ''#'' \<or> line ! 0 = CHR '';'' then (LINE_COMMENT, b)
      else if line ! 0 = CHR ''['' \<and> line ! (len - 1) = CHR '']'' then
        (let sec = (case sscanf fmt_section line of [] \<Rightarrow> b_section b | t # _ \<Rightarrow> t) in
         (LINE_SECTION, b\<lparr>b_section := clean_name len sec\<rparr>))
      else
        let r1 = sscanf (fmt_quoted DQUOTE) line; b1 = store_scan r1 b;
            r2 = sscanf (fmt_quoted SQUOTE) line; b2 = store_scan r2 b1;
            r3 = sscanf fmt_value line; b3 = store_scan r3 b2;
            r4 = sscanf fmt_comment line; b4 = store_scan r4 b3;
            r5 = sscanf fmt_equals line; b5 = store_scan r5 b4
        in if length r1 = 2 then (LINE_VALUE, b1\<lparr>b_key := clean_name len (b_key b1)\<rparr>)
           else if length r2 = 2 then (LINE_VALUE, b2\<lparr>b_key := clean_name len (b_key b2)\<rparr>)
           else if length r3 = 2 then
             (let v = strstrip (b_value b3) in
              (LINE_VALUE, b3\<lparr>b_key := clean_name len (b_key b3),
                 b_value := (if v = [DQUOTE, DQUOTE] \<or> v = [SQUOTE, SQUOTE] then [] else v)\<rparr>))
           else if length r4 = 2 then
             (LINE_VALUE, b4\<lparr>b_key := clean_name len (b_key b4), b_value := []\<rparr>)
           else if length r5 = 2 then
             (LINE_VALUE, b5\<lparr>b_key := clean_name len (b_key b5), b_value := []\<rparr>)
           else (LINE_ERROR, b5))"

subsection \<open>The loader\<close>

text \<open>
  \<open>fgets(buf, n, in)\<close>: the characters stored, the rest of the stream, and whether the end of
  file was met while reading. With \<open>n = 1\<close> nothing is read and an empty string stored.
\<close>

definition c_fgets :: "int \<Rightarrow> string \<Rightarrow> (string \<times> string \<times> bool) option" where
  "c_fgets n inp =
     (if n \<le> 0 then None
      else if n = 1 then Some ([], inp, False)
      else if inp = [] then None
      else
        let room = nat (n - 1);
            upto = takeWhile (\<lambda>c. c \<noteq> NEWLINE) inp;
            full = (if length upto < length inp then upto @ [NEWLINE] else upto);
            chunk = take room full
        in Some (chunk, drop (length chunk) inp, length upto = length inp \<and> length inp < room))"

datatype ini_msg = Cannot_open | Line_too_long nat | Syntax_error nat string | Allocation_failure

record ini_state =
  is_kept :: string
  is_buffers :: ini_buffers
  is_lineno :: nat
  is_errs :: nat
  is_dict :: "dictionary option"
  is_msgs :: "ini_msg list"

definition ini_state_init :: "dictionary \<Rightarrow> ini_state" where
  "ini_state_init d = \<lparr>is_kept = [], is_buffers = \<lparr>b_section = [], b_key = [], b_value = []\<rparr>,
     is_lineno = 0, is_errs = 0, is_dict = Some d, is_msgs = []\<rparr>"

text \<open>
  The switch of the loop on a logical line; \<open>mem_err\<close> is the first component of the result.
  \<open>tmp\<close> has 2050 bytes.
\<close>

definition ini_dispatch ::
  "dict_alloc \<Rightarrow> string \<Rightarrow> ini_state \<Rightarrow> (unit, int \<times> ini_state) outcome" where
  "ini_dispatch al line st =
     (case iniparser_line (dupline_ok al) line (is_buffers st) of
        (sta, b) \<Rightarrow>
          let st = st\<lparr>is_buffers := b\<rparr> in
          (case sta of
             LINE_SECTION \<Rightarrow>
               obind (dictionary_set al (is_dict st) (Some (b_section b)) None)
                 (\<lambda>(r, dp). Ok (r, st\<lparr>is_dict := dp\<rparr>))
           | LINE_VALUE \<Rightarrow>
               if length (b_section b) + length (b_key b) + 2 > ASCIILINESZ * 2 + 2
               then Undef OutOfBounds
               else obind (dictionary_set al (is_dict st)
                     (Some (b_section b @ '':'' @ b_key b)) (Some (b_value b)))
                 (\<lambda>(r, dp). Ok (r, st\<lparr>is_dict := dp\<rparr>))
           | LINE_ERROR \<Rightarrow>
               Ok (0, st\<lparr>is_errs := is_errs st + 1,
                        is_msgs := is_msgs st @ [Syntax_error (is_lineno st) line]\<rparr>)
           | _ \<Rightarrow> Ok (0, st)))"

text \<open>
  The loop. \<open>is_kept\<close> holds the first \<open>last\<close> characters of \<open>line\<close>, to which the next
  \<open>fgets\<close> appends; a C string ends at its first NUL. \<open>True\<close> in the result is the regular end
  of the loop, \<open>False\<close> the return inside it. A call of \<open>fgets\<close> that reads nothing would be
  repeated for ever.
\<close>

function load_loop ::
  "dict_alloc \<Rightarrow> string \<Rightarrow> ini_state \<Rightarrow> (unit, bool \<times> ini_state) outcome" where
  "load_loop al inp st =
     (case c_fgets (int ASCIILINESZ - int (length (is_kept st))) inp of
        None \<Rightarrow> Ok (True, st)
      | Some (chunk, rest, eof) \<Rightarrow>
          if \<not> length rest < length inp then Undef Diverges
          else
            let st = st\<lparr>is_lineno := is_lineno st + 1\<rparr>;
                line = is_kept st @ takeWhile (\<lambda>c. c \<noteq> NUL) chunk
            in if int (length line) - 1 \<le> 0 then load_loop al rest st
               else if line ! (length line - 1) \<noteq> NEWLINE \<and> \<not> eof then
                 Ok (False, st\<lparr>is_msgs := is_msgs st @ [Line_too_long (is_lineno st)]\<rparr>)
               else
                 let line = rstrip line in
                 if line \<noteq> [] \<and> line ! (length line - 1) = BACKSLASH then
                   load_loop al rest (st\<lparr>is_kept := take (length line - 1) line\<rparr>)
                 else
                   obind (ini_dispatch al line st) (\<lambda>(mem_err, st).
                     let st = st\<lparr>is_kept := []\<rparr> in
                     if mem_err < 0
                     then Ok (True, st\<lparr>is_msgs := is_msgs st @ [Allocation_failure]\<rparr>)
                     else load_loop al rest st))"
  by pat_completeness auto
termination by (relation "measure (\<lambda>(al, inp, st). length inp)") auto

declare load_loop.simps [simp del]

text \<open>\<open>content\<close> is what the file holds, \<open>None\<close> when it cannot be opened.\<close>

definition iniparser_load ::
  "bool \<Rightarrow> dict_alloc \<Rightarrow> string option \<Rightarrow> (unit, dictionary option \<times> ini_msg list) outcome" where
  "iniparser_load new_ok al content =
     (case content of
        None \<Rightarrow> Ok (None, [Cannot_open])
      | Some inp \<Rightarrow>
          (case dictionary_new new_ok 0 of
             None \<Rightarrow> Ok (None, [])
           | Some d \<Rightarrow>
               obind (load_loop al inp (ini_state_init d)) (\<lambda>(finished, st).
                 if \<not> finished then Ok (None, is_msgs st)
                 else if is_errs st > 0 then Ok (None, is_msgs st)
                 else Ok (is_dict st, is_msgs st))))"

end
