(* ===== verification/Pmf_Unix.thy ===== *)
theory Pmf_Unix
  imports Pmf_Events Pmf_Iniparser
begin

text \<open>
  \<open>pmf_unix.c\<close>: the identity of a pool's processes, the owner and mode of a Unix socket, and
  the start of the master process (limits, going to the background, priority). The answers of
  the system are the fields of \<open>unix_env\<close>; the system calls made are returned in order.
\<close>

record passwd =
  pw_name :: string
  pw_dir :: string
  pw_uid :: int
  pw_gid :: int

text \<open>\<open>strtoul(s, 0, b)\<close> stored in an \<open>int\<close>.\<close>

definition strtoul_int :: "nat \<Rightarrow> string \<Rightarrow> int" where
  "strtoul_int b s =
     (let t = dropWhile c_isspace s;
          neg = (t \<noteq> [] \<and> hd t = CHR ''-'');
          u = (if t \<noteq> [] \<and> (hd t = CHR ''-'' \<or> hd t = CHR ''+'') then tl t else t);
          m = int (base_val b 0 u)
      in to_int32 (if m \<ge> 2 ^ 64 then 2 ^ 64 - 1 else if neg then (- m) mod 2 ^ 64 else m))"

text \<open>\<open>s && *s\<close>.\<close>

definition nonempty_str :: "string option \<Rightarrow> bool" where
  "nonempty_str s = (case s of None \<Rightarrow> False | Some t \<Rightarrow> t \<noteq> [])"

record unix_env =
  ue_root :: bool
  ue_getpwnam :: "string \<Rightarrow> passwd option"
  ue_getgrnam :: "string \<Rightarrow> int option"
  ue_getpwuid :: "passwd option"
  ue_setrlimit_ok :: "bool \<Rightarrow> 64 word \<Rightarrow> bool"
  ue_pipe :: "(int \<times> int) option"
  ue_fork :: int
  ue_select :: int
  ue_read :: "int \<times> int"
  ue_clock_init :: int
  ue_setpriority :: "int \<Rightarrow> int"
  ue_getpid :: int

subsection \<open>Worker identity\<close>

definition unix_set_user :: "unix_env \<Rightarrow> wp_config \<Rightarrow> worker_pool \<Rightarrow> int \<times> worker_pool" where
  "unix_set_user env c wp =
     (case wpc_user c of
        Some u \<Rightarrow>
          if u = [] then (0, wp)
          else if all_digits u then (0, wp\<lparr>wp_set_uid := strtoul_int 10 u\<rparr>)
          else (case ue_getpwnam env u of
                  None \<Rightarrow> (- 1, wp)
                | Some pw \<Rightarrow> (0, wp\<lparr>wp_set_uid := pw_uid pw, wp_set_gid := pw_gid pw,
                                 wp_user := Some (pw_name pw), wp_home := Some (pw_dir pw)\<rparr>))
      | None \<Rightarrow> (0, wp))"

definition unix_set_group :: "unix_env \<Rightarrow> wp_config \<Rightarrow> worker_pool \<Rightarrow> int \<times> worker_pool" where
  "unix_set_group env c wp =
     (case wpc_group c of
        Some g \<Rightarrow>
          if g = [] then (0, wp)
          else if all_digits g then (0, wp\<lparr>wp_set_gid := strtoul_int 10 g\<rparr>)
          else (case ue_getgrnam env g of
                  None \<Rightarrow> (- 1, wp)
                | Some gid \<Rightarrow> (0, wp\<lparr>wp_set_gid := gid\<rparr>))
      | None \<Rightarrow> (0, wp))"

definition pmf_unix_conf_wp :: "unix_env \<Rightarrow> worker_pool \<Rightarrow> (unit, int \<times> worker_pool) outcome" where
  "pmf_unix_conf_wp env wp =
     (case wp_config wp of None \<Rightarrow> Undef NullDeref
      | Some c \<Rightarrow>
          if ue_root env then
            (case unix_set_user env c wp of (r, wp1) \<Rightarrow>
               if r < 0 then Ok (- 1, wp1)
               else (case unix_set_group env c wp1 of (r, wp2) \<Rightarrow>
                       if r < 0 then Ok (- 1, wp2) else Ok (0, wp2)))
          else
            (case ue_getpwuid env of
               None \<Rightarrow> Ok (0, wp)
             | Some pw \<Rightarrow> Ok (0, wp\<lparr>wp_user := Some (pw_name pw), wp_home := Some (pw_dir pw)\<rparr>)))"

subsection \<open>Socket permissions\<close>

text \<open>\<open>chown\<close> answers the call for the path, owner and group.\<close>

definition pmf_unix_set_socket_premissions ::
  "(string \<Rightarrow> int \<Rightarrow> int \<Rightarrow> int) \<Rightarrow> worker_pool \<Rightarrow> string \<Rightarrow> int" where
  "pmf_unix_set_socket_premissions chown wp path =
     (if wp_socket_uid wp \<noteq> - 1 \<or> wp_socket_gid wp \<noteq> - 1
      then if chown path (wp_socket_uid wp) (wp_socket_gid wp) < 0 then - 1 else 0
      else 0)"

definition pmf_unix_resolve_socket_premissions :: "unix_env \<Rightarrow> worker_pool \<Rightarrow> int \<times> worker_pool" where
  "pmf_unix_resolve_socket_premissions env wp =
     (let wp = wp\<lparr>wp_socket_uid := - 1, wp_socket_gid := - 1, wp_socket_mode := 432\<rparr> in
      case wp_config wp of None \<Rightarrow> (0, wp)
      | Some c \<Rightarrow>
          let wp = (if nonempty_str (wpc_listen_mode c)
                    then wp\<lparr>wp_socket_mode := strtoul_int 8 (the (wpc_listen_mode c))\<rparr> else wp)
          in case (if nonempty_str (wpc_listen_owner c)
                   then (case ue_getpwnam env (the (wpc_listen_owner c)) of
                           None \<Rightarrow> None
                         | Some pw \<Rightarrow> Some (wp\<lparr>wp_socket_uid := pw_uid pw, wp_socket_gid := pw_gid pw\<rparr>))
                   else Some wp) of
               None \<Rightarrow> (- 1, wp)
             | Some wp \<Rightarrow>
                 if nonempty_str (wpc_listen_group c)
                 then (case ue_getgrnam env (the (wpc_listen_group c)) of
                         None \<Rightarrow> (- 1, wp)
                       | Some gid \<Rightarrow> (0, wp\<lparr>wp_socket_gid := gid\<rparr>))
                 else (0, wp))"

subsection \<open>Start of the master\<close>

datatype unix_call =
    Set_rlimit_nofile "64 word"
  | Set_rlimit_core "64 word"
  | Pipe
  | Fork
  | Close_fd int
  | Wait_ack int
  | Read_ack int
  | Set_sid
  | Clock_init
  | Set_priority int

definition RLIM_INFINITY :: "64 word" where "RLIM_INFINITY = - 1"

text \<open>The limits; \<open>None\<close> when they were set, otherwise the function returns.\<close>

definition unix_limits :: "unix_env \<Rightarrow> pmf_global_config \<Rightarrow> bool \<times> unix_call list" where
  "unix_limits env g =
     (let nofile = word_of_int (gc_rlimit_files g);
          t1 = (if gc_rlimit_files g > 0 then [Set_rlimit_nofile nofile] else []);
          core = (if gc_rlimit_core g = - 1 then RLIM_INFINITY else word_of_int (gc_rlimit_core g))
      in if gc_rlimit_files g > 0 \<and> \<not> ue_setrlimit_ok env True nofile then (False, t1)
         else if gc_rlimit_core g \<noteq> 0
         then (ue_setrlimit_ok env False core, t1 @ [Set_rlimit_core core])
         else (True, t1))"

text \<open>
  Going to the background. \<open>Inl r\<close>: the calling process returns \<open>r\<close>; \<open>Inr ()\<close>: go on (as the
  child, or without having forked).
\<close>

definition unix_daemonize ::
  "unix_env \<Rightarrow> pmf_global_config \<Rightarrow> pmf_globals \<Rightarrow>
   (unit, (int + unit) \<times> pmf_globals \<times> unix_call list) outcome" where
  "unix_daemonize env g gl =
     (if gc_daemonize g = 0 then Ok (Inr (), gl, [])
      else
        (case ue_pipe env of
           None \<Rightarrow> Ok (Inl (- 1), gl, [Pipe])
         | Some p \<Rightarrow>
             let gl = gl\<lparr>g_send_config_pipe := p\<rparr>; tr = [Pipe, Fork]; fd = fst p in
             if ue_fork env = - 1 then Ok (Inl (- 1), gl, tr)
             else if ue_fork env = 0 then Ok (Inr (), gl, tr @ [Close_fd fd])
             else if \<not> (0 \<le> fd \<and> fd < FD_SETSIZE) then Undef OutOfBounds
             else if ue_select env = - 1 then Ok (Inl (- 1), gl, tr @ [Wait_ack fd])
             else if ue_select env \<noteq> 0 then
               (case ue_read env of (r, val) \<Rightarrow>
                  Ok (Inl (if r = - 1 then - 1 else if r = 0 then - 1
                           else if val = 1 then 0 else - 1),
                      gl, tr @ [Wait_ack fd, Read_ack fd]))
             else Ok (Inl (- 1), gl, tr @ [Wait_ack fd])))"

fun unix_conf_all ::
  "unix_env \<Rightarrow> worker_pool list \<Rightarrow> (unit, int \<times> worker_pool list) outcome" where
  "unix_conf_all env [] = Ok (0, [])"
| "unix_conf_all env (wp # wps) =
     obind (pmf_unix_conf_wp env wp) (\<lambda>(r, wp').
       if r < 0 then Ok (- 1, wp' # wps)
       else obind (unix_conf_all env wps) (\<lambda>(r, wps'). Ok (r, wp' # wps')))"

definition pmf_unix_init_main ::
  "unix_env \<Rightarrow> pmf_global_config \<Rightarrow> pmf_globals \<Rightarrow> worker_pool list \<Rightarrow>
   (unit, int \<times> pmf_globals \<times> worker_pool list \<times> unix_call list) outcome" where
  "pmf_unix_init_main env g gl pools =
     (case unix_limits env g of (lim_ok, t1) \<Rightarrow>
        if \<not> lim_ok then Ok (- 1, gl, pools, t1)
        else obind (unix_daemonize env g gl) (\<lambda>(res, gl, t2).
          case res of
            Inl r \<Rightarrow> Ok (r, gl, pools, t1 @ t2)
          | Inr _ \<Rightarrow>
              let t3 = t1 @ t2 @ [Set_sid, Clock_init];
                  prio = gc_process_priority g;
                  t4 = (if prio \<noteq> 64 \<and> ue_root env then t3 @ [Set_priority prio] else t3)
              in if ue_clock_init env < 0 then Ok (- 1, gl, pools, t3)
                 else if prio \<noteq> 64 \<and> ue_root env \<and> ue_setpriority env prio < 0
                 then Ok (- 1, gl, pools, t4)
                 else obind (unix_conf_all env pools) (\<lambda>(r, pools').
                        Ok (r, gl\<lparr>g_parent_pid := ue_getpid env\<rparr>, pools', t4))))"

subsection \<open>Properties\<close>

text \<open>Who a pool's processes are to be, by its \<open>user\<close> and \<open>group\<close> directives.\<close>

definition wanted_uid :: "unix_env \<Rightarrow> wp_config \<Rightarrow> int \<Rightarrow> int option" where
  "wanted_uid env c old =
     (if \<not> nonempty_str (wpc_user c) then Some old
      else let u = the (wpc_user c) in
        if all_digits u then Some (strtoul_int 10 u) else map_option pw_uid (ue_getpwnam env u))"

definition wanted_gid :: "unix_env \<Rightarrow> wp_config \<Rightarrow> int \<Rightarrow> int option" where
  "wanted_gid env c old =
     (if nonempty_str (wpc_group c)
      then let g = the (wpc_group c) in
        if all_digits g then Some (strtoul_int 10 g) else ue_getgrnam env g
      else if nonempty_str (wpc_user c) \<and> \<not> all_digits (the (wpc_user c))
      then map_option pw_gid (ue_getpwnam env (the (wpc_user c)))
      else Some old)"


definition sample_env :: unix_env where
  "sample_env = \<lparr>ue_root = True,
     ue_getpwnam = (\<lambda>u. if u = ''nobody'' then Some \<lparr>pw_name = u, pw_dir = ''/'', pw_uid = 99, pw_gid = 98\<rparr> else None),
     ue_getgrnam = (\<lambda>g. if g = ''nobody'' then Some 97 else None), ue_getpwuid = None,
     ue_setrlimit_ok = (\<lambda>n v. True), ue_pipe = Some (3, 4), ue_fork = 100, ue_select = 0,
     ue_read = (0, 0), ue_clock_init = 0, ue_setpriority = (\<lambda>p. 0), ue_getpid = 42\<rparr>"


lemma unix_conf_all_length: "unix_conf_all env wps = Ok (r, wps') \<Longrightarrow> length wps' = length wps"
  by (induction wps arbitrary: r wps') (auto simp: pmf_simps split: if_splits prod.splits)

lemma unix_conf_all_result:
  "unix_conf_all env wps = Ok (0, wps') \<Longrightarrow> i < length wps \<Longrightarrow>
    pmf_unix_conf_wp env (wps ! i) = Ok (0, wps' ! i)"
proof (induction wps arbitrary: wps' i)
  case (Cons wp wps)
  from Cons.prems(1) obtain r wp' where r: "pmf_unix_conf_wp env wp = Ok (r, wp')" "\<not> r < 0"
    by (auto simp: pmf_simps split: if_splits)
  obtain wps1 where wps1: "unix_conf_all env wps = Ok (0, wps1)" "wps' = wp' # wps1"
    using Cons.prems(1) r by (auto simp: pmf_simps)
  have "r = 0"
    using r by (auto simp: pmf_unix_conf_wp_def unix_set_user_def unix_set_group_def
        split: option.splits if_splits prod.splits)
  then show ?case
    using r(1) wps1 Cons.IH [OF wps1(1)] Cons.prems(2) by (cases i) auto
qed simp

text \<open>
  C32: With \<open>daemonize\<close>, the calling process leaves pools and master id alone and returns 0
  only after it read the acknowledgement 1 from the pipe; the forked process closes the read
  end, goes on, and on success has recorded its own id as the master's and configured every
  pool. Nothing in these steps writes to the pipe.
\<close>

theorem unix_init_main_roles:
  assumes lim: "fst (unix_limits env g)" and d: "gc_daemonize g \<noteq> 0" and p: "ue_pipe env = Some (rd, wr)"
    and rd: "0 \<le> rd \<and> rd < FD_SETSIZE" and forked: "ue_fork env \<noteq> - 1"
    and ok: "pmf_unix_init_main env g gl pools = Ok (r, gl', pools', tr)"
  shows "if ue_fork env \<noteq> 0
    then pools' = pools \<and> g_parent_pid gl' = g_parent_pid gl
      \<and> (r = 0 \<longrightarrow> ue_select env \<noteq> - 1 \<and> ue_select env \<noteq> 0
           \<and> fst (ue_read env) \<notin> {- 1, 0} \<and> snd (ue_read env) = 1)
      \<and> Wait_ack rd \<in> set tr
    else Close_fd rd \<in> set tr
      \<and> (r = 0 \<longrightarrow> g_parent_pid gl' = ue_getpid env \<and> length pools' = length pools
           \<and> (\<forall>i < length pools. pmf_unix_conf_wp env (pools ! i) = Ok (0, pools' ! i)))"
proof -
  obtain t1 where l: "unix_limits env g = (True, t1)" using lim by (cases "unix_limits env g") auto
  show ?thesis
  proof (cases "ue_fork env = 0")
    case False
    then show ?thesis
      using ok d p rd forked
      by (auto simp: pmf_unix_init_main_def l unix_daemonize_def Let_def pmf_simps split: if_splits prod.splits)
  next
    case True
    then show ?thesis
      using ok d p
      by (auto simp: pmf_unix_init_main_def l unix_daemonize_def Let_def pmf_simps
          unix_conf_all_length unix_conf_all_result split: if_splits)
  qed
qed

theorem unix_init_main_roles_witness:
  "\<exists>r gl'. pmf_unix_init_main sample_env (pmf_global_config_init\<lparr>gc_daemonize := 1\<rparr>)
      pmf_globals_init [sample_pool] = Ok (r, gl', [sample_pool], [Pipe, Fork, Wait_ack 3])
     \<and> r \<noteq> 0"
proof -
  let ?g = "pmf_global_config_init\<lparr>gc_daemonize := 1\<rparr>"
  have run: "pmf_unix_init_main sample_env ?g pmf_globals_init [sample_pool]
      = Ok (- 1, pmf_globals_init\<lparr>g_send_config_pipe := (3, 4)\<rparr>, [sample_pool], [Pipe, Fork, Wait_ack 3])"
    by (simp add: pmf_unix_init_main_def unix_limits_def unix_daemonize_def sample_env_def
        pmf_global_config_init_def FD_SETSIZE_def Let_def)
  have "fst (unix_limits sample_env ?g)" "gc_daemonize ?g \<noteq> 0" "ue_pipe sample_env = Some (3, 4)"
      "0 \<le> (3 :: int) \<and> (3 :: int) < FD_SETSIZE" "ue_fork sample_env \<noteq> - 1" "ue_select sample_env = 0"
    by (simp_all add: unix_limits_def pmf_global_config_init_def sample_env_def FD_SETSIZE_def)
  from unix_init_main_roles [OF this(1-5) run] this(6) run show ?thesis by auto
qed

end
