(* ===== verification/Pmf_Sockets.thy ===== *)
theory Pmf_Sockets
  imports Pmf_Array Pmf_Log Pmf_Unix
begin

text \<open>
  The listening sockets of \<open>pmf_sockets.c\<close>: the table of sockets on the growing array, the
  creation of a socket with its system calls, the addresses of TCP and Unix listeners, and the
  start-up loop over the pools with its closing of unused sockets. The answers of the socket
  calls are parameters; the calls made are recorded in order.
\<close>

record listening_socket =
  ls_refcount :: int
  ls_sock :: int
  ls_type :: int
  ls_key :: "string option"

definition zero_socket :: listening_socket where
  "zero_socket = \<lparr>ls_refcount = 0, ls_sock = 0, ls_type = 0, ls_key = None\<rparr>"

datatype socket_op = PMF_GET_USE_SOCKET | PMF_STORE_SOCKET | PMF_STORE_USE_SOCKET

definition domain_value :: "address_domain option \<Rightarrow> int" where
  "domain_value d = (case d of None \<Rightarrow> 0 | Some PMF_AF_UNIX \<Rightarrow> 1 | Some PMF_AF_INET \<Rightarrow> 2)"

text \<open>\<open>listen\<close> addresses; a null pointer is dereferenced by \<open>strchr\<close>.\<close>

definition pmf_sockets_domain_from_address :: "string \<Rightarrow> address_domain" where
  "pmf_sockets_domain_from_address address =
     (if CHR '':'' \<in> set address \<or> all_digits address then PMF_AF_INET else PMF_AF_UNIX)"

text \<open>
  A \<open>sockaddr\<close>: for TCP the text \<open>inet_ntop\<close> gives for its address and its port, for a Unix
  socket the bytes copied into \<open>sun_path\<close> (108 of them, unterminated when the path is longer).
\<close>

datatype sockaddr = Sa_inet string int | Sa_unix string

definition sun_path_size :: nat where "sun_path_size = 108"

definition pmf_get_in_addr :: "sockaddr \<Rightarrow> (unit, string) outcome" where
  "pmf_get_in_addr sa = (case sa of Sa_inet a p \<Rightarrow> Ok a | Sa_unix p \<Rightarrow> Undef TypePun)"

definition pmf_get_in_port :: "sockaddr \<Rightarrow> (unit, int) outcome" where
  "pmf_get_in_port sa = (case sa of Sa_inet a p \<Rightarrow> Ok p | Sa_unix p \<Rightarrow> Undef TypePun)"

definition sun_path :: "sockaddr \<Rightarrow> (unit, string) outcome" where
  "sun_path sa =
     (case sa of Sa_inet a p \<Rightarrow> Undef TypePun
      | Sa_unix p \<Rightarrow> if length p \<ge> sun_path_size then Undef OutOfBounds else Ok p)"

subsection \<open>The table of sockets\<close>

text \<open>
  The key built when none is given; \<open>None\<close>: the function returns \<open>-1\<close> at once. \<open>key_ok\<close> is the
  allocation of the key, whose size needs the length of the path of a Unix address.
\<close>

definition sockaddr_key ::
  "bool \<Rightarrow> sockaddr \<Rightarrow> address_domain option \<Rightarrow> (unit, string option) outcome" where
  "sockaddr_key key_ok sa typ =
     (case typ of
        Some PMF_AF_INET \<Rightarrow>
          if \<not> key_ok then Ok None
          else obind (pmf_get_in_addr sa) (\<lambda>a. obind (pmf_get_in_port sa) (\<lambda>p.
            Ok (Some (a @ '':'' @ show_int p))))
      | Some PMF_AF_UNIX \<Rightarrow>
          obind (sun_path sa) (\<lambda>p. Ok (if key_ok then Some p else None))
      | None \<Rightarrow> Ok None)"

fun find_socket :: "string \<Rightarrow> listening_socket list \<Rightarrow> nat \<Rightarrow> (unit, nat option) outcome" where
  "find_socket key [] i = Ok None"
| "find_socket key (ls # rest) i =
     (case ls_key ls of
        None \<Rightarrow> Undef NullDeref
      | Some k \<Rightarrow> if k = key then Ok (Some i) else find_socket key rest (Suc i))"

definition store_slot ::
  "nat \<Rightarrow> listening_socket \<Rightarrow> listening_socket pmf_array \<Rightarrow> (unit, listening_socket pmf_array) outcome" where
  "store_slot i ls arr =
     (case arr_data arr of
        None \<Rightarrow> Undef NullDeref
      | Some d \<Rightarrow> if i < length d then Ok (arr\<lparr>arr_data := Some (d[i := ls])\<rparr>) else Undef OutOfBounds)"

text \<open>
  The allocations of one call: of the key to look for, of the copy of the key that is stored,
  and \<open>ha_realloc\<close> and \<open>ha_junk\<close> of the array's growth.
\<close>

record hash_alloc =
  ha_key :: bool
  ha_dup :: bool
  ha_realloc :: bool
  ha_junk :: "nat \<Rightarrow> listening_socket"

definition pmf_sockets_hash_op ::
  "hash_alloc \<Rightarrow> int \<Rightarrow> sockaddr \<Rightarrow> string option \<Rightarrow> address_domain option \<Rightarrow>
   socket_op \<Rightarrow> listening_socket pmf_array \<Rightarrow> (unit, int \<times> listening_socket pmf_array) outcome" where
  "pmf_sockets_hash_op al sock sa keyp typ op arr =
     obind (case keyp of None \<Rightarrow> sockaddr_key (ha_key al) sa typ | Some k \<Rightarrow> Ok (Some k)) (\<lambda>kp.
       case kp of
         None \<Rightarrow> Ok (- 1, arr)
       | Some key \<Rightarrow>
           if op = PMF_GET_USE_SOCKET then
             obind (find_socket key (members arr) 0) (\<lambda>r.
               case r of
                 None \<Rightarrow> Ok (- 1, arr)
               | Some i \<Rightarrow>
                   let ls = members arr ! i in
                   obind (checked32 (ls_refcount ls + 1)) (\<lambda>n.
                     obind (store_slot i (ls\<lparr>ls_refcount := n\<rparr>) arr) (\<lambda>arr'.
                       Ok (ls_sock ls, arr'))))
           else
             (case pmf_array_push (ha_realloc al) (ha_junk al) arr of
                (None, arr') \<Rightarrow> Ok (- 1, arr')
              | (Some i, arr') \<Rightarrow>
                  obind (store_slot i
                      \<lparr>ls_refcount = (if op = PMF_STORE_SOCKET then 0 else 1), ls_sock = sock,
                       ls_type = domain_value typ, ls_key = (if ha_dup al then Some key else None)\<rparr> arr')
                    (\<lambda>arr''. Ok (0, arr''))))"

subsection \<open>Creating a socket\<close>

text \<open>The answers to the calls of one creation.\<close>

record sock_env =
  se_socket :: int
  se_setsockopt :: int
  se_probe_socket :: int
  se_probe_connect :: int
  se_old_umask :: int
  se_bind :: int
  se_chown :: "string \<Rightarrow> int \<Rightarrow> int \<Rightarrow> int"
  se_listen :: int

datatype sock_call =
    Socket
  | Setsockopt int
  | Sock_close int
  | Sock_unlink "string option"
  | Umask int
  | Connect int
  | Bind int
  | Listen int int

definition pmf_socket_unix_test_connect :: "sock_env \<Rightarrow> sockaddr \<Rightarrow> int \<times> sock_call list" where
  "pmf_socket_unix_test_connect env sa =
     (case sa of Sa_inet a p \<Rightarrow> (- 1, [])
      | Sa_unix p \<Rightarrow>
          let fd = se_probe_socket env in
          if fd < 0 then (- 1, [Socket])
          else if se_probe_connect env = - 1 then (- 1, [Socket, Connect fd, Sock_close fd])
          else (0, [Socket, Connect fd, Sock_close fd]))"

definition pmf_sockets_new_listening_socket ::
  "sock_env \<Rightarrow> worker_pool \<Rightarrow> sockaddr \<Rightarrow> (unit, int \<times> sock_call list) outcome" where
  "pmf_sockets_new_listening_socket env wp sa =
     (case wp_config wp of None \<Rightarrow> Undef NullDeref
      | Some c \<Rightarrow>
          let sock = se_socket env in
          if 0 > sock then Ok (- 1, [Socket])
          else
            let un = (wp_domain wp = Some PMF_AF_UNIX); tr = [Socket, Setsockopt sock] in
            case (if un then pmf_socket_unix_test_connect env sa else (- 1, [])) of
              (probe, tp) \<Rightarrow>
                if un \<and> probe = 0 then Ok (- 1, tr @ tp @ [Sock_close sock])
                else
                  obind (if un then sun_path sa else Ok []) (\<lambda>path.
                    let tr = tr @ tp @ (if un then [Sock_unlink (Some path), Umask (xor 511 (wp_socket_mode wp))] else [])
                             @ [Bind sock];
                        back = (if un then [Umask (se_old_umask env)] else [])
                    in if 0 > se_bind env then Ok (- 1, tr @ back @ [Sock_close sock])
                       else
                         let tr = tr @ back in
                         if un \<and> 0 > pmf_unix_set_socket_premissions (se_chown env) wp path
                         then Ok (- 1, tr @ [Sock_close sock])
                         else
                           let tr = tr @ [Listen sock (wpc_listen_backlog c)] in
                           if 0 > se_listen env then Ok (- 1, tr @ [Sock_close sock])
                           else Ok (sock, tr)))"

text \<open>
  The state of the component: the table, the number of creations so far (the answers to the
  \<open>n\<close>-th are \<open>sys_env n\<close>), the log and the calls made. The allocator answers by the state in
  which it is called, for the operation of the table and for the copy of a listen address.
\<close>

record sock_state =
  sk_list :: "listening_socket pmf_array"
  sk_tries :: nat
  sk_log :: plog_state
  sk_calls :: "sock_call list"

record sock_sys =
  sys_env :: "nat \<Rightarrow> sock_env"
  sys_getaddrinfo :: "string \<Rightarrow> string \<Rightarrow> sockaddr list option"
  sys_tcp_info :: "int \<Rightarrow> (32 word \<times> 32 word) option"
  sys_alloc :: "socket_op \<Rightarrow> sock_state \<Rightarrow> hash_alloc"
  sys_dup_address :: "sock_state \<Rightarrow> bool"
  sys_unix :: unix_env

definition pmf_sockets_get_listening_socket ::
  "sock_sys \<Rightarrow> worker_pool \<Rightarrow> sockaddr \<Rightarrow> sock_state \<Rightarrow> (unit, int \<times> sock_state) outcome" where
  "pmf_sockets_get_listening_socket sys wp sa st =
     obind (pmf_sockets_hash_op (sys_alloc sys PMF_GET_USE_SOCKET st) 0 sa None (wp_domain wp)
              PMF_GET_USE_SOCKET (sk_list st)) (\<lambda>(sock, arr).
       if sock \<ge> 0 then Ok (sock, st\<lparr>sk_list := arr\<rparr>)
       else
         obind (pmf_sockets_new_listening_socket (sys_env sys (sk_tries st)) wp sa) (\<lambda>(sock, calls).
           obind (pmf_sockets_hash_op (sys_alloc sys PMF_STORE_USE_SOCKET st) sock sa None (wp_domain wp)
                    PMF_STORE_USE_SOCKET arr) (\<lambda>(_, arr').
             Ok (sock, st\<lparr>sk_list := arr', sk_tries := sk_tries st + 1,
                         sk_calls := sk_calls st @ calls\<rparr>))))"

subsection \<open>Addresses\<close>

fun try_addresses ::
  "sock_sys \<Rightarrow> worker_pool \<Rightarrow> sockaddr list \<Rightarrow> int \<Rightarrow> sock_state \<Rightarrow> (unit, int \<times> sock_state) outcome" where
  "try_addresses sys wp [] sock st = Ok (sock, st)"
| "try_addresses sys wp (p # ps) sock st =
     (if sock < 0 then
        obind (pmf_sockets_get_listening_socket sys wp p st) (\<lambda>(sock, st).
          try_addresses sys wp ps sock st)
      else try_addresses sys wp ps sock st)"

definition pmf_socket_af_inet_socket_by_addr ::
  "sock_sys \<Rightarrow> worker_pool \<Rightarrow> string \<Rightarrow> string \<Rightarrow> sock_state \<Rightarrow> (unit, int \<times> sock_state) outcome" where
  "pmf_socket_af_inet_socket_by_addr sys wp addr port st =
     (case sys_getaddrinfo sys addr port of
        None \<Rightarrow> Ok (- 1, st)
      | Some servinfo \<Rightarrow> try_addresses sys wp servinfo (- 1) st)"

text \<open>
  The split at the last colon: host without brackets and port text, or only the port text of
  a number; \<open>None\<close> for the port when there is neither.
\<close>

definition split_last_colon :: "string \<Rightarrow> (string \<times> string) option" where
  "split_last_colon s =
     (if CHR '':'' \<in> set s
      then Some (rev (tl (dropWhile (\<lambda>c. c \<noteq> CHR '':'') (rev s))),
                 rev (takeWhile (\<lambda>c. c \<noteq> CHR '':'') (rev s)))
      else None)"

definition strip_brackets :: "string \<Rightarrow> string" where
  "strip_brackets a =
     (if a \<noteq> [] \<and> hd a = CHR ''['' \<and> last a = CHR '']'' then tl (butlast a) else a)"

definition inet_parts :: "string \<Rightarrow> string option \<times> string option \<times> int" where
  "inet_parts address =
     (case split_last_colon address of
        Some (addr, port) \<Rightarrow> (Some (strip_brackets addr), Some port, atoi port)
      | None \<Rightarrow>
          if all_digits address then (None, Some address, atoi address) else (None, None, 0))"

text \<open>The message about port 0 is formatted only when its level is logged.\<close>

definition pmf_socket_af_inet_listening_socket ::
  "sock_sys \<Rightarrow> worker_pool \<Rightarrow> sock_state \<Rightarrow> (unit, int \<times> sock_state) outcome" where
  "pmf_socket_af_inet_listening_socket sys wp st =
     (case wp_config wp of None \<Rightarrow> Undef NullDeref
      | Some c \<Rightarrow>
          (case wpc_listen_address c of None \<Rightarrow> Undef NullDeref
           | Some address \<Rightarrow>
               if \<not> sys_dup_address sys st then Undef NullDeref
               else (case inet_parts address of (addr, port_str, port) \<Rightarrow>
                  if port = 0 then
                    (if port_str = None \<and> PLOG_ERROR \<ge> plog_level (sk_log st) then Undef NullDeref
                     else Ok (- 1, st))
                  else
                    (case (addr, port_str) of
                       (Some a, Some p) \<Rightarrow> pmf_socket_af_inet_socket_by_addr sys wp a p st
                     | (None, Some p) \<Rightarrow>
                         (case plog_set_level PLOG_ALERT (sk_log st) of (old_level, lg) \<Rightarrow>
                            obind (pmf_socket_af_inet_socket_by_addr sys wp ''::'' p (st\<lparr>sk_log := lg\<rparr>))
                              (\<lambda>(sock, st).
                                let st = st\<lparr>sk_log := snd (plog_set_level old_level (sk_log st))\<rparr> in
                                if sock < 0
                                then pmf_socket_af_inet_socket_by_addr sys wp ''0.0.0.0'' p st
                                else Ok (sock, st)))
                     | (_, None) \<Rightarrow> Undef NullDeref))))"

definition pmf_socket_af_unix_listening_socket ::
  "sock_sys \<Rightarrow> worker_pool \<Rightarrow> sock_state \<Rightarrow> (unit, int \<times> sock_state) outcome" where
  "pmf_socket_af_unix_listening_socket sys wp st =
     (case wp_config wp of None \<Rightarrow> Undef NullDeref
      | Some c \<Rightarrow>
          (case wpc_listen_address c of None \<Rightarrow> Undef NullDeref
           | Some path \<Rightarrow> pmf_sockets_get_listening_socket sys wp (Sa_unix path) st))"

text \<open>The current and the largest length of the queue; \<open>None\<close>: the call returns \<open>-1\<close>.\<close>

definition pmf_socket_get_listening_queue ::
  "sock_sys \<Rightarrow> int \<Rightarrow> (32 word \<times> 32 word) option" where
  "pmf_socket_get_listening_queue sys sock =
     (case sys_tcp_info sys sock of
        None \<Rightarrow> None
      | Some (unacked, sacked) \<Rightarrow> if sacked = 0 then None else Some (unacked, sacked))"

subsection \<open>Start-up\<close>

text \<open>The new lengths of the queue go to the pool's scoreboard, if it has one.\<close>

definition store_queue_length :: "sock_sys \<Rightarrow> worker_pool \<Rightarrow> (unit, worker_pool) outcome" where
  "store_queue_length sys wp =
     (if wp_domain wp = Some PMF_AF_INET then
        (case pmf_socket_get_listening_queue sys (wp_listening_socket_fd wp) of
           None \<Rightarrow> Ok wp
         | Some (cur, mx) \<Rightarrow>
             let u = \<lparr>up_idle = - 1, up_active = - 1, up_lq = - 1, up_lq_len = to_int32 (uint mx),
                      up_requests = - 1, up_max_children_reached = - 1, up_slow_rq = 0,
                      up_action = PMF_SCOREBOARD_ACTION_SET\<rparr>
             in obind (pmf_scoreboard_update u None (map_option snd (wp_scoreboard wp))) (\<lambda>sb.
                  Ok (case (wp_scoreboard wp, sb) of
                        (Some (a, _), Some sb') \<Rightarrow> wp\<lparr>wp_scoreboard := Some (a, sb')\<rparr>
                      | _ \<Rightarrow> wp)))
      else Ok wp)"

text \<open>\<open>False\<close>: the function returns \<open>-1\<close> from inside the loop.\<close>

fun open_pool_sockets ::
  "sock_sys \<Rightarrow> worker_pool list \<Rightarrow> sock_state \<Rightarrow>
   (unit, bool \<times> worker_pool list \<times> sock_state) outcome" where
  "open_pool_sockets sys [] st = Ok (True, [], st)"
| "open_pool_sockets sys (wp # wps) st =
     obind
       (case wp_domain wp of
          Some PMF_AF_INET \<Rightarrow>
            obind (pmf_socket_af_inet_listening_socket sys wp st) (\<lambda>(fd, st).
              Ok (True, wp\<lparr>wp_listening_socket_fd := fd\<rparr>, st))
        | Some PMF_AF_UNIX \<Rightarrow>
            (case pmf_unix_resolve_socket_premissions (sys_unix sys) wp of (r, wp) \<Rightarrow>
               if 0 > r then Ok (False, wp, st)
               else obind (pmf_socket_af_unix_listening_socket sys wp st) (\<lambda>(fd, st).
                      Ok (True, wp\<lparr>wp_listening_socket_fd := fd\<rparr>, st)))
        | None \<Rightarrow> Ok (True, wp, st))
       (\<lambda>(go, wp, st).
          if \<not> go \<or> wp_listening_socket_fd wp = - 1 then Ok (False, wp # wps, st)
          else obind (store_queue_length sys wp) (\<lambda>wp.
                 obind (open_pool_sockets sys wps st) (\<lambda>(go, wps', st). Ok (go, wp # wps', st))))"

text \<open>
  Closing what nobody uses: \<open>i\<close> numbers the entry \<open>ls\<close> points to. An entry removed is
  replaced by the last one, so \<open>i\<close> stays.
\<close>

lemma remove_item_used_num:
  assumes "pmf_array_remove_item a n = Ok (r, a')" and "unat n < unat (used_num a)"
  shows "unat (used_num a') = unat (used_num a) - 1"
proof -
  have pos: "0 < used_num a" using assms(2) by (simp add: word_less_nat_alt)
  have "\<not> ucast n > used_num a - 1" using ucast_le_used [OF pos, of n] assms(2) by simp
  then have "used_num a' = used_num a - 1"
    using assms(1)
    by (auto simp: pmf_array_remove_item_def copy_member_def pmf_simps
        split: if_splits option.splits)
  then show ?thesis using unat_used_minus_1 [OF pos] by simp
qed

function close_unused ::
  "32 word \<Rightarrow> listening_socket pmf_array \<Rightarrow> sock_call list \<Rightarrow>
   (unit, listening_socket pmf_array \<times> sock_call list) outcome" where
  "close_unused i arr calls =
     (if \<not> unat i < unat (used_num arr) then Ok (arr, calls)
      else if unat i + 1 \<ge> 2 ^ 32 then Undef Diverges
      else
        (case arr_data arr of None \<Rightarrow> Undef NullDeref
         | Some d \<Rightarrow>
             if \<not> unat i < length d then Undef OutOfBounds
             else
               let ls = d ! unat i in
               if ls_refcount ls = 0 then
                 obind (pmf_array_remove_item arr i) (\<lambda>(r, arr').
                   close_unused i arr' (calls @ [Sock_close (ls_sock ls)]
                     @ (if ls_type ls = domain_value (Some PMF_AF_UNIX)
                        then [Sock_unlink (ls_key ls)] else [])))
               else close_unused (i + 1) arr calls))"
  by pat_completeness auto
termination
proof (relation "measure (\<lambda>(i, arr, calls). unat (used_num arr) - unat i)", goal_cases)
  case (2 i arr calls d ls x r arr')
  then show ?case using remove_item_used_num [of arr i r arr'] by auto
next
  case (3 i arr calls d ls)
  then have "unat (i + 1) = unat i + 1" by (simp add: unat_word_ariths)
  with 3 show ?case by simp
qed simp

declare close_unused.simps [simp del]

text \<open>
  \<open>pmf_sockets_init_main\<close>: \<open>Some (- 1)\<close> when a return statement runs, \<open>None\<close> when control
  reaches the end of the function, which has none there. \<open>data_ok\<close> is the allocation of the
  first ten entries; entries have 32 bytes.
\<close>

definition pmf_sockets_init_main ::
  "bool \<Rightarrow> sock_sys \<Rightarrow> worker_pool list \<Rightarrow> sock_state \<Rightarrow>
   (unit, int option \<times> worker_pool list \<times> sock_state) outcome" where
  "pmf_sockets_init_main data_ok sys pools st =
     (case pmf_array_init True data_ok zero_socket (sk_list st) (Some (sk_list st)) 32 10 of
        (False, arr) \<Rightarrow> Ok (Some (- 1), pools, st\<lparr>sk_list := the arr\<rparr>)
      | (True, arr) \<Rightarrow>
          obind (open_pool_sockets sys pools (st\<lparr>sk_list := the arr\<rparr>)) (\<lambda>(go, pools, st).
            if \<not> go then Ok (Some (- 1), pools, st)
            else obind (close_unused 0 (sk_list st) (sk_calls st)) (\<lambda>(arr, calls).
                   Ok (None, pools, st\<lparr>sk_list := arr, sk_calls := calls\<rparr>))))"

end
