(* ===== verification/Pmf_Sockets_Proofs.thy ===== *)
theory Pmf_Sockets_Proofs
  imports Pmf_Sockets
begin

text \<open>
  What holds of the listening sockets: sharing of one socket by equal addresses, what becomes
  of a second address, the discipline of file descriptors and umask of a creation, and the
  parsing of TCP addresses.
\<close>

subsection \<open>The table with one entry\<close>

definition table0 :: "listening_socket pmf_array" where
  "table0 = \<lparr>arr_data = Some (replicate 10 zero_socket), member_size = 32, used_num = 0, allocated_num = 10\<rparr>"

definition table1 :: "listening_socket \<Rightarrow> listening_socket pmf_array" where
  "table1 e = \<lparr>arr_data = Some (e # replicate 9 zero_socket), member_size = 32, used_num = 1, allocated_num = 10\<rparr>"

definition table2 :: "listening_socket \<Rightarrow> listening_socket pmf_array" where
  "table2 e = (table1 e)\<lparr>used_num := 2\<rparr>"

lemma table0_init:
  "pmf_array_init True True zero_socket a (Some a) 32 10 = (True, Some table0)"
  by (simp add: pmf_array_init_def table0_def)

lemma replicate_10: "replicate 10 x = x # replicate 9 x"
  by (simp add: eval_nat_numeral)

lemma replicate_9: "replicate 9 x = x # replicate 8 x"
  by (simp add: eval_nat_numeral)

lemma members_tables [simp]:
  "members table0 = []" "members (table1 e) = [e]" "members (table2 e) = [e, zero_socket]"
  by (simp_all add: members_def table0_def table1_def table2_def replicate_9)

lemma push_table0: "pmf_array_push ok junk table0 = (Some 0, table0\<lparr>used_num := 1\<rparr>)"
  by (simp add: pmf_array_push_def table0_def pmf_array_item_def Let_def)

lemma push_table1: "pmf_array_push ok junk (table1 e) = (None, table2 e)"
  by (simp add: pmf_array_push_def table1_def table2_def pmf_array_item_def Let_def)

lemma store_table0: "store_slot 0 e (table0\<lparr>used_num := 1\<rparr>) = Ok (table1 e)"
  by (simp add: store_slot_def table0_def table1_def replicate_10)

lemma store_table1: "store_slot 0 e' (table1 e) = Ok (table1 e')"
  by (simp add: store_slot_def table1_def)

definition new_entry :: "int \<Rightarrow> address_domain option \<Rightarrow> string \<Rightarrow> int \<Rightarrow> listening_socket" where
  "new_entry sock typ key n =
     \<lparr>ls_refcount = n, ls_sock = sock, ls_type = domain_value typ, ls_key = Some key\<rparr>"

text \<open>No key and no copy of a key fails to be allocated.\<close>

definition keys_allocated :: "sock_sys \<Rightarrow> bool" where
  "keys_allocated sys \<longleftrightarrow> (\<forall>op st. ha_key (sys_alloc sys op st) \<and> ha_dup (sys_alloc sys op st))"

lemma keys_allocated [simp]:
  "keys_allocated sys \<Longrightarrow> ha_key (sys_alloc sys op st)"
  "keys_allocated sys \<Longrightarrow> ha_dup (sys_alloc sys op st)"
  by (simp_all add: keys_allocated_def)

lemma get_first:
  assumes "keys_allocated sys" and "sockaddr_key True sa (wp_domain wp) = Ok (Some key)" and "sk_list st = table0"
    and "pmf_sockets_new_listening_socket (sys_env sys (sk_tries st)) wp sa = Ok (sock, calls)"
  shows "pmf_sockets_get_listening_socket sys wp sa st
    = Ok (sock, st\<lparr>sk_list := table1 (new_entry sock (wp_domain wp) key 1), sk_tries := sk_tries st + 1,
        sk_calls := sk_calls st @ calls\<rparr>)"
  using assms
  by (simp add: pmf_sockets_get_listening_socket_def pmf_sockets_hash_op_def push_table0 store_table0
      new_entry_def)

lemma get_again:
  assumes "keys_allocated sys" and "sockaddr_key True sa (wp_domain wp) = Ok (Some key)"
    and "sk_list st = table1 (new_entry sock (wp_domain wp) key n)" and "0 \<le> sock" and "int32 (n + 1)"
  shows "pmf_sockets_get_listening_socket sys wp sa st
    = Ok (sock, st\<lparr>sk_list := table1 (new_entry sock (wp_domain wp) key (n + 1))\<rparr>)"
  using assms
  by (simp add: pmf_sockets_get_listening_socket_def pmf_sockets_hash_op_def new_entry_def store_table1
      checked32_def)

lemma get_other:
  assumes "keys_allocated sys" and "sockaddr_key True sa (wp_domain wp) = Ok (Some key)" and "sk_list st = table1 e"
    and "ls_key e = Some k" and "k \<noteq> key"
    and "pmf_sockets_new_listening_socket (sys_env sys (sk_tries st)) wp sa = Ok (sock, calls)"
  shows "pmf_sockets_get_listening_socket sys wp sa st
    = Ok (sock, st\<lparr>sk_list := table2 e, sk_tries := sk_tries st + 1, sk_calls := sk_calls st @ calls\<rparr>)"
  using assms
  by (simp add: pmf_sockets_get_listening_socket_def pmf_sockets_hash_op_def push_table1)

lemma get_third:
  assumes "keys_allocated sys" and "sockaddr_key True sa (wp_domain wp) = Ok (Some key)" and "sk_list st = table2 e"
    and "ls_key e = Some k" and "k \<noteq> key"
  shows "pmf_sockets_get_listening_socket sys wp sa st = Undef NullDeref"
  using assms
  by (simp add: pmf_sockets_get_listening_socket_def pmf_sockets_hash_op_def zero_socket_def)

lemma close_table1:
  assumes "ls_refcount e \<noteq> 0"
  shows "close_unused 0 (table1 e) calls = Ok (table1 e, calls)"
  using assms by (subst close_unused.simps, subst close_unused.simps) (simp add: table1_def)

lemma close_table2:
  assumes "ls_refcount e \<noteq> 0"
  shows "close_unused 0 (table2 e) calls = Ok (table1 e, calls @ [Sock_close 0])"
proof -
  have rem: "pmf_array_remove_item (table2 e) 1 = Ok (- 1, table1 e)"
    by (simp add: pmf_array_remove_item_def table2_def table1_def)
  have done1: "close_unused 1 (table1 e) c = Ok (table1 e, c)" for c
    by (subst close_unused.simps) (simp add: table1_def)
  have "close_unused 1 (table2 e) calls = Ok (table1 e, calls @ [Sock_close 0])"
    using rem done1
    by (subst close_unused.simps) (simp add: table2_def table1_def zero_socket_def domain_value_def)
  then show ?thesis
    using assms by (subst close_unused.simps) (simp add: table2_def table1_def)
qed

subsection \<open>Properties\<close>

text \<open>\<open>n\<close> requests for the same address, one after the other.\<close>

fun get_many ::
  "sock_sys \<Rightarrow> worker_pool \<Rightarrow> sockaddr \<Rightarrow> nat \<Rightarrow> sock_state \<Rightarrow> (unit, int list \<times> sock_state) outcome" where
  "get_many sys wp sa 0 st = Ok ([], st)"
| "get_many sys wp sa (Suc n) st =
     obind (pmf_sockets_get_listening_socket sys wp sa st) (\<lambda>(s, st).
       obind (get_many sys wp sa n st) (\<lambda>(ss, st). Ok (s # ss, st)))"

lemma get_many_again:
  assumes "keys_allocated sys" and "sockaddr_key True sa (wp_domain wp) = Ok (Some key)"
    and "sk_list st = table1 (new_entry sock (wp_domain wp) key m)" and "0 \<le> sock"
    and "0 \<le> m" and "m + int n < 2147483648"
  shows "get_many sys wp sa n st = Ok (replicate n sock,
    st\<lparr>sk_list := table1 (new_entry sock (wp_domain wp) key (m + int n))\<rparr>)"
  using assms
proof (induction n arbitrary: st m)
  case (Suc n)
  have "int32 (m + 1)" using Suc.prems by (simp add: int32_def)
  from get_again [OF Suc.prems(1,2,3,4) this] show ?case
    using Suc.IH [of "st\<lparr>sk_list := table1 (new_entry sock (wp_domain wp) key (m + 1))\<rparr>" "m + 1"] Suc.prems
    by (simp add: algebra_simps)
qed simp

text \<open>
  C16: Pools that listen on the same address share one socket: when no key fails to be
  allocated, of any number of requests on a
  new table only the first creates a socket, all get its descriptor, the table ends with one
  entry counting them, and the closing of unused sockets leaves it open.
\<close>

theorem equal_addresses_share_socket:
  assumes mem: "keys_allocated sys"
    and key: "sockaddr_key True sa (wp_domain wp) = Ok (Some key)" and st: "sk_list st = table0"
    and new: "pmf_sockets_new_listening_socket (sys_env sys (sk_tries st)) wp sa = Ok (sock, calls)"
    and sock: "0 \<le> sock" and n: "n < 2147483647"
  shows "\<exists>st'. get_many sys wp sa (Suc n) st = Ok (replicate (Suc n) sock, st')
    \<and> sk_tries st' = sk_tries st + 1 \<and> sk_calls st' = sk_calls st @ calls
    \<and> members (sk_list st') = [new_entry sock (wp_domain wp) key (int (Suc n))]
    \<and> close_unused 0 (sk_list st') c = Ok (sk_list st', c)"
proof -
  let ?st = "st\<lparr>sk_list := table1 (new_entry sock (wp_domain wp) key 1), sk_tries := sk_tries st + 1,
        sk_calls := sk_calls st @ calls\<rparr>"
  have "get_many sys wp sa n ?st = Ok (replicate n sock,
      ?st\<lparr>sk_list := table1 (new_entry sock (wp_domain wp) key (1 + int n))\<rparr>)"
    using n by (intro get_many_again [OF mem key _ sock]) simp_all
  moreover have "ls_refcount (new_entry sock (wp_domain wp) key (1 + int n)) \<noteq> 0"
    by (simp add: new_entry_def)
  ultimately show ?thesis
    using get_first [OF mem key st new] by (simp add: close_table1)
qed

definition sample_sock_env :: "int \<Rightarrow> sock_env" where
  "sample_sock_env fd = \<lparr>se_socket = fd, se_setsockopt = 0, se_probe_socket = 50,
     se_probe_connect = - 1, se_old_umask = 18, se_bind = 0, se_chown = (\<lambda>p u g. 0), se_listen = 0\<rparr>"

definition sample_sys :: sock_sys where
  "sample_sys = \<lparr>sys_env = (\<lambda>n. sample_sock_env (5 + int n)),
     sys_getaddrinfo = (\<lambda>a p. Some [Sa_inet a (atoi p)]), sys_tcp_info = (\<lambda>s. None),
     sys_alloc = (\<lambda>op st. \<lparr>ha_key = True, ha_dup = True, ha_realloc = True, ha_junk = (\<lambda>n. zero_socket)\<rparr>),
     sys_dup_address = (\<lambda>st. True), sys_unix = sample_env\<rparr>"

lemma sample_keys: "keys_allocated sample_sys"
  by (simp add: keys_allocated_def sample_sys_def)

definition sample_sock_state :: sock_state where
  "sample_sock_state = \<lparr>sk_list = table0, sk_tries = 0, sk_log = plog_init, sk_calls = []\<rparr>"

lemma sample_new:
  "pmf_sockets_new_listening_socket (sys_env sample_sys n) (sample_pool\<lparr>wp_domain := Some PMF_AF_INET\<rparr>) sa
    = Ok (5 + int n, [Socket, Setsockopt (5 + int n), Bind (5 + int n), Listen (5 + int n) 511])"
  by (simp add: pmf_sockets_new_listening_socket_def sample_sys_def sample_sock_env_def sample_pool_defs Let_def)

lemma sample_key:
  "sockaddr_key True (Sa_inet a p) (wp_domain (sample_pool\<lparr>wp_domain := Some PMF_AF_INET\<rparr>))
    = Ok (Some (a @ '':'' @ show_int p))"
  by (simp add: sockaddr_key_def pmf_get_in_addr_def pmf_get_in_port_def)

theorem equal_addresses_share_socket_witness:
  "\<exists>st'. get_many sample_sys (sample_pool\<lparr>wp_domain := Some PMF_AF_INET\<rparr>) (Sa_inet ''::'' 80) 3
       sample_sock_state = Ok ([5, 5, 5], st') \<and> sk_tries st' = 1"
proof -
  have st: "sk_list sample_sock_state = table0" "sk_tries sample_sock_state = 0"
    by (simp_all add: sample_sock_state_def)
  have three: "Suc 2 = 3" "replicate 3 (5 :: int) = [5, 5, 5]" by (simp_all add: eval_nat_numeral)
  have new: "pmf_sockets_new_listening_socket (sys_env sample_sys (sk_tries sample_sock_state))
      (sample_pool\<lparr>wp_domain := Some PMF_AF_INET\<rparr>) (Sa_inet ''::'' 80)
      = Ok (5, [Socket, Setsockopt 5, Bind 5, Listen 5 511])"
    using sample_new [of 0 "Sa_inet ''::'' 80"] unfolding st(2) by simp
  have "(0 :: int) \<le> 5" "(2 :: nat) < 2147483647" by simp_all
  from equal_addresses_share_socket [OF sample_keys sample_key st(1) new this, of "[]"] show ?thesis
    unfolding three st(2) by auto
qed

text \<open>
  C35: Even when no key fails to be allocated, the table loses the socket that a second,
  different address gets: the push returns a null pointer after counting the entry, which stays
  zero. The closing of unused sockets then closes descriptor 0, and a third address, before
  that, dereferences the null key.
\<close>

theorem second_address_is_lost:
  assumes mem: "keys_allocated sys"
    and k1: "sockaddr_key True sa1 (wp_domain wp1) = Ok (Some key1)"
    and k2: "sockaddr_key True sa2 (wp_domain wp2) = Ok (Some key2)"
    and k3: "sockaddr_key True sa3 (wp_domain wp3) = Ok (Some key3)"
    and ne: "key2 \<noteq> key1" "key3 \<noteq> key1" and st: "sk_list st = table0"
    and new1: "pmf_sockets_new_listening_socket (sys_env sys (sk_tries st)) wp1 sa1 = Ok (s1, calls1)"
    and new2: "pmf_sockets_new_listening_socket (sys_env sys (Suc (sk_tries st))) wp2 sa2 = Ok (s2, calls2)"
  shows "\<exists>st1 st2. pmf_sockets_get_listening_socket sys wp1 sa1 st = Ok (s1, st1)
    \<and> pmf_sockets_get_listening_socket sys wp2 sa2 st1 = Ok (s2, st2)
    \<and> members (sk_list st2) = [new_entry s1 (wp_domain wp1) key1 1, zero_socket]
    \<and> (\<exists>arr. close_unused 0 (sk_list st2) (sk_calls st2)
           = Ok (arr, sk_calls st @ calls1 @ calls2 @ [Sock_close 0])
         \<and> members arr = [new_entry s1 (wp_domain wp1) key1 1])
    \<and> pmf_sockets_get_listening_socket sys wp3 sa3 st2 = Undef NullDeref"
proof -
  let ?e = "new_entry s1 (wp_domain wp1) key1 1"
  let ?st1 = "st\<lparr>sk_list := table1 ?e, sk_tries := sk_tries st + 1, sk_calls := sk_calls st @ calls1\<rparr>"
  let ?st2 = "?st1\<lparr>sk_list := table2 ?e, sk_tries := sk_tries ?st1 + 1, sk_calls := sk_calls ?st1 @ calls2\<rparr>"
  have e: "ls_key ?e = Some key1" "ls_refcount ?e \<noteq> 0" by (simp_all add: new_entry_def)
  have "pmf_sockets_get_listening_socket sys wp1 sa1 st = Ok (s1, ?st1)"
    by (rule get_first [OF mem k1 st new1])
  moreover have "pmf_sockets_get_listening_socket sys wp2 sa2 ?st1 = Ok (s2, ?st2)"
    using new2 ne(1) by (intro get_other [OF mem k2 _ e(1)]) auto
  moreover have "pmf_sockets_get_listening_socket sys wp3 sa3 ?st2 = Undef NullDeref"
    using ne(2) by (intro get_third [OF mem k3 _ e(1)]) auto
  moreover have "close_unused 0 (sk_list ?st2) (sk_calls ?st2)
      = Ok (table1 ?e, sk_calls st @ calls1 @ calls2 @ [Sock_close 0])"
    using close_table2 [OF e(2)] by simp
  ultimately show ?thesis by (intro exI [of _ ?st1] exI [of _ ?st2]) simp
qed

theorem second_address_is_lost_witness:
  "\<exists>st1 st2 arr. pmf_sockets_get_listening_socket sample_sys (sample_pool\<lparr>wp_domain := Some PMF_AF_INET\<rparr>)
        (Sa_inet ''::'' 80) sample_sock_state = Ok (5, st1)
    \<and> pmf_sockets_get_listening_socket sample_sys (sample_pool\<lparr>wp_domain := Some PMF_AF_INET\<rparr>)
        (Sa_inet ''::'' 81) st1 = Ok (6, st2)
    \<and> close_unused 0 (sk_list st2) (sk_calls st2) = Ok (arr,
        [Socket, Setsockopt 5, Bind 5, Listen 5 511, Socket, Setsockopt 6, Bind 6, Listen 6 511, Sock_close 0])"
proof -
  have ne: "''::'' @ '':'' @ show_int 81 \<noteq> ''::'' @ '':'' @ show_int 80"
    "''::'' @ '':'' @ show_int 82 \<noteq> ''::'' @ '':'' @ show_int 80" by code_simp+
  have st: "sk_list sample_sock_state = table0" by (simp add: sample_sock_state_def)
  show ?thesis
    using second_address_is_lost [OF sample_keys sample_key sample_key sample_key ne st sample_new sample_new]
    by (fastforce simp: sample_sock_state_def)
qed

text \<open>
  Allocation failures of the table. Without memory for the key of a new socket, the socket is
  returned but not recorded, so the next request for its address opens another one. When only
  the copy of the key fails, the entry is recorded with a null key, which the next request, for
  whatever address, dereferences.
\<close>

lemma inet_key:
  "sockaddr_key ok (Sa_inet a p) (Some PMF_AF_INET) = Ok (if ok then Some (a @ '':'' @ show_int p) else None)"
  by (simp add: sockaddr_key_def pmf_get_in_addr_def pmf_get_in_port_def)

theorem key_allocation_failures:
  assumes "sk_list st = table0" and "wp_domain wp = Some PMF_AF_INET"
    and "pmf_sockets_new_listening_socket (sys_env sys (sk_tries st)) wp (Sa_inet a p) = Ok (sock, calls)"
  shows "\<exists>st'. pmf_sockets_get_listening_socket sys wp (Sa_inet a p) st = Ok (sock, st')
    \<and> sk_calls st' = sk_calls st @ calls
    \<and> (if \<not> ha_key (sys_alloc sys PMF_STORE_USE_SOCKET st) then sk_list st' = table0
       else if \<not> ha_dup (sys_alloc sys PMF_STORE_USE_SOCKET st) \<and> ha_key (sys_alloc sys PMF_GET_USE_SOCKET st')
       then \<forall>a' p'. pmf_sockets_get_listening_socket sys wp (Sa_inet a' p') st' = Undef NullDeref
       else True)"
  using assms
  by (auto simp: pmf_sockets_get_listening_socket_def pmf_sockets_hash_op_def inet_key push_table0 store_table0)

theorem key_allocation_failures_witness:
  "\<exists>st'. pmf_sockets_get_listening_socket (sample_sys\<lparr>sys_alloc := \<lambda>op st. \<lparr>ha_key = True, ha_dup = False,
        ha_realloc = True, ha_junk = (\<lambda>n. zero_socket)\<rparr>\<rparr>) (sample_pool\<lparr>wp_domain := Some PMF_AF_INET\<rparr>)
        (Sa_inet ''::'' 80) sample_sock_state = Ok (5, st')
    \<and> pmf_sockets_get_listening_socket (sample_sys\<lparr>sys_alloc := \<lambda>op st. \<lparr>ha_key = True, ha_dup = False,
        ha_realloc = True, ha_junk = (\<lambda>n. zero_socket)\<rparr>\<rparr>) (sample_pool\<lparr>wp_domain := Some PMF_AF_INET\<rparr>)
        (Sa_inet ''::'' 80) st' = Undef NullDeref"
proof -
  let ?sys = "sample_sys\<lparr>sys_alloc := \<lambda>op st. \<lparr>ha_key = True, ha_dup = False,
        ha_realloc = True, ha_junk = (\<lambda>n. zero_socket)\<rparr>\<rparr>"
  have "pmf_sockets_new_listening_socket (sys_env ?sys (sk_tries sample_sock_state))
      (sample_pool\<lparr>wp_domain := Some PMF_AF_INET\<rparr>) (Sa_inet ''::'' 80)
      = Ok (5, [Socket, Setsockopt 5, Bind 5, Listen 5 511])"
    using sample_new [of 0 "Sa_inet ''::'' 80"] by (simp add: sample_sock_state_def)
  from key_allocation_failures [OF _ _ this] show ?thesis
    by (auto simp: sample_sock_state_def)
qed

definition umask_balanced :: "int \<Rightarrow> sock_call list \<Rightarrow> bool" where
  "umask_balanced old calls \<longleftrightarrow>
     (let us = filter (\<lambda>c. case c of Umask _ \<Rightarrow> True | _ \<Rightarrow> False) calls in us \<noteq> [] \<longrightarrow> last us = Umask old)"

text \<open>
  C17: Creating a listening socket leaks nothing: whatever call fails, a failing creation ends
  by closing the socket it opened, a successful one has not closed it; the umask is left as it
  was found; the probing socket of a Unix address is closed.
\<close>

theorem new_socket_no_leak:
  assumes "pmf_sockets_new_listening_socket env wp sa = Ok (r, calls)" and "0 \<le> se_socket env"
    and "se_probe_socket env \<noteq> se_socket env"
  shows "(r = - 1 \<or> r = se_socket env)
    \<and> (if r = - 1 then last calls = Sock_close (se_socket env) else Sock_close (se_socket env) \<notin> set calls)
    \<and> umask_balanced (se_old_umask env) calls
    \<and> (if wp_domain wp = Some PMF_AF_UNIX \<and> 0 \<le> se_probe_socket env
       then Sock_close (se_probe_socket env) \<in> set calls else True)"
proof -
  obtain c where c: "wp_config wp = Some c"
    using assms(1) by (auto simp: pmf_sockets_new_listening_socket_def split: option.splits)
  show ?thesis
  proof (cases "wp_domain wp = Some PMF_AF_UNIX")
    case False
    then show ?thesis
      using assms c
      by (auto simp: pmf_sockets_new_listening_socket_def Let_def umask_balanced_def split: if_splits)
  next
    case True
    obtain path where sa: "sa = Sa_unix path"
      using assms True c
      by (cases sa) (auto simp: pmf_sockets_new_listening_socket_def Let_def sun_path_def
          pmf_socket_unix_test_connect_def)
    then show ?thesis
      using assms c True
      by (auto simp: pmf_sockets_new_listening_socket_def Let_def umask_balanced_def sun_path_def
          pmf_socket_unix_test_connect_def pmf_simps split: if_splits)
  qed
qed

theorem new_socket_no_leak_witness:
  "\<exists>calls. pmf_sockets_new_listening_socket ((sample_sock_env 9)\<lparr>se_bind := - 1\<rparr>)
       (sample_pool\<lparr>wp_domain := Some PMF_AF_UNIX\<rparr>) (Sa_unix ''/run/pmf.sock'') = Ok (- 1, calls)
     \<and> last calls = Sock_close 9 \<and> umask_balanced 18 calls"
proof -
  let ?env = "(sample_sock_env 9)\<lparr>se_bind := - 1\<rparr>"
  obtain calls where run: "pmf_sockets_new_listening_socket ?env
      (sample_pool\<lparr>wp_domain := Some PMF_AF_UNIX\<rparr>) (Sa_unix ''/run/pmf.sock'') = Ok (- 1, calls)"
    by (simp add: pmf_sockets_new_listening_socket_def sample_sock_env_def sample_pool_defs Let_def
        pmf_socket_unix_test_connect_def sun_path_def sun_path_size_def)
  have "0 \<le> se_socket ?env" "se_probe_socket ?env \<noteq> se_socket ?env" "se_socket ?env = 9"
      "se_old_umask ?env = 18"
    by (simp_all add: sample_sock_env_def)
  with new_socket_no_leak [OF run this(1,2)] run show ?thesis by auto
qed

lemma split_last_colon_parts:
  "CHR '':'' \<notin> set p \<Longrightarrow> split_last_colon (h @ CHR '':'' # p) = Some (h, p)"
proof -
  assume p: "CHR '':'' \<notin> set p"
  then have "takeWhile (\<lambda>c. c \<noteq> CHR '':'') (rev p @ CHR '':'' # rev h) = rev p"
    and "dropWhile (\<lambda>c. c \<noteq> CHR '':'') (rev p @ CHR '':'' # rev h) = CHR '':'' # rev h"
    by (auto simp: takeWhile_tail dropWhile_append3)
  then show ?thesis by (simp add: split_last_colon_def)
qed

lemma colon_not_digit: "all_digits p \<Longrightarrow> CHR '':'' \<notin> set p"
  by (auto simp: all_digits_def list_all_iff c_isdigit_def)

text \<open>
  C31: An address \<open>host:port\<close> or \<open>[host]:port\<close>, whatever colons the host has, is a TCP address
  and is taken apart into the host without its brackets and the port; a bare port number has no
  host; both with the number printed.
\<close>

theorem listen_address_parsed:
  assumes "0 \<le> port" and "int32 port"
  shows "pmf_sockets_domain_from_address (host @ '':'' @ show_int port) = PMF_AF_INET
    \<and> pmf_sockets_domain_from_address (show_int port) = PMF_AF_INET
    \<and> inet_parts (''['' @ host @ '']:'' @ show_int port) = (Some host, Some (show_int port), port)
    \<and> (if host \<noteq> [] \<and> hd host = CHR ''['' then True
       else inet_parts (host @ '':'' @ show_int port) = (Some host, Some (show_int port), port))
    \<and> inet_parts (show_int port) = (None, Some (show_int port), port)"
proof -
  have digits: "all_digits (show_int port)"
    using assms(1) by (simp add: show_int_def all_digits_show_nat)
  note colon = colon_not_digit [OF digits]
  have atoi: "atoi (show_int port) = port" by (rule atoi_show_int [OF assms])
  have "split_last_colon ((''['' @ host @ '']'') @ CHR '':'' # show_int port)
      = Some (''['' @ host @ '']'', show_int port)"
    by (rule split_last_colon_parts [OF colon])
  moreover have "split_last_colon (host @ CHR '':'' # show_int port) = Some (host, show_int port)"
    by (rule split_last_colon_parts [OF colon])
  moreover have "split_last_colon (show_int port) = None" using colon by (simp add: split_last_colon_def)
  ultimately show ?thesis
    using digits atoi
    by (simp add: pmf_sockets_domain_from_address_def inet_parts_def strip_brackets_def)
qed

theorem listen_address_parsed_witness:
  "inet_parts ''[fe80::1]:80'' = (Some ''fe80::1'', Some ''80'', 80)"
proof -
  have "show_int 80 = ''80''" by code_simp
  then show ?thesis
    using listen_address_parsed [of 80 "''fe80::1''"] by (simp add: int32_def)
qed

end
