(* ===== verification/Pmf_Iniparser_Lines.thy ===== *)
theory Pmf_Iniparser_Lines
  imports Pmf_Iniparser
begin

text \<open>
  What the line parser and the loop body of the ini loader do: buffer bounds, independence of
  what earlier lines left in the key and value buffers, and the effect of one logical line on
  the dictionary, stated on its entries.
\<close>

subsection \<open>Stripping\<close>

lemma length_rstrip: "length (rstrip s) \<le> length s"
  unfolding rstrip_def by (metis length_dropWhile_le length_rev)

lemma length_strstrip: "length (strstrip s) \<le> length s"
  unfolding strstrip_def by (meson length_dropWhile_le length_rstrip order_trans)

lemma rstrip_snoc_space: "c_isspace c \<Longrightarrow> rstrip (s @ [c]) = rstrip s"
  by (simp add: rstrip_def)

lemma rstrip_snoc: "\<not> c_isspace c \<Longrightarrow> rstrip (s @ [c]) = s @ [c]"
  by (simp add: rstrip_def)

lemma rstrip_Nil [simp]: "rstrip [] = []"
  by (simp add: rstrip_def)

lemma NEWLINE_space [simp]: "c_isspace NEWLINE"
  by (simp add: c_isspace_def NEWLINE_def)

lemma BACKSLASH_not_space [simp]: "\<not> c_isspace BACKSLASH"
  by (simp add: c_isspace_def BACKSLASH_def)

lemma set_rstrip: "set (rstrip s) \<subseteq> set s"
  unfolding rstrip_def by (metis set_dropWhileD set_rev subsetI)

lemma length_clean_name: "length (clean_name len k) \<le> length k"
  using length_strstrip [of k]
  by (auto simp: clean_name_def strlwc_def min_def split: option.splits)

subsection \<open>Scanning\<close>

lemma length_dropWhile_less: "takeWhile p s \<noteq> [] \<Longrightarrow> length (dropWhile p s) \<le> length s"
  by (rule length_dropWhile_le)

lemma sscanf_lengths: "t \<in> set (sscanf ds s) \<Longrightarrow> length t \<le> length s"
proof (induction ds s rule: sscanf.induct)
  case (2 p ds s)
  then show ?case
    using length_takeWhile_le [of p s] length_dropWhile_le [of p s]
    by (auto split: if_splits)
next
  case (3 ds s)
  then show ?case using length_dropWhile_le [of c_isspace s] by auto
qed (auto split: list.splits if_splits)

lemma b_section_store_scan [simp]: "b_section (store_scan vs b) = b_section b"
  by (auto simp: store_scan_def split: list.splits)

lemma store_scan_two:
  "length vs = 2 \<Longrightarrow> store_scan vs b = b\<lparr>b_key := vs ! 0, b_value := vs ! 1\<rparr>"
  by (auto simp: store_scan_def numeral_2_eq_2 length_Suc_conv)

subsection \<open>The meaning of a logical line\<close>

datatype ini_item = No_item | Section_item string | Entry_item string string | Bad_item

definition ini_item :: "string \<Rightarrow> string \<Rightarrow> ini_item" where
  "ini_item sec line =
     (case iniparser_line True line \<lparr>b_section = sec, b_key = [], b_value = []\<rparr> of (sta, b) \<Rightarrow>
        if sta = LINE_SECTION then Section_item (b_section b)
        else if sta = LINE_VALUE then Entry_item (b_key b) (b_value b)
        else if sta = LINE_ERROR then Bad_item else No_item)"

text \<open>
  Status, section and (for a value line) key and value depend on the line and the current
  section only.
\<close>

lemma iniparser_line_item:
  "case iniparser_line True line b of (sta, b') \<Rightarrow>
     (sta = LINE_SECTION \<and> ini_item (b_section b) line = Section_item (b_section b'))
   \<or> (sta = LINE_VALUE \<and> ini_item (b_section b) line = Entry_item (b_key b') (b_value b')
        \<and> b_section b' = b_section b)
   \<or> (sta = LINE_ERROR \<and> ini_item (b_section b) line = Bad_item \<and> b_section b' = b_section b)
   \<or> (sta \<in> {LINE_EMPTY, LINE_COMMENT} \<and> ini_item (b_section b) line = No_item \<and> b' = b)"
  unfolding ini_item_def iniparser_line_def Let_def
  by (simp add: store_scan_two cong: list.case_cong)

lemma ini_item_lengths:
  "(case ini_item sec line of
      Section_item s \<Rightarrow> length s \<le> max (length sec) (length line)
    | Entry_item k v \<Rightarrow> length k \<le> length line
    | _ \<Rightarrow> True)"
proof -
  let ?l = "strstrip line"
  have scan: "t \<in> set (sscanf ds ?l) \<Longrightarrow> length t \<le> length line" for t ds
    using sscanf_lengths [of t ds ?l] length_strstrip [of line] by linarith
  have two: "length (sscanf ds ?l) = 2 \<Longrightarrow> length (clean_name n (sscanf ds ?l ! 0)) \<le> length line"
    for n ds
    using scan [of "sscanf ds ?l ! 0" ds] length_clean_name [of n "sscanf ds ?l ! 0"] by force
  have sec: "length (clean_name n (case sscanf ds ?l of [] \<Rightarrow> sec | t # _ \<Rightarrow> t))
      \<le> max (length sec) (length line)" for n ds
    using length_clean_name [of n sec] scan [of "hd (sscanf ds ?l)" ds]
      length_clean_name [of n "hd (sscanf ds ?l)"]
    by (cases "sscanf ds ?l") auto
  show ?thesis
    unfolding ini_item_def iniparser_line_def Let_def
    by (auto simp: store_scan_two two sec cong: list.case_cong)
qed

subsection \<open>The switch of the loop\<close>

lemma length_dict_entries: "dict_wf d \<Longrightarrow> int (length (dict_entries d)) = d_n d"
proof -
  assume "dict_wf d"
  then have n: "d_n d = int (used_slots (d_key d))" and len: "length (d_val d) = length (d_key d)"
    by (simp_all add: dict_wf_def)
  have "length (filter (\<lambda>(k, v). k \<noteq> None) (zip ks vs)) = used_slots ks"
    if "length vs = length ks" for ks vs :: "string option list"
    using that by (induction vs ks rule: list_induct2) (auto simp: used_slots_def)
  with n len show ?thesis by (simp add: dict_entries_def)
qed

lemma length_alist_update: "length (AList.update k v es) \<le> length es + 1"
  by (induction es) auto

text \<open>The loader's state is in order: its dictionary is packed and has room for more.\<close>

definition load_ok :: "nat \<Rightarrow> ini_state \<Rightarrow> dictionary \<Rightarrow> bool" where
  "load_ok left st d \<longleftrightarrow> is_dict st = Some d \<and> dict_wf d \<and> dict_packed d
     \<and> d_n d + int left < 2147483647
     \<and> length (b_section (is_buffers st)) < ASCIILINESZ"

text \<open>What a logical line does to the section and the entries.\<close>

fun item_section :: "ini_item \<Rightarrow> string \<Rightarrow> string" where
  "item_section (Section_item s) sec = s"
| "item_section _ sec = sec"

fun item_entries ::
  "ini_item \<Rightarrow> string \<Rightarrow> (string \<times> string option) list \<Rightarrow> (string \<times> string option) list" where
  "item_entries (Section_item s) sec es = AList.update s None es"
| "item_entries (Entry_item k v) sec es = AList.update (sec @ '':'' @ k) (Some v) es"
| "item_entries _ sec es = es"

definition item_errs :: "ini_item \<Rightarrow> nat" where
  "item_errs it = (if it = Bad_item then 1 else 0)"

text \<open>The two switch arms that set an entry.\<close>

lemma dispatch_set:
  assumes ok: "load_ok (Suc left) st d" and sec: "length (b_section b) < ASCIILINESZ"
  obtains d' where "obind (dictionary_set all_alloc (Some d) (Some k) v)
      (\<lambda>(r, dp). Ok (r, st\<lparr>is_buffers := b, is_dict := dp\<rparr>))
      = Ok (0, st\<lparr>is_buffers := b, is_dict := Some d'\<rparr>)"
    and "load_ok left (st\<lparr>is_buffers := b, is_dict := Some d'\<rparr>) d'"
    and "dict_entries d' = AList.update k v (dict_entries d)"
proof -
  from ok have d: "dict_wf d" "dict_packed d" "dict_small d" "d_n d + int (Suc left) < 2147483647"
    by (simp_all add: load_ok_def dict_small_def)
  obtain d' where d': "dictionary_set all_alloc (Some d) (Some k) v = Ok (0, Some d')"
      "dict_wf d'" "dict_packed d'" "dict_entries d' = AList.update k v (dict_entries d)"
    by (rule dictionary_set_packed [OF d(1-3)])
  have "d_n d' \<le> d_n d + 1"
    using length_dict_entries [OF d'(2)] length_dict_entries [OF d(1)]
      length_alist_update [of k v "dict_entries d"] unfolding d'(4) by linarith
  then have "load_ok left (st\<lparr>is_buffers := b, is_dict := Some d'\<rparr>) d'"
    using d'(2,3) d(4) sec by (simp add: load_ok_def)
  with that d'(1,4) show thesis by simp
qed

lemma ini_dispatch_effect:
  assumes ok: "load_ok (Suc left) st d" and len: "length line < ASCIILINESZ"
  obtains st' d' where "ini_dispatch all_alloc line st = Ok (0, st')"
    and "load_ok left st' d'"
    and "b_section (is_buffers st')
       = item_section (ini_item (b_section (is_buffers st)) line) (b_section (is_buffers st))"
    and "dict_entries d' = item_entries (ini_item (b_section (is_buffers st)) line)
           (b_section (is_buffers st)) (dict_entries d)"
    and "is_errs st' = is_errs st + item_errs (ini_item (b_section (is_buffers st)) line)"
    and "is_msgs st' = is_msgs st
       @ (if ini_item (b_section (is_buffers st)) line = Bad_item
          then [Syntax_error (is_lineno st) line] else [])"
proof -
  let ?sec = "b_section (is_buffers st)"
  let ?it = "ini_item ?sec line"
  note reached = that
  from ok have d: "is_dict st = Some d" "length ?sec < ASCIILINESZ" by (simp_all add: load_ok_def)
  obtain sta b where il: "iniparser_line True line (is_buffers st) = (sta, b)"
    by (cases "iniparser_line True line (is_buffers st)")
  note item = iniparser_line_item [where line = line and b = "is_buffers st", unfolded il prod.case]
  note lens = ini_item_lengths [where sec = ?sec and line = line]
  have setr: thesis
    if it: "?it \<noteq> Bad_item" "length (b_section b) < ASCIILINESZ" "b_section b = item_section ?it ?sec"
      and ents: "item_entries ?it ?sec (dict_entries d) = AList.update k v (dict_entries d)"
      and disp: "ini_dispatch all_alloc line st
        = obind (dictionary_set all_alloc (Some d) (Some k) v)
            (\<lambda>(r, dp). Ok (r, st\<lparr>is_buffers := b, is_dict := dp\<rparr>))" for k v
  proof (rule dispatch_set [OF ok it(2), of k v])
    show thesis if "obind (dictionary_set all_alloc (Some d) (Some k) v)
        (\<lambda>(r, dp). Ok (r, st\<lparr>is_buffers := b, is_dict := dp\<rparr>)) = Ok (0, st\<lparr>is_buffers := b, is_dict := Some d'\<rparr>)"
      "load_ok left (st\<lparr>is_buffers := b, is_dict := Some d'\<rparr>) d'"
      "dict_entries d' = AList.update k v (dict_entries d)" for d'
      by (rule reached [of "st\<lparr>is_buffers := b, is_dict := Some d'\<rparr>" d'])
        (use it ents disp that in \<open>simp_all add: item_errs_def\<close>)
  qed
  consider (sect) "sta = LINE_SECTION" "?it = Section_item (b_section b)"
    | (entry) "sta = LINE_VALUE" "?it = Entry_item (b_key b) (b_value b)" "b_section b = ?sec"
    | (bad) "sta = LINE_ERROR" "?it = Bad_item" "b_section b = ?sec"
    | (none) "sta \<in> {LINE_EMPTY, LINE_COMMENT}" "?it = No_item" "b = is_buffers st"
    using item by auto
  then show thesis
  proof cases
    case sect
    then show thesis using d len lens il
      by (intro setr [of "b_section b" None]) (auto simp: ini_dispatch_def)
  next
    case entry
    then show thesis using d len lens il
      by (intro setr [of "?sec @ '':'' @ b_key b" "Some (b_value b)"])
        (auto simp: ini_dispatch_def)
  next
    case bad
    show thesis
      by (rule reached [of "st\<lparr>is_buffers := b, is_errs := is_errs st + 1,
            is_msgs := is_msgs st @ [Syntax_error (is_lineno st) line]\<rparr>" d])
        (use bad d ok il in \<open>simp_all add: ini_dispatch_def load_ok_def item_errs_def\<close>)
  next
    case none
    show thesis
      by (rule reached [of st d])
        (use none d ok il in \<open>auto simp: ini_dispatch_def load_ok_def item_errs_def\<close>)
  qed
qed

end
