(* ===== verification/Pmf_Iniparser_Load.thy ===== *)
theory Pmf_Iniparser_Load
  imports Pmf_Iniparser_Lines
begin

text \<open>
  The ini loader: it returns on every file, reports what it refuses, and on a text file means
  the fold of its logical lines. The accessors and the enumeration of sections.
\<close>

subsection \<open>Reading a chunk\<close>

lemma c_fgets_cases:
  assumes "2 \<le> n"
  shows "case c_fgets n inp of None \<Rightarrow> inp = []
    | Some (chunk, rest, eof) \<Rightarrow> inp = chunk @ rest \<and> chunk \<noteq> [] \<and> int (length chunk) < n"
proof (cases "inp = []")
  case True
  then show ?thesis using assms by (simp add: c_fgets_def)
next
  case False
  let ?upto = "takeWhile (\<lambda>c. c \<noteq> NEWLINE) inp"
  let ?full = "if length ?upto < length inp then ?upto @ [NEWLINE] else ?upto"
  have full: "?full = take (length ?full) inp"
  proof (cases "length ?upto < length inp")
    case True
    then have "inp ! length ?upto = NEWLINE"
      using nth_length_takeWhile [of "\<lambda>c. c \<noteq> NEWLINE" inp] by simp
    then show ?thesis using True by (simp add: take_Suc_conv_app_nth flip: takeWhile_eq_take)
  next
    case False
    then have "length ?upto = length inp"
      using length_takeWhile_le [of "\<lambda>c. c \<noteq> NEWLINE" inp] by simp
    then have "?upto = inp" by (metis takeWhile_eq_take take_all_iff order_refl)
    then show ?thesis using False by (simp only: if_False) simp
  qed
  let ?chunk = "take (nat (n - 1)) ?full"
  have "?chunk = take (length ?chunk) inp" by (subst (1) full) (simp add: min.commute)
  then have "inp = ?chunk @ drop (length ?chunk) inp" by (metis append_take_drop_id)
  moreover have "?full \<noteq> []" using False by (cases inp) auto
  moreover have "0 < nat (n - 1)" using assms by simp
  ultimately show ?thesis
    using assms False by (auto simp: c_fgets_def Let_def)
qed

lemma c_fgets_line:
  assumes "NEWLINE \<notin> set l" and "int (length l) + 2 \<le> n"
  shows "c_fgets n (l @ NEWLINE # rest) = Some (l @ [NEWLINE], rest, False)"
proof -
  have "takeWhile (\<lambda>c. c \<noteq> NEWLINE) (l @ NEWLINE # rest) = l"
    using assms(1) by (induction l) auto
  with assms show ?thesis by (simp add: c_fgets_def Let_def)
qed

lemma c_fgets_long:
  assumes "NEWLINE \<notin> set l" and "2 \<le> n" and "n \<le> int (length l) + 1"
  shows "c_fgets n (l @ NEWLINE # rest)
    = Some (take (nat (n - 1)) l, drop (nat (n - 1)) l @ NEWLINE # rest, False)"
proof -
  have "takeWhile (\<lambda>c. c \<noteq> NEWLINE) (l @ NEWLINE # rest) = l"
    using assms(1) by (induction l) auto
  with assms show ?thesis by (simp add: c_fgets_def Let_def)
qed

subsection \<open>Every file is loaded or refused\<close>

text \<open>Messages are reported exactly when an error is counted.\<close>

definition msgs_ok :: "ini_state \<Rightarrow> bool" where
  "msgs_ok st \<longleftrightarrow> (is_errs st = 0 \<longleftrightarrow> is_msgs st = [])"

lemma load_ok_simps [simp]:
  "load_ok n (st\<lparr>is_lineno := l\<rparr>) = load_ok n st"
  "load_ok n (st\<lparr>is_kept := k\<rparr>) = load_ok n st"
  "load_ok n (st\<lparr>is_msgs := m\<rparr>) = load_ok n st"
  by (simp_all add: load_ok_def fun_eq_iff)

lemma msgs_ok_simps [simp]:
  "msgs_ok (st\<lparr>is_lineno := l\<rparr>) = msgs_ok st"
  "msgs_ok (st\<lparr>is_kept := k\<rparr>) = msgs_ok st"
  by (simp_all add: msgs_ok_def)

lemma load_ok_mono: "load_ok m st d \<Longrightarrow> n \<le> m \<Longrightarrow> load_ok n st d"
  by (simp add: load_ok_def)

lemma load_loop_step:
  assumes c: "c_fgets (int ASCIILINESZ - int (length (is_kept st))) inp = Some (chunk, rest, eof)"
    and "length rest < length inp"
    and w: "w = is_kept st @ takeWhile (\<lambda>c. c \<noteq> NUL) chunk"
    and st1: "st1 = st\<lparr>is_lineno := is_lineno st + 1\<rparr>"
  shows "load_loop al inp st =
    (if length w \<le> 1 then load_loop al rest st1
     else if last w \<noteq> NEWLINE \<and> \<not> eof
     then Ok (False, st1\<lparr>is_msgs := is_msgs st1 @ [Line_too_long (is_lineno st1)]\<rparr>)
     else if rstrip w \<noteq> [] \<and> last (rstrip w) = BACKSLASH
     then load_loop al rest (st1\<lparr>is_kept := butlast (rstrip w)\<rparr>)
     else obind (ini_dispatch al (rstrip w) st1) (\<lambda>(mem_err, st).
       if mem_err < 0
       then Ok (True, st\<lparr>is_kept := [], is_msgs := is_msgs st @ [Allocation_failure]\<rparr>)
       else load_loop al rest (st\<lparr>is_kept := []\<rparr>)))"
proof -
  have "w \<noteq> []" if "\<not> length w \<le> 1" using that by auto
  moreover have "is_kept st1 = is_kept st" by (simp add: st1)
  ultimately show ?thesis
    using assms(2)
    by (subst load_loop.simps)
      (simp add: c Let_def w [symmetric] st1 last_conv_nth butlast_conv_take
        del: length_append cong: if_cong, auto simp: last_conv_nth)
qed

text \<open>What one round of the loop can be.\<close>

lemma load_loop_cases [consumes 1]:
  assumes kept: "length (is_kept st) < 1023"
  obtains (stop) "load_loop al inp st = Ok (True, st)"
  | (short) rest where "length rest < length inp"
      "load_loop al inp st = load_loop al rest (st\<lparr>is_lineno := is_lineno st + 1\<rparr>)"
  | (long) n where "load_loop al inp st
        = Ok (False, st\<lparr>is_lineno := n, is_msgs := is_msgs st @ [Line_too_long n]\<rparr>)"
  | (more) rest k where "length rest < length inp" "length k < 1023"
      "load_loop al inp st = load_loop al rest (st\<lparr>is_lineno := is_lineno st + 1, is_kept := k\<rparr>)"
  | (line) rest l where "length rest < length inp" "length l < ASCIILINESZ"
      "load_loop al inp st = obind (ini_dispatch al l (st\<lparr>is_lineno := is_lineno st + 1\<rparr>)) (\<lambda>(mem_err, st).
         if mem_err < 0
         then Ok (True, st\<lparr>is_kept := [], is_msgs := is_msgs st @ [Allocation_failure]\<rparr>)
         else load_loop al rest (st\<lparr>is_kept := []\<rparr>))"
proof -
  let ?n = "int ASCIILINESZ - int (length (is_kept st))"
  have n: "2 \<le> ?n" using kept by (simp add: ASCIILINESZ_def)
  show thesis
  proof (cases "c_fgets ?n inp")
    case None
    then show thesis by (intro stop) (subst load_loop.simps, simp)
  next
    case (Some cre)
    then obtain chunk rest eof where c: "c_fgets ?n inp = Some (chunk, rest, eof)" by (cases cre) auto
    then have inp: "inp = chunk @ rest" "chunk \<noteq> []" "int (length chunk) < ?n"
      using c_fgets_cases [OF n, of inp] by auto
    then have shorter: "length rest < length inp" by simp
    define w where "w = is_kept st @ takeWhile (\<lambda>c. c \<noteq> NUL) chunk"
    have "length w < 1024"
      using inp(3) length_takeWhile_le [of "\<lambda>c. c \<noteq> NUL" chunk] by (simp add: ASCIILINESZ_def w_def)
    then have strip: "length (rstrip w) < ASCIILINESZ" "rstrip w \<noteq> [] \<Longrightarrow> length (butlast (rstrip w)) < 1023"
      using length_rstrip [of w] by (simp_all add: ASCIILINESZ_def)
    note step = load_loop_step [OF c shorter w_def refl, of al]
    show thesis
      using step short [OF shorter] long more [OF shorter strip(2)] line [OF shorter strip(1)]
      by (simp split: if_split_asm)
  qed
qed

lemma load_loop_total:
  assumes "load_ok (length inp) st d" and "length (is_kept st) < 1023" and "msgs_ok st"
  shows "\<exists>fin st' d'. load_loop all_alloc inp st = Ok (fin, st') \<and> load_ok 0 st' d'
    \<and> (is_msgs st' = [] \<longleftrightarrow> fin \<and> is_errs st' = 0)"
  using assms
proof (induction "length inp" arbitrary: inp st d rule: less_induct)
  case less
  let ?st = "st\<lparr>is_lineno := is_lineno st + 1\<rparr>"
  have ok: "load_ok n ?st d" if "n \<le> length inp" for n
    using load_ok_mono [OF less.prems(1) that] by simp
  from less.prems(2) show ?case
  proof (cases rule: load_loop_cases [where al = all_alloc and inp = inp])
    case stop
    then show ?thesis using ok [of 0] less.prems(3) by (auto simp: msgs_ok_def)
  next
    case (short rest)
    then show ?thesis using less.hyps [of rest ?st d] ok less.prems by simp
  next
    case (long n)
    then show ?thesis using ok [of 0] by auto
  next
    case (more rest k)
    then show ?thesis
      using less.hyps [of rest "?st\<lparr>is_kept := k\<rparr>" d] ok less.prems(3) by simp
  next
    case (line rest l)
    have "load_ok (Suc (length rest)) ?st d" using ok line(1) by simp
    then obtain st' d' where d': "ini_dispatch all_alloc l ?st = Ok (0, st')" "load_ok (length rest) st' d'"
      "is_errs st' = is_errs ?st + item_errs (ini_item (b_section (is_buffers ?st)) l)"
      "is_msgs st' = is_msgs ?st @ (if ini_item (b_section (is_buffers ?st)) l = Bad_item
         then [Syntax_error (is_lineno ?st) l] else [])"
      by (rule ini_dispatch_effect [OF _ line(2)])
    moreover have "msgs_ok st'"
      using less.prems(3) d'(3,4) by (auto simp: msgs_ok_def item_errs_def)
    ultimately show ?thesis using less.hyps [of rest "st'\<lparr>is_kept := []\<rparr>" d'] line by simp
  qed
qed

subsection \<open>The meaning of a text file\<close>

text \<open>
  Reference definitions on a list of lines. \<open>ini_join\<close> drops empty lines, strips trailing
  white space and glues continuation lines; it fails on a line that does not fit the 1024
  bytes of the buffer. \<open>ini_meaning\<close> folds the items of the logical lines; it fails on a line
  that is none. A continuation at the end of the file is dropped.
\<close>

fun ini_join :: "string \<Rightarrow> string list \<Rightarrow> string list option" where
  "ini_join pre [] = Some []"
| "ini_join pre (l # ls) =
     (if length pre + length l + 1 \<ge> ASCIILINESZ then None
      else if pre @ l = [] then ini_join [] ls
      else if rstrip (pre @ l) \<noteq> [] \<and> last (rstrip (pre @ l)) = BACKSLASH
      then ini_join (butlast (rstrip (pre @ l))) ls
      else map_option (Cons (rstrip (pre @ l))) (ini_join [] ls))"

fun ini_meaning ::
  "string \<Rightarrow> (string \<times> string option) list \<Rightarrow> string list \<Rightarrow> (string \<times> string option) list option" where
  "ini_meaning sec es [] = Some es"
| "ini_meaning sec es (l # ls) =
     (if ini_item sec l = Bad_item then None
      else ini_meaning (item_section (ini_item sec l) sec)
             (item_entries (ini_item sec l) sec es) ls)"

definition unlines :: "string list \<Rightarrow> string" where
  "unlines ls = concat (map (\<lambda>l. l @ [NEWLINE]) ls)"

definition plain_line :: "string \<Rightarrow> bool" where
  "plain_line l \<longleftrightarrow> NEWLINE \<notin> set l \<and> NUL \<notin> set l"

lemma takeWhile_plain: "NUL \<notin> set l \<Longrightarrow> takeWhile (\<lambda>c. c \<noteq> NUL) l = l"
  by (induction l) auto

text \<open>How the loop takes one line of text.\<close>

lemma load_loop_plain:
  assumes l: "plain_line l" and kept: "length (is_kept st) < 1023"
  defines "line \<equiv> is_kept st @ l" and "st1 \<equiv> st\<lparr>is_lineno := is_lineno st + 1\<rparr>"
  shows "length line + 1 \<ge> ASCIILINESZ \<Longrightarrow>
      \<exists>m. load_loop al (l @ NEWLINE # rest) st = Ok (False, st1\<lparr>is_msgs := m\<rparr>)"
    and "length line + 1 < ASCIILINESZ \<Longrightarrow> line = [] \<Longrightarrow>
      load_loop al (l @ NEWLINE # rest) st = load_loop al rest st1"
    and "length line + 1 < ASCIILINESZ \<Longrightarrow> line \<noteq> [] \<Longrightarrow>
      rstrip line \<noteq> [] \<and> last (rstrip line) = BACKSLASH \<Longrightarrow>
      load_loop al (l @ NEWLINE # rest) st
        = load_loop al rest (st1\<lparr>is_kept := butlast (rstrip line)\<rparr>)"
    and "length line + 1 < ASCIILINESZ \<Longrightarrow> line \<noteq> [] \<Longrightarrow>
      \<not> (rstrip line \<noteq> [] \<and> last (rstrip line) = BACKSLASH) \<Longrightarrow>
      ini_dispatch al (rstrip line) st1 = Ok (0, st2) \<Longrightarrow>
      load_loop al (l @ NEWLINE # rest) st = load_loop al rest (st2\<lparr>is_kept := []\<rparr>)"
proof -
  let ?n = "int ASCIILINESZ - int (length (is_kept st))"
  have lnul: "NUL \<notin> set l" and lnl: "NEWLINE \<notin> set l" using l by (simp_all add: plain_line_def)
  have fit: "c_fgets ?n (l @ NEWLINE # rest) = Some (l @ [NEWLINE], rest, False)"
    if "length line + 1 < ASCIILINESZ"
    using that lnl by (intro c_fgets_line) (simp_all add: line_def)
  have line: "is_kept st @ takeWhile (\<lambda>c. c \<noteq> NUL) (l @ [NEWLINE]) = line @ [NEWLINE]"
    using lnul takeWhile_plain [of "l @ [NEWLINE]"] by (simp add: line_def special_chars)
  have strip: "rstrip (line @ [NEWLINE]) = rstrip line" by (simp add: rstrip_snoc_space)
  have wl: "last (line @ [NEWLINE]) = NEWLINE" by simp
  note step = load_loop_step [OF fit _ line [symmetric] st1_def [THEN meta_eq_to_obj_eq], of al]
  show "\<exists>m. load_loop al (l @ NEWLINE # rest) st = Ok (False, st1\<lparr>is_msgs := m\<rparr>)"
    if long: "length line + 1 \<ge> ASCIILINESZ"
  proof -
    let ?k = "nat (?n - 1)"
    have n: "2 \<le> ?n" "?n \<le> int (length l) + 1"
      using kept long by (simp_all add: ASCIILINESZ_def line_def)
    note c = c_fgets_long [OF lnl n, of rest]
    have k: "?k \<le> length l" "0 < ?k" using n by simp_all
    have set: "set (take ?k l) \<subseteq> set l" by (rule set_take_subset)
    then have "NUL \<notin> set (take ?k l)" using lnul by blast
    then have tw: "takeWhile (\<lambda>c. c \<noteq> NUL) (take ?k l) = take ?k l" by (rule takeWhile_plain)
    define w where "w = is_kept st @ take ?k l"
    have w: "length w = 1023" using k kept by (simp add: w_def ASCIILINESZ_def)
    have "last w \<noteq> NEWLINE"
      unfolding w_def using k set lnl by (cases "take ?k l" rule: rev_cases) auto
    moreover have "length (drop ?k l @ NEWLINE # rest) < length (l @ NEWLINE # rest)" using k by simp
    ultimately show ?thesis
      using load_loop_step [OF c, of w st1 al] w by (auto simp: tw w_def st1_def)
  qed
  show "load_loop al (l @ NEWLINE # rest) st = load_loop al rest st1"
    if "length line + 1 < ASCIILINESZ" "line = []"
    using step [OF that(1)] that(2) by simp
  show "load_loop al (l @ NEWLINE # rest) st
      = load_loop al rest (st1\<lparr>is_kept := butlast (rstrip line)\<rparr>)"
    if "length line + 1 < ASCIILINESZ" "line \<noteq> []"
      "rstrip line \<noteq> [] \<and> last (rstrip line) = BACKSLASH"
    using step [OF that(1)] that(2,3) by (simp add: strip)
  show "load_loop al (l @ NEWLINE # rest) st = load_loop al rest (st2\<lparr>is_kept := []\<rparr>)"
    if "length line + 1 < ASCIILINESZ" "line \<noteq> []"
      "\<not> (rstrip line \<noteq> [] \<and> last (rstrip line) = BACKSLASH)"
      "ini_dispatch al (rstrip line) st1 = Ok (0, st2)"
    using step [OF that(1)] that(2-) by (auto simp: strip)
qed

lemma load_loop_item:
  assumes ok: "load_ok (Suc n) st d" and l: "plain_line l" and kept: "length (is_kept st) < 1023"
    and item: "length (is_kept st @ l) + 1 < ASCIILINESZ" "is_kept st @ l \<noteq> []"
      "\<not> (rstrip (is_kept st @ l) \<noteq> [] \<and> last (rstrip (is_kept st @ l)) = BACKSLASH)"
  defines "it \<equiv> ini_item (b_section (is_buffers st)) (rstrip (is_kept st @ l))"
  obtains st' d' where "load_loop all_alloc (l @ NEWLINE # rest) st = load_loop all_alloc rest st'"
    and "load_ok n st' d'" and "is_kept st' = []"
    and "b_section (is_buffers st') = item_section it (b_section (is_buffers st))"
    and "dict_entries d' = item_entries it (b_section (is_buffers st)) (dict_entries d)"
    and "is_errs st' = is_errs st + item_errs it"
proof -
  let ?st1 = "st\<lparr>is_lineno := is_lineno st + 1\<rparr>"
  have "load_ok (Suc n) ?st1 d" "length (rstrip (is_kept st @ l)) < ASCIILINESZ"
    using ok item(1) length_rstrip [of "is_kept st @ l"] by simp_all
  then obtain st' d' where d': "ini_dispatch all_alloc (rstrip (is_kept st @ l)) ?st1 = Ok (0, st')"
      "load_ok n st' d'"
      "b_section (is_buffers st') = item_section it (b_section (is_buffers st))"
      "dict_entries d' = item_entries it (b_section (is_buffers st)) (dict_entries d)"
      "is_errs st' = is_errs st + item_errs it"
    by (rule ini_dispatch_effect) (simp add: it_def)
  from that [OF load_loop_plain(4) [OF l kept item d'(1)]] d'(2-) show thesis by simp
qed

lemma load_loop_lines:
  assumes "load_ok (length ls) st d" and "length (is_kept st) < 1023" and "\<forall>l \<in> set ls. plain_line l"
  shows "\<exists>fin st' d'. load_loop all_alloc (unlines ls) st = Ok (fin, st') \<and> load_ok 0 st' d'
    \<and> (case ini_join (is_kept st) ls of
         None \<Rightarrow> \<not> fin
       | Some lls \<Rightarrow> fin \<and> is_errs st \<le> is_errs st' \<and>
           (case ini_meaning (b_section (is_buffers st)) (dict_entries d) lls of
              None \<Rightarrow> is_errs st < is_errs st'
            | Some es \<Rightarrow> is_errs st' = is_errs st \<and> dict_entries d' = es))"
  using assms
proof (induction ls arbitrary: st d)
  case Nil
  have "c_fgets (int ASCIILINESZ - int (length (is_kept st))) [] = None"
    using Nil by (simp add: c_fgets_def ASCIILINESZ_def)
  then show ?case using Nil by (subst load_loop.simps) (auto simp: unlines_def)
next
  case (Cons l ls)
  let ?line = "is_kept st @ l" and ?st1 = "st\<lparr>is_lineno := is_lineno st + 1\<rparr>"
  have lines: "unlines (l # ls) = l @ NEWLINE # unlines ls" by (simp add: unlines_def)
  have l: "plain_line l" and ls: "\<forall>l \<in> set ls. plain_line l" using Cons.prems(3) by simp_all
  note step = load_loop_plain [OF l Cons.prems(2), where al = all_alloc and rest = "unlines ls",
      folded lines]
  have ok: "load_ok n ?st1 d" if "n \<le> Suc (length ls)" for n
    using load_ok_mono [OF Cons.prems(1), of n] that by simp
  consider (long) "length ?line + 1 \<ge> ASCIILINESZ"
    | (empty) "length ?line + 1 < ASCIILINESZ" "?line = []"
    | (more) "length ?line + 1 < ASCIILINESZ" "?line \<noteq> []"
        "rstrip ?line \<noteq> [] \<and> last (rstrip ?line) = BACKSLASH"
    | (item) "length ?line + 1 < ASCIILINESZ" "?line \<noteq> []"
        "\<not> (rstrip ?line \<noteq> [] \<and> last (rstrip ?line) = BACKSLASH)"
    by linarith
  then show ?case
  proof cases
    case long
    then show ?thesis using step(1) [OF long] ok [of 0] by force
  next
    case empty
    then show ?thesis
      using Cons.IH [of ?st1 d] step(2) [OF empty] Cons.prems(2) ok ls by (simp cong: option.case_cong)
  next
    case more
    have "length (butlast (rstrip ?line)) < 1023"
      using more(1) length_rstrip [of ?line] by (simp add: ASCIILINESZ_def)
    moreover have "ini_join (is_kept st) (l # ls) = ini_join (butlast (rstrip ?line)) ls"
      using more by simp
    ultimately show ?thesis
      using Cons.IH [of "?st1\<lparr>is_kept := butlast (rstrip ?line)\<rparr>" d] step(3) [OF more] ok ls
      by (simp cong: option.case_cong)
  next
    case item
    have join: "ini_join (is_kept st) (l # ls) = map_option (Cons (rstrip ?line)) (ini_join [] ls)"
      using item by auto
    obtain st' d' where
      "load_loop all_alloc (unlines (l # ls)) st = load_loop all_alloc (unlines ls) st'"
      and d': "load_ok (length ls) st' d'" "is_kept st' = []"
      "b_section (is_buffers st') = item_section
         (ini_item (b_section (is_buffers st)) (rstrip ?line)) (b_section (is_buffers st))"
      "dict_entries d' = item_entries (ini_item (b_section (is_buffers st)) (rstrip ?line))
         (b_section (is_buffers st)) (dict_entries d)"
      "is_errs st' = is_errs st + item_errs (ini_item (b_section (is_buffers st)) (rstrip ?line))"
      by (rule load_loop_item [OF Cons.prems(1) [simplified length_Cons] l Cons.prems(2) item,
            of "unlines ls", folded lines])
    then show ?thesis
      using Cons.IH [of st' d'] ls unfolding join
      by (fastforce simp: item_errs_def split: option.splits if_splits)
  qed
qed

subsection \<open>Accessors\<close>

lemma strlwc_Some [simp]: "0 < n \<Longrightarrow> strlwc (Some s) n = Some (lowercase (take (n - 1) s))"
  by (simp add: strlwc_def)

definition ini_key :: "string \<Rightarrow> string" where
  "ini_key k = lowercase (take ASCIILINESZ k)"

lemma iniparser_getstring_key:
  "iniparser_getstring (Some d) (Some k) def = dictionary_get d (ini_key k) def"
  by (simp add: iniparser_getstring_def ini_key_def)

lemma section_keys_entries:
  assumes "dict_wf d"
  shows "section_keys p (d_key d) = filter (starts_with p) (map fst (dict_entries d))"
proof -
  have "section_keys p ks
      = filter (starts_with p) (map fst (map (\<lambda>(k, v). (the k, v)) (filter (\<lambda>(k, v). k \<noteq> None) (zip ks vs))))"
    if "length vs = length ks" for ks vs :: "string option list"
    using that by (induction vs ks rule: list_induct2) (auto simp: section_keys_def)
  with assms show ?thesis by (simp add: dict_entries_def dict_wf_def)
qed

definition section_names :: "dictionary \<Rightarrow> string list" where
  "section_names d = filter (\<lambda>k. CHR '':'' \<notin> set k) (map fst (dict_entries d))"

lemma section_slots:
  assumes "dict_wf d"
  shows "filter is_section_key (d_key d) = map Some (section_names d)"
proof -
  have "filter is_section_key ks = map Some (filter (\<lambda>k. CHR '':'' \<notin> set k)
      (map fst (map (\<lambda>(k, v). (the k, v)) (filter (\<lambda>(k, v). k \<noteq> None) (zip ks vs)))))"
    if "length vs = length ks" for ks vs :: "string option list"
    using that
  proof (induction vs ks rule: list_induct2)
    case (Cons v vs k ks)
    then show ?case by (cases k) (simp_all add: is_section_key_def)
  qed simp
  with assms show ?thesis by (simp add: section_names_def dict_entries_def dict_wf_def)
qed

lemma secname_loop_nth:
  "found \<le> n \<Longrightarrow> secname_loop ks found n =
    (if n - found < int (length (filter is_section_key ks))
     then filter is_section_key ks ! nat (n - found) else None)"
proof (induction ks arbitrary: found)
  case (Cons k ks)
  show ?case
  proof (cases "is_section_key k \<and> found < n")
    case True
    then have "nat (n - found) = Suc (nat (n - (found + 1)))" by (simp add: Suc_nat_eq_nat_zadd1)
    then show ?thesis using Cons.IH [of "found + 1"] True by simp
  next
    case False
    then show ?thesis using Cons by auto
  qed
qed simp

subsection \<open>Properties\<close>



lemma iniparser_load_lines:
  assumes "\<forall>l \<in> set ls. plain_line l" and "length ls < 2147483646"
  shows "case Option.bind (ini_join [] ls) (ini_meaning [] []) of
      None \<Rightarrow> \<exists>msgs. iniparser_load True all_alloc (Some (unlines ls)) = Ok (None, msgs)
    | Some es \<Rightarrow> \<exists>d msgs. iniparser_load True all_alloc (Some (unlines ls)) = Ok (Some d, msgs)
        \<and> dict_wf d \<and> dict_packed d \<and> dict_entries d = es"
proof -
  have "load_ok (length ls) (ini_state_init dict_empty) dict_empty"
    using assms dict_empty_wf by (simp add: load_ok_def ini_state_init_def ASCIILINESZ_def dict_empty_def)
  from load_loop_lines [OF this _ assms(1)] show ?thesis
    by (auto simp: iniparser_load_def dict_empty_new load_ok_def ini_state_init_def
        split: option.splits bind_splits)
qed



text \<open>
  C22: Keys are case-insensitive: after \<open>iniparser_set\<close> a query that agrees with the entry up
  to case yields the value, any other query its old answer; after \<open>iniparser_unset\<close> the query
  yields the caller's default.
\<close>

theorem iniparser_set_getstring:
  assumes "dict_wf d" and "d_n d < 2147483647" and "ini_key query = ini_key entry"
  shows "\<exists>d' d''. iniparser_set all_alloc (Some d) (Some entry) v = Ok (0, Some d') \<and> dict_wf d'
    \<and> iniparser_getstring (Some d') (Some query) def = val_ptr v
    \<and> (\<forall>k. ini_key k \<noteq> ini_key entry \<longrightarrow>
         iniparser_getstring (Some d') (Some k) def = iniparser_getstring (Some d) (Some k) def)
    \<and> iniparser_unset (Some d') (Some query) = Some d''
    \<and> iniparser_getstring (Some d'') (Some entry) def = def"
proof -
  obtain d' where d': "dict_put d (ini_key entry) v = Ok d'" "dict_wf d'"
    "dictionary_get d' (ini_key entry) def = val_ptr v"
    "\<forall>k'. k' \<noteq> ini_key entry \<longrightarrow> dictionary_get d' k' def = dictionary_get d k' def"
    using dict.put_get [of d "ini_key entry" v def] assms(1,2) by (auto simp: dict_small_def)
  obtain d'' where "dictionary_unset (Some d') (Some (ini_key entry)) = Some d''"
    "dict_del d' (ini_key entry) = d''"
    using dictionary_unset_map [OF d'(2), of "ini_key entry"] by (auto simp: dict_del_def)
  then show ?thesis
    using d' dict.del_get [OF d'(2), of "ini_key entry" def] assms(3)
    by (auto simp: iniparser_getstring_key iniparser_set_def iniparser_unset_def dict_put_Ok
        simp flip: ini_key_def)
qed

theorem iniparser_set_getstring_witness:
  "\<exists>d'. iniparser_set all_alloc (Some dict_empty) (Some ''WWW:pm'') (Some ''static'') = Ok (0, Some d')
     \<and> iniparser_getstring (Some d') (Some ''www:PM'') NULLP = Str ''static''"
proof -
  have "ini_key ''www:PM'' = ini_key ''WWW:pm''" by code_simp
  from iniparser_set_getstring [OF dict_empty_wf(1) _ this, of "Some ''static''" NULLP]
  show ?thesis by (auto simp: val_ptr_def dict_empty_def)
qed

lemma iniparser_getnsec_names: "dict_wf d \<Longrightarrow> iniparser_getnsec (Some d) = int (length (section_names d))"
  by (simp add: iniparser_getnsec_def section_slots)

lemma iniparser_getsecname_nth:
  assumes "dict_wf d"
  shows "iniparser_getsecname (Some d) n
    = (if 0 \<le> n \<and> n < iniparser_getnsec (Some d) then Some (section_names d ! nat n) else None)"
  using secname_loop_nth [of 0 n "d_key d"]
  by (auto simp: iniparser_getnsec_names [OF assms] iniparser_getsecname_def section_slots [OF assms])

text \<open>
  C23: \<open>iniparser_getsecname\<close> numbers the entries without a colon from 0 to
  \<open>iniparser_getnsec - 1\<close> in slot order and answers null outside; \<open>iniparser_getseckeys\<close>, given
  an array of the length \<open>iniparser_getsecnkeys\<close> computed, stores the section's keys in slot
  order and nothing outside the array.
\<close>

theorem iniparser_sections:
  assumes wf: "dict_wf d"
  shows "iniparser_getnsec (Some d) = int (length (section_names d))
    \<and> iniparser_getsecname (Some d) n
       = (if 0 \<le> n \<and> n < iniparser_getnsec (Some d) then Some (section_names d ! nat n) else None)
    \<and> (iniparser_find_entry (Some d) (Some s) \<and> length s \<le> ASCIILINESZ \<longrightarrow>
       iniparser_getsecnkeys (Some d) s = Ok (int (length keys)) \<longrightarrow>
       iniparser_getseckeys (Some d) s (Some keys)
         = Ok (Some (filter (starts_with (lowercase s @ '':'')) (map fst (dict_entries d)))))"
  using wf by (auto simp: iniparser_getsecname_nth iniparser_getnsec_names iniparser_getsecnkeys_def
      iniparser_getseckeys_def section_keys_entries Let_def ASCIILINESZ_def)

lemma dict_of_entries:
  assumes "distinct (map fst es)" and "length es < 2147483647"
  shows "\<exists>d. dict_wf d \<and> dict_packed d \<and> dict_entries d = es"
  using assms
proof (induction es rule: rev_induct)
  case Nil
  then show ?case using dict_empty_wf by blast
next
  case (snoc e es)
  obtain k v where e: "e = (k, v)" by (cases e)
  obtain d where d: "dict_wf d" "dict_packed d" "dict_entries d = es" using snoc by auto
  then have "dict_small d" using length_dict_entries [OF d(1)] snoc.prems(2) by (simp add: dict_small_def)
  from dictionary_set_packed [OF d(1,2) this, of k v] obtain d' where
    "dict_wf d'" "dict_packed d'" "dict_entries d' = AList.update k v (dict_entries d)" by blast
  moreover have "k \<notin> fst ` set es" using snoc.prems(1) e by simp
  ultimately show ?case using d(3) e by (auto simp: alist_update_fresh)
qed

theorem iniparser_sections_witness:
  "\<exists>d. iniparser_getnsec (Some d) = 2 \<and> iniparser_getsecname (Some d) 1 = Some ''b''
     \<and> iniparser_getseckeys (Some d) ''A'' (Some [''x'']) = Ok (Some [''a:x''])"
proof -
  let ?es = "[(''a'', None), (''a:x'', Some ''1''), (''b'', None)]"
  obtain d where d: "dict_wf d" "dict_entries d = ?es" using dict_of_entries [of ?es] by auto
  have names: "section_names d = [''a'', ''b'']" by (simp add: section_names_def d(2))
  have key: "ini_key ''A'' = ''a''" "lowercase ''A'' = ''a''" by code_simp+
  have "iniparser_find_entry (Some d) (Some ''A'')"
    using dictionary_get_map [OF d(1), of "''a''" INVALID_KEY]
    by (simp add: iniparser_find_entry_def iniparser_getstring_key key dict_map_def d(2) val_ptr_def)
  moreover have "iniparser_getsecnkeys (Some d) ''A'' = Ok (int (length [''x'']))"
    using calculation
    by (simp add: iniparser_getsecnkeys_def ASCIILINESZ_def section_keys_entries [OF d(1)] d(2)
        key starts_with_def)
  ultimately show ?thesis
    using iniparser_sections [OF d(1), of 1 "''A''" "[''x'']"]
    by (intro exI [of _ d]) (simp add: names ASCIILINESZ_def key d(2) starts_with_def)
qed

subsection \<open>Lines that cannot be copied\<close>

lemma load_loop_uncopied:
  assumes "\<not> dupline_ok al" and "length (is_kept st) < 1023"
    and "load_loop al inp st = Ok (finished, st')"
  shows "is_dict st' = is_dict st \<and> is_errs st' = is_errs st
    \<and> (if finished then is_msgs st' = is_msgs st else \<exists>n. is_msgs st' = is_msgs st @ [Line_too_long n])"
  using assms
proof (induction "length inp" arbitrary: inp st rule: less_induct)
  case less
  let ?st = "st\<lparr>is_lineno := is_lineno st + 1\<rparr>"
  have empty: "ini_dispatch al line st = Ok (0, st)" for line st
    using less.prems(1) by (simp add: ini_dispatch_def iniparser_line_def xstrdup_def)
  from less.prems(2) show ?case
  proof (cases rule: load_loop_cases [where al = al and inp = inp])
    case (short rest)
    then show ?thesis using less.hyps [of rest ?st] less.prems by (simp cong: if_cong)
  next
    case (more rest k)
    then show ?thesis using less.hyps [of rest "?st\<lparr>is_kept := k\<rparr>"] less.prems by (simp cong: if_cong)
  next
    case (line rest l)
    then show ?thesis using less.hyps [of rest "?st\<lparr>is_kept := []\<rparr>"] less.prems by (simp add: empty cong: if_cong)
  qed (use less.prems(3) in auto)
qed

text \<open>
  When the copies of the lines cannot be allocated, every line counts as empty: a load returns
  an empty dictionary without a message, or null for a line that is too long.
\<close>

theorem uncopied_lines_are_lost:
  assumes "\<not> dupline_ok al" and "iniparser_load True al (Some inp) = Ok (dp, msgs)"
  shows "case dp of Some d \<Rightarrow> dict_entries d = [] \<and> msgs = [] | None \<Rightarrow> \<exists>n. msgs = [Line_too_long n]"
proof -
  obtain finished st' where loop: "load_loop al inp (ini_state_init dict_empty) = Ok (finished, st')"
    using assms(2)
    by (cases "load_loop al inp (ini_state_init dict_empty)") (auto simp: iniparser_load_def dict_empty_new)
  have "is_dict st' = Some dict_empty \<and> is_errs st' = 0
      \<and> (if finished then is_msgs st' = [] else \<exists>n. is_msgs st' = [Line_too_long n])"
    using load_loop_uncopied [OF assms(1) _ loop] by (auto simp: ini_state_init_def)
  then show ?thesis
    using assms(2) loop
    by (cases finished) (auto simp: iniparser_load_def dict_empty_new dest!: sym [of "Some dict_empty"])
qed

theorem uncopied_lines_are_lost_witness:
  "\<exists>d. iniparser_load True (all_alloc\<lparr>dupline_ok := False\<rparr>) (Some ''user = www'') = Ok (Some d, [])
     \<and> dict_entries d = []"
proof -
  have "case iniparser_load True (all_alloc\<lparr>dupline_ok := False\<rparr>) (Some ''user = www'') of
      Ok (Some _, _) \<Rightarrow> True | _ \<Rightarrow> False" by code_simp
  then obtain d msgs where "iniparser_load True (all_alloc\<lparr>dupline_ok := False\<rparr>) (Some ''user = www'')
      = Ok (Some d, msgs)" by (auto split: outcome.splits option.splits)
  with uncopied_lines_are_lost [OF _ this] show ?thesis by auto
qed

end
