(* ===== verification/Pmf_Iniparser_Dump.thy ===== *)
theory Pmf_Iniparser_Dump
  imports Pmf_Iniparser_Load
begin

text \<open>
  What \<open>iniparser_dump_ini\<close> writes is read back by \<open>iniparser_load\<close>, for dictionaries whose
  names and values survive the file format.
\<close>

subsection \<open>Names and values the format carries\<close>

definition trimmed :: "string \<Rightarrow> bool" where
  "trimmed s \<longleftrightarrow> s \<noteq> [] \<and> \<not> c_isspace (hd s) \<and> \<not> c_isspace (last s)"

definition sec_name :: "string \<Rightarrow> bool" where
  "sec_name s \<longleftrightarrow> trimmed s \<and> lowercase s = s \<and> plain_line s
     \<and> CHR '':'' \<notin> set s \<and> CHR '']'' \<notin> set s \<and> length s < 1000"

definition key_name :: "string \<Rightarrow> bool" where
  "key_name s \<longleftrightarrow> trimmed s \<and> lowercase s = s \<and> plain_line s
     \<and> CHR ''='' \<notin> set s \<and> hd s \<notin> {CHR ''['', CHR ''#'', CHR '';''}"

definition value_text :: "string \<Rightarrow> bool" where
  "value_text v \<longleftrightarrow> v = [] \<or> trimmed v \<and> plain_line v \<and> CHR '';'' \<notin> set v \<and> CHR ''#'' \<notin> set v
     \<and> hd v \<noteq> DQUOTE \<and> hd v \<noteq> SQUOTE \<and> last v \<noteq> BACKSLASH"

definition sec_line :: "string \<Rightarrow> string" where
  "sec_line s = ''['' @ s @ '']''"

definition key_line :: "string \<Rightarrow> string \<Rightarrow> string" where
  "key_line n v = pad_right 30 n @ '' = '' @ v"

lemma rstrip_trimmed: "trimmed s \<Longrightarrow> rstrip (t @ s) = t @ s"
  by (cases s rule: rev_cases) (auto simp: trimmed_def rstrip_snoc simp flip: append_assoc)

lemma strstrip_trimmed: "trimmed s \<Longrightarrow> strstrip s = s"
proof -
  assume s: "trimmed s"
  then have "dropWhile c_isspace s = s" by (auto simp: dropWhile_eq_self_iff trimmed_def)
  then show ?thesis using rstrip_trimmed [OF s, of "[]"] by (simp add: strstrip_def)
qed

lemma rstrip_pad: "trimmed s \<Longrightarrow> rstrip (pad_right n s @ '' '') = s"
proof -
  assume s: "trimmed s"
  have sp: "c_isspace (CHR '' '')" by (simp add: c_isspace_def)
  have "rstrip (s @ replicate m (CHR '' '')) = s" for m
  proof (induction m)
    case 0
    then show ?case using rstrip_trimmed [OF s, of "[]"] by simp
  next
    case (Suc m)
    then show ?case
      using rstrip_snoc_space [OF sp, of "s @ replicate m (CHR '' '')"]
      by (simp add: replicate_append_same)
  qed
  from this [of "Suc (n - length s)"] show ?thesis
    by (simp add: pad_right_def replicate_append_same)
qed

lemma strstrip_pad: "trimmed s \<Longrightarrow> strstrip (pad_right n s @ '' '') = s"
proof -
  assume s: "trimmed s"
  then have "dropWhile c_isspace (pad_right n s @ '' '') = pad_right n s @ '' ''"
    by (cases s) (simp_all add: trimmed_def pad_right_def)
  then show ?thesis using rstrip_pad [OF s] by (simp add: strstrip_def)
qed

lemma takeWhile_not: "c \<notin> set s \<Longrightarrow> takeWhile (\<lambda>x. x \<noteq> c) (s @ c # t) = s"
  by (induction s) auto

lemma dropWhile_not: "c \<notin> set s \<Longrightarrow> dropWhile (\<lambda>x. x \<noteq> c) (s @ c # t) = c # t"
  by (induction s) auto

subsection \<open>How the lines are read\<close>

lemma clean_name_id: "trimmed s \<Longrightarrow> lowercase s = s \<Longrightarrow> length s < len \<Longrightarrow> clean_name len s = s"
  by (simp add: clean_name_def strstrip_trimmed)

lemma ini_item_sec_line:
  assumes "sec_name s"
  shows "ini_item sec (sec_line s) = Section_item s"
proof -
  have s: "trimmed s" "lowercase s = s" "CHR '']'' \<notin> set s" using assms by (simp_all add: sec_name_def)
  have nsp: "\<not> c_isspace (CHR ''['')" "\<not> c_isspace (CHR '']'')" by (simp_all add: c_isspace_def)
  have "trimmed (sec_line s)" using nsp by (simp add: trimmed_def sec_line_def)
  then have st: "strstrip (sec_line s) = sec_line s" by (rule strstrip_trimmed)
  have "s \<noteq> []" using s(1) by (simp add: trimmed_def)
  then have scan: "sscanf fmt_section (sec_line s) = [s]"
    using s(3) by (simp add: fmt_section_def sec_line_def takeWhile_not)
  have nth: "sec_line s ! 0 = CHR ''[''" "sec_line s ! (length (sec_line s) - 1) = CHR '']''"
    "length (sec_line s) = length s + 2"
    by (simp_all add: sec_line_def nth_append)
  have "clean_name (length (sec_line s)) s = s" using s by (intro clean_name_id) (simp_all add: nth)
  then show ?thesis
    unfolding ini_item_def iniparser_line_def xstrdup_True option.case st Let_def scan using nth by simp
qed

lemma rstrip_key_line:
  assumes "value_text v"
  shows "rstrip (key_line n v) = (pad_right 30 n @ '' '') @ CHR ''='' # (if v = [] then [] else CHR '' '' # v)"
proof (cases "v = []")
  case True
  have sp: "c_isspace (CHR '' '')" "\<not> c_isspace (CHR ''='')" by (simp_all add: c_isspace_def)
  from True show ?thesis
    using rstrip_snoc_space [OF sp(1), of "pad_right 30 n @ '' =''"]
      rstrip_snoc [OF sp(2), of "pad_right 30 n @ '' ''"] by (simp add: key_line_def)
next
  case False
  then show ?thesis
    using assms rstrip_trimmed [of v "pad_right 30 n @ '' = ''"]
    by (simp add: key_line_def value_text_def)
qed

text \<open>What the formats of the line parser find in a line of a dump.\<close>

lemma scan_key_line:
  assumes n: "key_name n" and v: "value_text v"
  defines "p \<equiv> pad_right 30 n @ '' ''" and "line \<equiv> rstrip (key_line n v)"
  shows "length (sscanf (fmt_quoted DQUOTE) line) = 1" and "length (sscanf (fmt_quoted SQUOTE) line) = 1"
    and "sscanf fmt_value line = p # (if v = [] then [] else [v])"
    and "v = [] \<Longrightarrow> sscanf fmt_comment line = [p]" and "v = [] \<Longrightarrow> sscanf fmt_equals line = [p, ''='']"
proof -
  have p: "CHR ''='' \<notin> set p" "p \<noteq> []" using n by (auto simp: p_def pad_right_def key_name_def)
  have line: "line = p @ CHR ''='' # (if v = [] then [] else CHR '' '' # v)"
    using rstrip_key_line [OF v] by (simp add: line_def p_def)
  have sp: "c_isspace (CHR '' '')" "\<not> c_isspace (CHR ''='')" by (simp_all add: c_isspace_def)
  note split = takeWhile_not [OF p(1)] dropWhile_not [OF p(1)]
  have scan: "sscanf (Scan (\<lambda>c. c \<noteq> CHR ''='') # Blank # Lit (CHR ''='') # Blank # ds) line
      = p # sscanf ds v" for ds
  proof -
    have "dropWhile c_isspace v = v" using v by (cases v) (auto simp: value_text_def trimmed_def)
    then show ?thesis using split p(2) sp by (simp add: line)
  qed
  show "sscanf fmt_equals line = [p, ''='']" if "v = []"
    using that split p(2) sp by (simp add: line fmt_equals_def)
  have "length (sscanf (fmt_quoted q) line) = 1" if "v = [] \<or> hd v \<noteq> q" for q
    using that unfolding fmt_quoted_def scan by (cases v) simp_all
  then show "length (sscanf (fmt_quoted DQUOTE) line) = 1" "length (sscanf (fmt_quoted SQUOTE) line) = 1"
    using v by (auto simp: value_text_def)
  show "sscanf fmt_value line = p # (if v = [] then [] else [v])" "v = [] \<Longrightarrow> sscanf fmt_comment line = [p]"
    using v unfolding fmt_value_def fmt_comment_def scan
    by (cases v; auto simp: value_text_def takeWhile_eq_all_conv)+
qed

lemma ini_item_key_line:
  assumes n: "key_name n" and v: "value_text v"
  shows "ini_item sec (rstrip (key_line n v)) = Entry_item n v"
proof -
  have n': "trimmed n" "lowercase n = n" "hd n \<notin> {CHR ''['', CHR ''#'', CHR '';''}"
    using n by (simp_all add: key_name_def)
  define line where "line = rstrip (key_line n v)"
  note line = rstrip_key_line [OF v, of n, folded line_def]
  note scan = scan_key_line [OF n v, folded line_def]
  have hd: "line ! 0 = hd n" using n'(1) by (cases n) (simp_all add: line pad_right_def trimmed_def)
  have "\<not> c_isspace (CHR ''='')" by (simp add: c_isspace_def)
  then have "trimmed line"
    using n'(1) v by (cases n) (auto simp: trimmed_def line pad_right_def value_text_def)
  then have st: "strstrip line = line" by (rule strstrip_trimmed)
  have len: "length line = Suc (length line - 1)" "0 < length line" "length n < length line"
    by (simp_all add: line pad_right_def)
  have name: "clean_name (length line) (pad_right 30 n @ '' '') = n"
    using n' len by (simp add: clean_name_def strstrip_pad)
  have "v \<noteq> [] \<Longrightarrow> strstrip v = v \<and> v \<noteq> [DQUOTE, DQUOTE] \<and> v \<noteq> [SQUOTE, SQUOTE]"
    using v by (auto simp: value_text_def strstrip_trimmed)
  then show ?thesis
    using n'(3) hd len(1,2) scan name
    unfolding line_def [symmetric] ini_item_def iniparser_line_def xstrdup_True option.case st Let_def
    by (cases "v = []") (simp_all add: store_scan_def)
qed

subsection \<open>The lines of a dump\<close>

definition section_entries :: "string \<Rightarrow> (string \<times> string option) list \<Rightarrow> (string \<times> string option) list" where
  "section_entries s es = filter (\<lambda>(k, v). starts_with (s @ '':'') k) es"

definition entry_line :: "string \<Rightarrow> string \<times> string option \<Rightarrow> string" where
  "entry_line s kv = key_line (drop (length s + 1) (fst kv)) (case snd kv of Some w \<Rightarrow> w | None \<Rightarrow> [])"

definition section_lines :: "(string \<times> string option) list \<Rightarrow> string \<Rightarrow> string list" where
  "section_lines es s = [[], sec_line s] @ map (entry_line s) (section_entries s es) @ [[]]"

definition dump_lines :: "dictionary \<Rightarrow> string list" where
  "dump_lines d = concat (map (section_lines (dict_entries d)) (section_names d)) @ [[]]"

lemma unlines_simps [simp]:
  "unlines [] = []"
  "unlines (l # ls) = l @ [NEWLINE] @ unlines ls"
  "unlines (ls @ ls') = unlines ls @ unlines ls'"
  by (simp_all add: unlines_def)

lemma nl_NEWLINE: "nl = [NEWLINE]"
  by (simp add: nl_def NEWLINE_def)

lemma concat_slots:
  assumes "dict_wf d"
  shows "concat (map (\<lambda>(k, v). case k of None \<Rightarrow> [] | Some t \<Rightarrow> f t v) (zip (d_key d) (d_val d)))
    = concat (map (\<lambda>(k, v). f k v) (dict_entries d))"
proof -
  have "concat (map (\<lambda>(k, v). case k of None \<Rightarrow> [] | Some t \<Rightarrow> f t v) (zip ks vs))
      = concat (map (\<lambda>(k, v). f k v) (map (\<lambda>(k, v). (the k, v)) (filter (\<lambda>(k, v). k \<noteq> None) (zip ks vs))))"
    if "length vs = length ks" for ks and vs :: "string option list"
    using that
  proof (induction vs ks rule: list_induct2)
    case (Cons v vs k ks)
    then show ?case by (cases k) simp_all
  qed simp
  with assms show ?thesis by (simp add: dict_entries_def dict_wf_def)
qed

lemma dumpsection_lines:
  assumes "dict_wf d" and "s \<in> set (section_names d)" and "sec_name s"
  shows "iniparser_dumpsection_ini (Some d) s = Ok (unlines (section_lines (dict_entries d) s))"
proof -
  have key: "ini_key s = s" using assms(3) by (simp add: ini_key_def sec_name_def ASCIILINESZ_def)
  have "s \<in> fst ` set (dict_entries d)" using assms(2) by (auto simp: section_names_def)
  then have "dict_map d s \<noteq> None" unfolding dict_map_def by (metis map_of_eq_None_iff)
  then have find: "iniparser_find_entry (Some d) (Some s)"
    by (auto simp: iniparser_find_entry_def iniparser_getstring_key key dictionary_get_map [OF assms(1)]
        val_ptr_def split: option.splits)
  have "concat (map (\<lambda>(k, v). f k v) es)
      = unlines (map (entry_line s) (section_entries s es))"
    if "f = (\<lambda>t v. if starts_with (s @ '':'') t then pad_right 30 (drop (length s + 1) t) @ '' = ''
          @ (case v of Some w \<Rightarrow> w | None \<Rightarrow> []) @ nl else [])" for f es
    unfolding that by (induction es) (auto simp: section_entries_def entry_line_def key_line_def nl_NEWLINE)
  then show ?thesis
    using assms(3) find
    by (simp add: iniparser_dumpsection_ini_def sec_name_def ASCIILINESZ_def concat_slots [OF assms(1)]
        section_lines_def sec_line_def nl_NEWLINE)
qed

lemma dump_ini_lines:
  assumes wf: "dict_wf d" and ne: "section_names d \<noteq> []" and sec: "\<forall>s \<in> set (section_names d). sec_name s"
  shows "iniparser_dump_ini (Some d) = Ok (unlines (dump_lines d))"
proof -
  have nsec: "iniparser_getnsec (Some d) = int (length (section_names d))"
    by (simp add: iniparser_getnsec_def section_slots [OF wf])
  have "iniparser_getsecname (Some d) (int i) = Some (section_names d ! i)"
    if "i < length (section_names d)" for i
    using that secname_loop_nth [of 0 "int i" "d_key d"]
    by (simp add: iniparser_getsecname_def section_slots [OF wf])
  then have names: "map (\<lambda>i. iniparser_getsecname (Some d) (int i)) [0..<length (section_names d)]
      = map Some (section_names d)"
    by (intro nth_equalityI) auto
  have "dump_sections (Some d) (map Some ss)
      = Ok (unlines (concat (map (section_lines (dict_entries d)) ss) @ [[]]))"
    if "set ss \<subseteq> set (section_names d)" for ss
    using that
  proof (induction ss)
    case (Cons s ss)
    then show ?case using dumpsection_lines [OF wf, of s] sec by simp
  qed (simp add: nl_NEWLINE)
  then show ?thesis
    using ne by (simp add: iniparser_dump_ini_def nsec names dump_lines_def Let_def Suc_le_eq)
qed

subsection \<open>Reading the lines back\<close>

lemma ini_join_text:
  assumes "\<forall>l \<in> set ls. l = [] \<or> length l + 1 < ASCIILINESZ \<and> rstrip l \<noteq> [] \<and> last (rstrip l) \<noteq> BACKSLASH"
  shows "ini_join [] ls = Some (map rstrip (filter (\<lambda>l. l \<noteq> []) ls))"
  using assms by (induction ls) (auto simp: ASCIILINESZ_def)

definition put_all ::
  "(string \<times> string option) list \<Rightarrow> (string \<times> string option) list \<Rightarrow> (string \<times> string option) list" where
  "put_all kvs es = fold (\<lambda>(k, v). AList.update k v) kvs es"

definition good_entry :: "string \<Rightarrow> string \<times> string option \<Rightarrow> bool" where
  "good_entry s kv \<longleftrightarrow> (case kv of (k, v) \<Rightarrow> starts_with (s @ '':'') k \<and> key_name (drop (length s + 1) k)
     \<and> v \<noteq> None \<and> value_text (the v) \<and> length (entry_line s kv) + 1 < ASCIILINESZ)"

lemma good_entry_line:
  assumes "good_entry s kv"
  obtains n v where "kv = (s @ '':'' @ n, Some v)" and "key_name n" and "value_text v"
    and "entry_line s kv = key_line n v" and "length (key_line n v) + 1 < ASCIILINESZ"
proof -
  obtain k v where kv: "kv = (k, Some v)" using assms by (cases kv) (auto simp: good_entry_def)
  have "k = s @ '':'' @ drop (length s + 1) k"
    using assms append_take_drop_id [of "length s + 1" k]
    by (simp add: kv good_entry_def starts_with_def)
  then show thesis
    using assms that [of "drop (length s + 1) k" v]
    by (simp add: kv good_entry_def entry_line_def)
qed

lemma key_line_text:
  assumes "key_name n" and "value_text v"
  shows "rstrip (key_line n v) \<noteq> []" and "last (rstrip (key_line n v)) \<noteq> BACKSLASH"
    and "plain_line (key_line n v)"
proof -
  have sp: "c_isspace (CHR '' '')" "\<not> c_isspace (CHR ''='')" by (simp_all add: c_isspace_def)
  note r = rstrip_key_line [OF assms(2)]
  show "rstrip (key_line n v) \<noteq> []" unfolding r by (simp add: key_line_def)
  show "last (rstrip (key_line n v)) \<noteq> BACKSLASH"
    using assms(2) unfolding r
    by (auto simp: key_line_def value_text_def BACKSLASH_def)
  show "plain_line (key_line n v)"
    using assms by (auto simp: key_line_def key_name_def value_text_def plain_line_def pad_right_def
        special_chars)
qed

lemma sec_line_text:
  assumes "sec_name s"
  shows "rstrip (sec_line s) = sec_line s" and "last (sec_line s) \<noteq> BACKSLASH"
    and "plain_line (sec_line s)" and "length (sec_line s) + 1 < ASCIILINESZ"
  using assms rstrip_snoc [of "CHR '']''" "''['' @ s"]
  by (auto simp: sec_line_def sec_name_def plain_line_def special_chars ASCIILINESZ_def c_isspace_def)

lemma meaning_section:
  assumes "sec_name s" and "\<forall>kv \<in> set kvs. good_entry s kv"
  shows "ini_meaning sec es (sec_line s # map (\<lambda>kv. rstrip (entry_line s kv)) kvs @ rest)
    = ini_meaning s (put_all ((s, None) # kvs) es) rest"
proof -
  have "ini_meaning s es (map (\<lambda>kv. rstrip (entry_line s kv)) kvs @ rest)
      = ini_meaning s (put_all kvs es) rest" for es
    using assms(2)
  proof (induction kvs arbitrary: es)
    case (Cons kv kvs)
    from Cons.prems have "good_entry s kv" by simp
    then obtain n v where "kv = (s @ '':'' @ n, Some v)" "key_name n" "value_text v"
      "entry_line s kv = key_line n v" by (rule good_entry_line)
    then show ?case
      using Cons.IH [of "AList.update (s @ '':'' @ n) (Some v) es"] Cons.prems
      by (simp add: ini_item_key_line put_all_def)
  qed (simp add: put_all_def)
  then show ?thesis by (simp add: ini_item_sec_line [OF assms(1)] put_all_def)
qed

subsection \<open>The round trip\<close>

text \<open>
  A dictionary the format can carry: there is a section; every key without a colon is a section
  name without value; every other key belongs to one of the sections, and its line fits.
\<close>

definition dumpable :: "dictionary \<Rightarrow> bool" where
  "dumpable d \<longleftrightarrow> section_names d \<noteq> [] \<and> list_all (\<lambda>(k, v).
     if CHR '':'' \<notin> set k then sec_name k \<and> v = None
     else takeWhile (\<lambda>c. c \<noteq> CHR '':'') k \<in> set (section_names d)
        \<and> good_entry (takeWhile (\<lambda>c. c \<noteq> CHR '':'') k) (k, v)) (dict_entries d)"

definition dump_pairs :: "dictionary \<Rightarrow> (string \<times> string option) list" where
  "dump_pairs d = concat (map (\<lambda>s. (s, None) # section_entries s (dict_entries d)) (section_names d))"

lemma dumpable_section:
  assumes "dumpable d" and "s \<in> set (section_names d)"
  shows "sec_name s" and "(s, None) \<in> set (dict_entries d)"
    and "\<forall>kv \<in> set (section_entries s (dict_entries d)). good_entry s kv"
proof -
  obtain v where e: "(s, v) \<in> set (dict_entries d)" "CHR '':'' \<notin> set s"
    using assms(2) by (auto simp: section_names_def)
  then show "sec_name s" "(s, None) \<in> set (dict_entries d)"
    using assms(1) by (fastforce simp: dumpable_def list_all_iff)+
  show "\<forall>kv \<in> set (section_entries s (dict_entries d)). good_entry s kv"
  proof
    fix kv assume "kv \<in> set (section_entries s (dict_entries d))"
    then obtain k w where kv: "kv = (k, w)" "(k, w) \<in> set (dict_entries d)" "starts_with (s @ '':'') k"
      by (auto simp: section_entries_def)
    then have "k = s @ CHR '':'' # drop (length s + 1) k"
      using append_take_drop_id [of "length s + 1" k] by (simp add: starts_with_def)
    then have "takeWhile (\<lambda>c. c \<noteq> CHR '':'') k = s" "CHR '':'' \<in> set k"
      using takeWhile_not [OF e(2)] by (metis, metis in_set_conv_decomp)
    then show "good_entry s kv"
      using assms(1) kv by (fastforce simp: dumpable_def list_all_iff)
  qed
qed

lemma meaning_dump:
  assumes "dumpable d"
  shows "ini_meaning [] [] (map rstrip (filter (\<lambda>l. l \<noteq> []) (dump_lines d)))
    = Some (put_all (dump_pairs d) [])"
proof -
  have "ini_meaning sec es (map rstrip (filter (\<lambda>l. l \<noteq> [])
        (concat (map (section_lines (dict_entries d)) ss) @ [[]])))
      = Some (put_all (concat (map (\<lambda>s. (s, None) # section_entries s (dict_entries d)) ss)) es)"
    if "set ss \<subseteq> set (section_names d)" for sec es ss
    using that
  proof (induction ss arbitrary: sec es)
    case (Cons s ss)
    note s = dumpable_section [OF assms, of s]
    have sn: "sec_name s" using s(1) Cons.prems by simp
    have lines: "filter (\<lambda>l. l \<noteq> []) (section_lines (dict_entries d) s)
        = sec_line s # map (entry_line s) (section_entries s (dict_entries d))"
      by (simp add: section_lines_def sec_line_def entry_line_def key_line_def filter_id_conv)
    have app: "put_all (a @ b) es = put_all b (put_all a es)" for a b es
      by (simp add: put_all_def)
    show ?case
      using meaning_section [OF sn, of "section_entries s (dict_entries d)" sec es] s(3) Cons
      by (simp add: lines sec_line_text(1) [OF sn] o_def app del: put_all_def)
         (simp add: put_all_def)
  qed (simp add: put_all_def)
  then show ?thesis by (simp add: dump_lines_def dump_pairs_def)
qed

lemma map_of_put_all:
  assumes "\<forall>(k, v) \<in> set kvs. m k = Some v"
  shows "map_of (put_all kvs es) k = (if k \<in> fst ` set kvs then m k else map_of es k)"
  using assms by (induction kvs arbitrary: es) (auto simp: put_all_def update_conv')

lemma dict_map_entries:
  assumes "dict_wf d"
  shows "dict_map d k = Some v \<longleftrightarrow> (k, v) \<in> set (dict_entries d)"
proof
  show "dict_map d k = Some v \<Longrightarrow> (k, v) \<in> set (dict_entries d)"
    unfolding dict_map_def by (rule map_of_SomeD)
  have len: "length (d_key d) = length (d_val d)" using assms by (simp add: dict_wf_def)
  assume "(k, v) \<in> set (dict_entries d)"
  then show "dict_map d k = Some v"
    using len by (auto simp: dict_map_Some [OF assms] has_slot_def dict_entries_def in_set_zip)
qed

lemma map_of_dump_pairs:
  assumes wf: "dict_wf d" and d: "dumpable d"
  shows "map_of (put_all (dump_pairs d) []) = dict_map d"
proof -
  have ent: "dict_map d k = Some v \<longleftrightarrow> (k, v) \<in> set (dict_entries d)" for k v
    by (rule dict_map_entries [OF wf])
  have sub: "\<forall>(k, v) \<in> set (dump_pairs d). dict_map d k = Some v"
    using dumpable_section(2) [OF d] by (auto simp: dump_pairs_def ent section_entries_def)
  have all: "k \<in> fst ` set (dump_pairs d)" if kv: "(k, v) \<in> set (dict_entries d)" for k v
  proof (cases "CHR '':'' \<in> set k")
    case False
    then have "k \<in> set (section_names d)" using kv by (force simp: section_names_def)
    then show ?thesis by (force simp: dump_pairs_def)
  next
    case True
    let ?s = "takeWhile (\<lambda>c. c \<noteq> CHR '':'') k"
    have "?s \<in> set (section_names d)" "good_entry ?s (k, v)"
      using d kv True by (auto simp: dumpable_def list_all_iff)
    then show ?thesis
      using kv by (force simp: dump_pairs_def section_entries_def good_entry_def)
  qed
  show ?thesis
  proof
    fix k
    show "map_of (put_all (dump_pairs d) []) k = dict_map d k"
      using map_of_put_all [OF sub, of "[]" k] all ent by (cases "dict_map d k") auto
  qed
qed

lemma dump_lines_text:
  assumes "dumpable d" and "l \<in> set (dump_lines d)"
  shows "plain_line l"
    and "l = [] \<or> length l + 1 < ASCIILINESZ \<and> rstrip l \<noteq> [] \<and> last (rstrip l) \<noteq> BACKSLASH"
proof -
  consider "l = []" | s where "s \<in> set (section_names d)" "l = sec_line s"
    | s kv where "s \<in> set (section_names d)" "kv \<in> set (section_entries s (dict_entries d))" "l = entry_line s kv"
    using assms(2) by (auto simp: dump_lines_def section_lines_def split: if_splits)
  then have "plain_line l \<and> (l = [] \<or> length l + 1 < ASCIILINESZ \<and> rstrip l \<noteq> [] \<and> last (rstrip l) \<noteq> BACKSLASH)"
  proof cases
    case 1
    then show ?thesis by (simp add: plain_line_def)
  next
    case (2 s)
    then show ?thesis
      using sec_line_text [OF dumpable_section(1) [OF assms(1) 2(1)]] by (auto simp: sec_line_def)
  next
    case (3 s kv)
    then have "good_entry s kv" using dumpable_section(3) [OF assms(1)] by blast
    then obtain n v where "kv = (s @ '':'' @ n, Some v)" "key_name n" "value_text v"
      "entry_line s kv = key_line n v" "length (key_line n v) + 1 < ASCIILINESZ" by (rule good_entry_line)
    then show ?thesis using key_line_text [of n v] 3(3) by simp
  qed
  then show "plain_line l"
    and "l = [] \<or> length l + 1 < ASCIILINESZ \<and> rstrip l \<noteq> [] \<and> last (rstrip l) \<noteq> BACKSLASH"
    by simp_all
qed

lemma length_unlines: "length ls \<le> length (unlines ls)"
  by (induction ls) auto

subsection \<open>Property\<close>

text \<open>
  C11: A dictionary whose names and values the ini format can carry is dumped completely, and
  loading the dump gives a dictionary in order with the same map from keys to values.
\<close>

theorem iniparser_dump_load:
  assumes wf: "dict_wf d" and d: "dumpable d"
  shows "\<exists>out. iniparser_dump_ini (Some d) = Ok out \<and> (length out < 2147483646 \<longrightarrow>
    (\<exists>d' msgs. iniparser_load True all_alloc (Some out) = Ok (Some d', msgs)
       \<and> dict_wf d' \<and> dict_map d' = dict_map d))"
proof -
  let ?ls = "dump_lines d"
  have "iniparser_dump_ini (Some d) = Ok (unlines ?ls)"
    using d dumpable_section(1) [OF d] by (intro dump_ini_lines [OF wf]) (auto simp: dumpable_def)
  moreover have "\<exists>d' msgs. iniparser_load True all_alloc (Some (unlines ?ls)) = Ok (Some d', msgs)
       \<and> dict_wf d' \<and> dict_map d' = dict_map d" if "length (unlines ?ls) < 2147483646"
  proof -
    have "load_ok (length ?ls) (ini_state_init dict_empty) dict_empty"
      using that length_unlines [of ?ls] dict_empty_wf
      by (simp add: load_ok_def ini_state_init_def ASCIILINESZ_def dict_empty_def)
    moreover have "ini_join [] ?ls = Some (map rstrip (filter (\<lambda>l. l \<noteq> []) ?ls))"
      using dump_lines_text(2) [OF d] by (intro ini_join_text) blast
    ultimately obtain st' d' where
      "load_loop all_alloc (unlines ?ls) (ini_state_init dict_empty) = Ok (True, st')"
      "load_ok 0 st' d'" "is_errs st' = 0" "dict_entries d' = put_all (dump_pairs d) []"
      using load_loop_lines [of ?ls "ini_state_init dict_empty" dict_empty] dump_lines_text(1) [OF d]
      by (fastforce simp: meaning_dump [OF d] ini_state_init_def)
    then show ?thesis
      using map_of_dump_pairs [OF wf d]
      by (auto simp: iniparser_load_def dict_empty_new load_ok_def dict_map_def)
  qed
  ultimately show ?thesis by blast
qed

theorem iniparser_dump_load_witness:
  "\<exists>d out d' msgs. iniparser_dump_ini (Some d) = Ok out
     \<and> iniparser_load True all_alloc (Some out) = Ok (Some d', msgs)
     \<and> dict_map d' ''www:pm'' = Some (Some ''static'')"
proof -
  let ?es = "[(''www'', None), (''www:pm'', Some ''static'')]"
  obtain d where d: "dict_wf d" "dict_entries d = ?es" using dict_of_entries [of ?es] by auto
  have dmp: "dumpable d" unfolding dumpable_def section_names_def d(2) by code_simp
  have "length (unlines (dump_lines d)) = 49"
    unfolding dump_lines_def section_names_def d(2) by code_simp
  then have "length (unlines (dump_lines d)) < 2147483646" by simp
  moreover have "iniparser_dump_ini (Some d) = Ok (unlines (dump_lines d))"
    using dmp dumpable_section(1) [OF dmp]
    by (intro dump_ini_lines [OF d(1)]) (auto simp: dumpable_def)
  moreover have "dict_map d ''www:pm'' = Some (Some ''static'')" by (simp add: dict_map_def d(2))
  ultimately show ?thesis using iniparser_dump_load [OF d(1) dmp] by force
qed

end
