(* ===== verification/Pmf_Conf_Parsers.thy ===== *)
theory Pmf_Conf_Parsers
  imports Pmf_Types
begin

text \<open>
  The value parsers of \<open>pmf_conf.c\<close> and the tables that bind an option to a parser and a field.
  A parser gets the structure as a pointer and a byte offset, so the two structures are given
  by their cells: which offset holds which field under the LP64 layout, what a store of an
  \<open>int\<close> or of a \<open>char *\<close> at an offset does, and what is undefined.
\<close>

definition MAX_KEY_VALUE_LEN :: nat where "MAX_KEY_VALUE_LEN = 128"
definition PMF_BACKLOG_DEFAULT :: int where "PMF_BACKLOG_DEFAULT = 511"

subsection \<open>The layout of the structures\<close>

datatype global_field =
    G_pid_file | G_include_dir | G_error_log | G_log_level | G_emergency_restart_threshold
  | G_emergency_restart_interval | G_process_control_timeout | G_process_max
  | G_process_priority | G_daemonize | G_rlimit_files | G_rlimit_core | G_event_mechanism

fun GO :: "global_field \<Rightarrow> nat" where
  "GO G_pid_file = 0"
| "GO G_include_dir = 8"
| "GO G_error_log = 16"
| "GO G_log_level = 24"
| "GO G_emergency_restart_threshold = 28"
| "GO G_emergency_restart_interval = 32"
| "GO G_process_control_timeout = 36"
| "GO G_process_max = 40"
| "GO G_process_priority = 44"
| "GO G_daemonize = 48"
| "GO G_rlimit_files = 52"
| "GO G_rlimit_core = 56"
| "GO G_event_mechanism = 64"

datatype pool_field =
    P_name | P_user | P_group | P_listen_address | P_listen_owner | P_listen_group
  | P_listen_mode | P_listen_backlog | P_process_priority | P_process_dumpable | P_pm_type
  | P_pm_max_children | P_pm_start_servers | P_pm_min_spare_servers
  | P_pm_max_spare_servers | P_pm_process_idle_timeout | P_pm_max_requests

fun WPO :: "pool_field \<Rightarrow> nat" where
  "WPO P_name = 0"
| "WPO P_user = 8"
| "WPO P_group = 16"
| "WPO P_listen_address = 24"
| "WPO P_listen_owner = 32"
| "WPO P_listen_group = 40"
| "WPO P_listen_mode = 48"
| "WPO P_listen_backlog = 56"
| "WPO P_process_priority = 60"
| "WPO P_process_dumpable = 64"
| "WPO P_pm_type = 68"
| "WPO P_pm_max_children = 72"
| "WPO P_pm_start_servers = 76"
| "WPO P_pm_min_spare_servers = 80"
| "WPO P_pm_max_spare_servers = 84"
| "WPO P_pm_process_idle_timeout = 88"
| "WPO P_pm_max_requests = 92"

text \<open>
  The cells of a structure: loads and stores at an offset. A store or load with the wrong type
  is \<open>TypePun\<close>, one beyond the structure \<open>OutOfBounds\<close>; the four padding bytes before
  \<open>event_mechanism\<close> may be written.
\<close>

record 'c cells =
  get_str :: "'c \<Rightarrow> nat \<Rightarrow> (unit, string option) outcome"
  put_str :: "'c \<Rightarrow> nat \<Rightarrow> string option \<Rightarrow> (unit, 'c) outcome"
  put_int :: "'c \<Rightarrow> nat \<Rightarrow> int \<Rightarrow> (unit, 'c) outcome"

definition bad_cell :: "nat \<Rightarrow> nat \<Rightarrow> nat \<Rightarrow> (unit, 'a) outcome" where
  "bad_cell width sz off = (if off + width > sz then Undef OutOfBounds else Undef TypePun)"

definition global_get_str :: "pmf_global_config \<Rightarrow> nat \<Rightarrow> (unit, string option) outcome" where
  "global_get_str g off =
     (if off = GO G_pid_file then Ok (gc_pid_file g)
      else if off = GO G_include_dir then Ok (gc_include_dir g)
      else if off = GO G_error_log then Ok (gc_error_log g)
      else if off = GO G_event_mechanism then Ok (gc_event_mechanism g)
      else bad_cell 8 72 off)"

definition global_put_str ::
  "pmf_global_config \<Rightarrow> nat \<Rightarrow> string option \<Rightarrow> (unit, pmf_global_config) outcome" where
  "global_put_str g off v =
     (if off = GO G_pid_file then Ok (g\<lparr>gc_pid_file := v\<rparr>)
      else if off = GO G_include_dir then Ok (g\<lparr>gc_include_dir := v\<rparr>)
      else if off = GO G_error_log then Ok (g\<lparr>gc_error_log := v\<rparr>)
      else if off = GO G_event_mechanism then Ok (g\<lparr>gc_event_mechanism := v\<rparr>)
      else bad_cell 8 72 off)"

definition global_put_int ::
  "pmf_global_config \<Rightarrow> nat \<Rightarrow> int \<Rightarrow> (unit, pmf_global_config) outcome" where
  "global_put_int g off v =
     (if off = GO G_log_level then Ok (g\<lparr>gc_log_level := v\<rparr>)
      else if off = GO G_emergency_restart_threshold then Ok (g\<lparr>gc_emergency_restart_threshold := v\<rparr>)
      else if off = GO G_emergency_restart_interval then Ok (g\<lparr>gc_emergency_restart_interval := v\<rparr>)
      else if off = GO G_process_control_timeout then Ok (g\<lparr>gc_process_control_timeout := v\<rparr>)
      else if off = GO G_process_max then Ok (g\<lparr>gc_process_max := v\<rparr>)
      else if off = GO G_process_priority then Ok (g\<lparr>gc_process_priority := v\<rparr>)
      else if off = GO G_daemonize then Ok (g\<lparr>gc_daemonize := v\<rparr>)
      else if off = GO G_rlimit_files then Ok (g\<lparr>gc_rlimit_files := v\<rparr>)
      else if off = GO G_rlimit_core then Ok (g\<lparr>gc_rlimit_core := v\<rparr>)
      else if off = 60 then Ok g
      else bad_cell 4 72 off)"

definition global_cells :: "pmf_global_config cells" where
  "global_cells = \<lparr>get_str = global_get_str, put_str = global_put_str, put_int = global_put_int\<rparr>"

definition pool_get_str :: "wp_config \<Rightarrow> nat \<Rightarrow> (unit, string option) outcome" where
  "pool_get_str c off =
     (if off = WPO P_name then Ok (wpc_name c)
      else if off = WPO P_user then Ok (wpc_user c)
      else if off = WPO P_group then Ok (wpc_group c)
      else if off = WPO P_listen_address then Ok (wpc_listen_address c)
      else if off = WPO P_listen_owner then Ok (wpc_listen_owner c)
      else if off = WPO P_listen_group then Ok (wpc_listen_group c)
      else if off = WPO P_listen_mode then Ok (wpc_listen_mode c)
      else bad_cell 8 96 off)"

definition pool_put_str :: "wp_config \<Rightarrow> nat \<Rightarrow> string option \<Rightarrow> (unit, wp_config) outcome" where
  "pool_put_str c off v =
     (if off = WPO P_name then Ok (c\<lparr>wpc_name := v\<rparr>)
      else if off = WPO P_user then Ok (c\<lparr>wpc_user := v\<rparr>)
      else if off = WPO P_group then Ok (c\<lparr>wpc_group := v\<rparr>)
      else if off = WPO P_listen_address then Ok (c\<lparr>wpc_listen_address := v\<rparr>)
      else if off = WPO P_listen_owner then Ok (c\<lparr>wpc_listen_owner := v\<rparr>)
      else if off = WPO P_listen_group then Ok (c\<lparr>wpc_listen_group := v\<rparr>)
      else if off = WPO P_listen_mode then Ok (c\<lparr>wpc_listen_mode := v\<rparr>)
      else bad_cell 8 96 off)"

definition pool_put_int :: "wp_config \<Rightarrow> nat \<Rightarrow> int \<Rightarrow> (unit, wp_config) outcome" where
  "pool_put_int c off v =
     (if off = WPO P_listen_backlog then Ok (c\<lparr>wpc_listen_backlog := v\<rparr>)
      else if off = WPO P_process_priority then Ok (c\<lparr>wpc_process_priority := v\<rparr>)
      else if off = WPO P_process_dumpable then Ok (c\<lparr>wpc_process_dumpable := v\<rparr>)
      else if off = WPO P_pm_type then Ok (c\<lparr>wpc_pm_type := v\<rparr>)
      else if off = WPO P_pm_max_children then Ok (c\<lparr>wpc_pm_max_children := v\<rparr>)
      else if off = WPO P_pm_start_servers then Ok (c\<lparr>wpc_pm_start_servers := v\<rparr>)
      else if off = WPO P_pm_min_spare_servers then Ok (c\<lparr>wpc_pm_min_spare_servers := v\<rparr>)
      else if off = WPO P_pm_max_spare_servers then Ok (c\<lparr>wpc_pm_max_spare_servers := v\<rparr>)
      else if off = WPO P_pm_process_idle_timeout then Ok (c\<lparr>wpc_pm_process_idle_timeout := v\<rparr>)
      else if off = WPO P_pm_max_requests then Ok (c\<lparr>wpc_pm_max_requests := v\<rparr>)
      else bad_cell 4 96 off)"

definition pool_cells :: "wp_config cells" where
  "pool_cells = \<lparr>get_str = pool_get_str, put_str = pool_put_str, put_int = pool_put_int\<rparr>"

text \<open>A single \<open>int\<close> variable as a structure (\<open>subconf\<close> of \<open>rlimit_core\<close>).\<close>

definition int_cells :: "int cells" where
  "int_cells = \<lparr>get_str = (\<lambda>c off. bad_cell 8 4 off), put_str = (\<lambda>c off v. bad_cell 8 4 off),
     put_int = (\<lambda>c off v. if off = 0 then Ok v else bad_cell 4 4 off)\<rparr>"

subsection \<open>Expanding \<open>$pool\<close>\<close>

text \<open>\<open>strstr\<close>: what is before and after the first occurrence.\<close>

fun split_token :: "string \<Rightarrow> string \<Rightarrow> (string \<times> string) option" where
  "split_token tok [] = (if tok = [] then Some ([], []) else None)"
| "split_token tok (c # cs) =
     (if take (length tok) (c # cs) = tok then Some ([], drop (length tok) (c # cs))
      else map_option (\<lambda>(a, b). (c # a, b)) (split_token tok cs))"

lemma split_token_Some: "split_token tok s = Some (a, b) \<Longrightarrow> s = a @ tok @ b"
proof (induction s arbitrary: a)
  case (Cons c cs)
  show ?case
  proof (cases "take (length tok) (c # cs) = tok")
    case True
    then show ?thesis using Cons.prems append_take_drop_id [of "length tok" "c # cs"] by simp
  next
    case False
    then obtain a' where "split_token tok cs = Some (a', b)" "a = c # a'"
      using Cons.prems by auto
    with Cons.IH show ?thesis by simp
  qed
qed (simp split: if_splits)

definition pool_token :: string where "pool_token = ''$pool''"

text \<open>\<open>dup s\<close> says whether \<open>strdup\<close> of \<open>s\<close> succeeds.\<close>

function pmf_conf_expand_pool_name :: "(string \<Rightarrow> bool) \<Rightarrow> string option \<Rightarrow> string option" where
  "pmf_conf_expand_pool_name dup v =
     (case v of None \<Rightarrow> None
      | Some s \<Rightarrow>
          (case split_token pool_token s of
             None \<Rightarrow> Some s
           | Some (before, p2) \<Rightarrow>
               let buf = snprintf_buf MAX_KEY_VALUE_LEN (before @ ''pool'' @ p2)
               in pmf_conf_expand_pool_name dup (if dup buf then Some buf else None)))"
  by pat_completeness auto
termination
  by (relation "measure (\<lambda>(dup, v). case v of None \<Rightarrow> 0 | Some s \<Rightarrow> length s)")
    (auto dest!: split_token_Some simp: snprintf_buf_def pool_token_def MAX_KEY_VALUE_LEN_def
      split: if_splits)

declare pmf_conf_expand_pool_name.simps [simp del]

subsection \<open>The parsers\<close>

text \<open>The structure afterwards and the returned message (\<open>None\<close> is the null pointer).\<close>

definition pmf_config_set_string ::
  "(string \<Rightarrow> bool) \<Rightarrow> 'c cells \<Rightarrow> string \<Rightarrow> 'c \<Rightarrow> nat \<Rightarrow> (unit, 'c \<times> string option) outcome" where
  "pmf_config_set_string dup cs v c off =
     obind (get_str cs c off) (\<lambda>old.
       if \<not> dup v then
         obind (put_str cs c off None) (\<lambda>c. Ok (c, Some ''pmf_conf_set_string(): strdup() failed!''))
       else
         obind (put_str cs c off (Some v)) (\<lambda>c.
           obind (put_str cs c off (pmf_conf_expand_pool_name dup (Some v))) (\<lambda>c. Ok (c, None))))"

definition single_quoted :: "string \<Rightarrow> string" where
  "single_quoted s = [CHR 0x27] @ s @ [CHR 0x27]"

definition log_level_of :: "string \<Rightarrow> int option" where
  "log_level_of v =
     (if strcasecmp_eq v ''debug'' then Some PLOG_DEBUG
      else if strcasecmp_eq v ''notice'' then Some PLOG_NOTICE
      else if strcasecmp_eq v ''warning'' then Some PLOG_WARNING
      else if strcasecmp_eq v ''error'' then Some PLOG_ERROR
      else if strcasecmp_eq v ''alert'' then Some PLOG_ALERT
      else None)"

definition pmf_conf_set_log_level ::
  "'c cells \<Rightarrow> string \<Rightarrow> 'c \<Rightarrow> nat \<Rightarrow> (unit, 'c \<times> string option) outcome" where
  "pmf_conf_set_log_level cs v c off =
     (case log_level_of v of
        None \<Rightarrow> Ok (c, Some (''invalid value for '' @ single_quoted ''log_level''))
      | Some l \<Rightarrow> obind (put_int cs c off l) (\<lambda>c. Ok (c, None)))"

definition integer_text :: "string \<Rightarrow> bool" where
  "integer_text v = all_digits (if v \<noteq> [] \<and> hd v = CHR ''-'' then tl v else v)"

definition pmf_conf_set_integer ::
  "'c cells \<Rightarrow> string \<Rightarrow> 'c \<Rightarrow> nat \<Rightarrow> (unit, 'c \<times> string option) outcome" where
  "pmf_conf_set_integer cs v c off =
     (if \<not> integer_text v then Ok (c, Some ''is not a valid number (greater or equal than zero)'')
      else obind (put_int cs c off (atoi v)) (\<lambda>c. Ok (c, None)))"

definition pmf_conf_set_rlimit_core ::
  "'c cells \<Rightarrow> string \<Rightarrow> 'c \<Rightarrow> nat \<Rightarrow> (unit, 'c \<times> string option) outcome" where
  "pmf_conf_set_rlimit_core cs v c off =
     (if strcasecmp_eq v ''unlimited'' then obind (put_int cs c off (- 1)) (\<lambda>c. Ok (c, None))
      else
        obind (pmf_conf_set_integer int_cells v 0 0) (\<lambda>(int_value, error).
          case error of
            Some e \<Rightarrow> Ok (c, Some e)
          | None \<Rightarrow>
              if int_value < 0
              then Ok (c, Some (''must be greater than zero or '' @ single_quoted ''unlimited''))
              else obind (put_int cs c off int_value) (\<lambda>c. Ok (c, None))))"

text \<open>The seconds, or the message; \<open>strlen\<close> runs before the null check.\<close>

definition time_seconds :: "(string \<Rightarrow> bool) \<Rightarrow> string \<Rightarrow> (unit, string + int) outcome" where
  "time_seconds dup v =
     (if \<not> dup v then Undef NullDeref
      else if v = [] then Ok (Inl ''invalid time value'')
      else
        let suffix = last v; body = butlast v in
        if suffix = CHR ''m'' then obind (checked32 (60 * atoi body)) (\<lambda>s. Ok (Inr s))
        else if suffix = CHR ''h'' then obind (checked32 (3600 * atoi body)) (\<lambda>s. Ok (Inr s))
        else if suffix = CHR ''d'' then obind (checked32 (86400 * atoi body)) (\<lambda>s. Ok (Inr s))
        else if suffix = CHR ''s'' then Ok (Inr (atoi body))
        else if \<not> c_isdigit suffix then Ok (Inl ''unknown suffix used in time value'')
        else Ok (Inr (atoi v)))"

definition pmf_conf_set_time ::
  "(string \<Rightarrow> bool) \<Rightarrow> 'c cells \<Rightarrow> string \<Rightarrow> 'c \<Rightarrow> nat \<Rightarrow> (unit, 'c \<times> string option) outcome" where
  "pmf_conf_set_time dup cs v c off =
     obind (time_seconds dup v) (\<lambda>r.
       case r of
         Inl e \<Rightarrow> Ok (c, Some e)
       | Inr seconds \<Rightarrow> obind (put_int cs c off seconds) (\<lambda>c. Ok (c, None)))"

definition fpm_conf_set_boolean ::
  "'c cells \<Rightarrow> string \<Rightarrow> 'c \<Rightarrow> nat \<Rightarrow> (unit, 'c \<times> string option) outcome" where
  "fpm_conf_set_boolean cs v c off =
     (let y = strcasecmp_eq v ''yes''; n = strcasecmp_eq v ''no'' in
      if \<not> y \<and> \<not> n then Ok (c, Some ''invalid boolean value'')
      else obind (put_int cs c off (if y then 1 else 0)) (\<lambda>c. Ok (c, None)))"

definition pm_type_of :: "string \<Rightarrow> int option" where
  "pm_type_of v =
     (if strcasecmp_eq v ''static'' then Some PM_STYLE_STATIC
      else if strcasecmp_eq v ''dynamic'' then Some PM_STYLE_DYNAMIC
      else if strcasecmp_eq v ''ondemand'' then Some PM_STYLE_ONDEMAND
      else None)"

definition pmf_conf_set_pm ::
  "'c cells \<Rightarrow> string \<Rightarrow> 'c \<Rightarrow> nat \<Rightarrow> (unit, 'c \<times> string option) outcome" where
  "pmf_conf_set_pm cs v c off =
     (case pm_type_of v of
        None \<Rightarrow> Ok (c, Some ''invalid process manager (static, dynamic or ondemand)'')
      | Some t \<Rightarrow> obind (put_int cs c off t) (\<lambda>c. Ok (c, None)))"

subsection \<open>The tables\<close>

datatype value_parser =
    Parse_string | Parse_log_level | Parse_integer | Parse_time | Parse_boolean
  | Parse_rlimit_core | Parse_pm

fun run_parser ::
  "value_parser \<Rightarrow> (string \<Rightarrow> bool) \<Rightarrow> 'c cells \<Rightarrow> string \<Rightarrow> 'c \<Rightarrow> nat \<Rightarrow>
   (unit, 'c \<times> string option) outcome" where
  "run_parser Parse_string dup cs v c off = pmf_config_set_string dup cs v c off"
| "run_parser Parse_log_level dup cs v c off = pmf_conf_set_log_level cs v c off"
| "run_parser Parse_integer dup cs v c off = pmf_conf_set_integer cs v c off"
| "run_parser Parse_time dup cs v c off = pmf_conf_set_time dup cs v c off"
| "run_parser Parse_boolean dup cs v c off = fpm_conf_set_boolean cs v c off"
| "run_parser Parse_rlimit_core dup cs v c off = pmf_conf_set_rlimit_core cs v c off"
| "run_parser Parse_pm dup cs v c off = pmf_conf_set_pm cs v c off"

type_synonym ini_value_parser = "string \<times> value_parser \<times> nat"

definition pmf_ini_global_option :: "ini_value_parser list" where
  "pmf_ini_global_option =
    [(''pid_file'', Parse_string, GO G_pid_file),
     (''include_dir'', Parse_string, GO G_include_dir),
     (''error_log'', Parse_string, GO G_error_log),
     (''log_level'', Parse_log_level, GO G_log_level),
     (''emergency_restart_threshold'', Parse_integer, GO G_emergency_restart_threshold),
     (''emergency_restart_interval'', Parse_time, GO G_emergency_restart_interval),
     (''process_control_timeout'', Parse_time, GO G_process_control_timeout),
     (''process.max'', Parse_integer, GO G_process_max),
     (''process.priority'', Parse_integer, GO G_process_priority),
     (''daemonize'', Parse_boolean, GO G_daemonize),
     (''rlimit_files'', Parse_integer, GO G_rlimit_files),
     (''rlimit_core'', Parse_rlimit_core, GO G_rlimit_core),
     (''events.mechanism'', Parse_string, GO G_event_mechanism)]"

definition pmf_ini_pool_option :: "ini_value_parser list" where
  "pmf_ini_pool_option =
    [(''user'', Parse_string, WPO P_user),
     (''group'', Parse_string, WPO P_group),
     (''listen'', Parse_string, WPO P_listen_address),
     (''listen_backlog'', Parse_integer, WPO P_listen_backlog),
     (''process_priority'', Parse_integer, WPO P_process_priority),
     (''process.dumpable'', Parse_integer, WPO P_process_dumpable),
     (''pm'', Parse_pm, WPO P_pm_type),
     (''pm.max_children'', Parse_integer, WPO P_pm_max_children),
     (''pm.start_servers'', Parse_integer, WPO P_pm_start_servers),
     (''pm.min_spare_servers'', Parse_integer, WPO P_pm_min_spare_servers),
     (''pm.max_spare_servers'', Parse_integer, WPO P_pm_max_spare_servers),
     (''pm.process_idle_timeout'', Parse_integer, WPO P_pm_process_idle_timeout),
     (''pm.max_requests'', Parse_integer, WPO P_pm_max_requests)]"

end
