(* ===== verification/Pmf_Signals.thy ===== *)
theory Pmf_Signals
  imports Pmf_Log
begin

text \<open>
  The signal pipe of \<open>pmf_signals.c\<close> with \<open>fd_set_blocked\<close> of \<open>pmf_sockets.h\<close>, the standard
  descriptors and the error log of \<open>pmf_stdio.c\<close>, and the clock of \<open>pmf_clock.c\<close>. The answers
  of the system are parameters; what is requested of it is returned.
\<close>

unbundle bit_operations_syntax

subsection \<open>pmf_sockets.h\<close>

definition O_NONBLOCK :: int where "O_NONBLOCK = 2048"

text \<open>
  \<open>getfl\<close> is the answer to \<open>F_GETFL\<close>, \<open>setfl\<close> that to \<open>F_SETFL\<close>; the second component of the
  result is the flags requested.
\<close>

definition fd_set_blocked :: "int \<Rightarrow> (int \<Rightarrow> int) \<Rightarrow> int \<Rightarrow> int \<times> int option" where
  "fd_set_blocked getfl setfl blocked =
     (if getfl < 0 then (- 1, None)
      else
        let flags = (if blocked \<noteq> 0 then getfl OR O_NONBLOCK else getfl AND NOT O_NONBLOCK)
        in (setfl flags, Some flags))"

subsection \<open>pmf_signals.c\<close>

definition SIGINT :: int where "SIGINT = 2"
definition SIGQUIT :: int where "SIGQUIT = 3"
definition SIGUSR1 :: int where "SIGUSR1 = 10"
definition SIGUSR2 :: int where "SIGUSR2 = 12"
definition SIGTERM :: int where "SIGTERM = 15"
definition SIGCHLD :: int where "SIGCHLD = 17"
definition NSIG :: int where "NSIG = 65"

lemmas signal_numbers = SIGINT_def SIGQUIT_def SIGUSR1_def SIGUSR2_def SIGTERM_def SIGCHLD_def

definition sig_chars :: "int \<Rightarrow> (unit, char) outcome" where
  "sig_chars signo =
     (if signo < 0 \<or> signo \<ge> NSIG + 1 then Undef OutOfBounds
      else if signo = SIGTERM then Ok (CHR ''T'')
      else if signo = SIGINT then Ok (CHR ''I'')
      else if signo = SIGUSR1 then Ok (CHR ''1'')
      else if signo = SIGUSR2 then Ok (CHR ''2'')
      else if signo = SIGQUIT then Ok (CHR ''Q'')
      else if signo = SIGCHLD then Ok (CHR ''C'')
      else Ok (CHR 0x00))"

text \<open>The byte written to \<open>sp[1]\<close>, if one is written; \<open>errno\<close> is restored.\<close>

definition sig_handler :: "pmf_globals \<Rightarrow> int \<Rightarrow> int \<Rightarrow> int \<Rightarrow> (unit, (int \<times> char) option) outcome" where
  "sig_handler gl pid sp1 signo =
     (if g_parent_pid gl \<noteq> pid then Ok None
      else obind (sig_chars signo) (\<lambda>s. Ok (Some (sp1, s))))"

record signal_env =
  sg_socketpair :: "(int \<times> int) option"
  sg_getfl :: "int \<Rightarrow> int"
  sg_setfl :: "int \<Rightarrow> int \<Rightarrow> int"
  sg_setfd :: "int \<Rightarrow> int"
  sg_sigaction :: "int \<Rightarrow> int"

datatype signal_call = Set_flags int "int option" | Set_cloexec int | Sigaction int

text \<open>\<open>0 > a || 0 > b || ...\<close> over a list of calls: those made, and whether one failed.\<close>

fun until_failure :: "('a \<Rightarrow> int) \<Rightarrow> 'a list \<Rightarrow> bool \<times> 'a list" where
  "until_failure f [] = (False, [])"
| "until_failure f (x # xs) =
     (if 0 > f x then (True, [x]) else (case until_failure f xs of (b, ys) \<Rightarrow> (b, x # ys)))"

text \<open>The result, the static pair \<open>sp\<close> and the calls made.\<close>

definition pmf_signals_init_main ::
  "signal_env \<Rightarrow> int \<times> int \<Rightarrow> int \<times> (int \<times> int) \<times> signal_call list" where
  "pmf_signals_init_main env sp0 =
     (case sg_socketpair env of None \<Rightarrow> (- 1, sp0, [])
      | Some sp \<Rightarrow>
          let block = (\<lambda>fd. fd_set_blocked (sg_getfl env fd) (sg_setfl env fd) 0);
              fds = [fst sp, snd sp]
          in case until_failure (\<lambda>fd. fst (block fd)) fds of (bad1, done1) \<Rightarrow>
             let tr1 = map (\<lambda>fd. Set_flags fd (snd (block fd))) done1 in
             if bad1 then (- 1, sp, tr1)
             else case until_failure (sg_setfd env) fds of (bad2, done2) \<Rightarrow>
               let tr2 = tr1 @ map Set_cloexec done2 in
               if bad2 then (- 1, sp, tr2)
               else case until_failure (sg_sigaction env)
                        [SIGTERM, SIGINT, SIGUSR1, SIGUSR2, SIGCHLD, SIGQUIT] of (bad3, done3) \<Rightarrow>
                 (if bad3 then - 1 else 0, sp, tr2 @ map Sigaction done3))"

subsection \<open>pmf_stdio.c\<close>

definition pmf_use_error_log :: "pmf_global_config \<Rightarrow> bool \<Rightarrow> int" where
  "pmf_use_error_log g tty = (if gc_daemonize g \<noteq> 0 \<or> \<not> tty then 1 else 0)"

datatype stdio_call = Open "string option" | Dup2 int int | Std_close int | Get_fd_flags int

text \<open>\<open>fd\<close> answers \<open>open\<close>; failing to set the close-on-exec flag is only logged.\<close>

definition pmf_stdio_open_error_log ::
  "int \<Rightarrow> bool \<Rightarrow> pmf_global_config \<Rightarrow> int \<Rightarrow> pmf_globals \<Rightarrow> plog_state \<Rightarrow>
   int \<times> pmf_globals \<times> plog_state \<times> stdio_call list" where
  "pmf_stdio_open_error_log fd tty g reopen gl lg =
     (let tr = [Open (gc_error_log g)] in
      if 0 > fd then (- 1, gl, lg, tr)
      else if reopen \<noteq> 0 then
        (0, gl, lg, tr @ (if pmf_use_error_log g tty \<noteq> 0 then [Dup2 fd STDERR_FILENO] else [])
           @ [Dup2 fd (g_error_log_fd gl), Std_close fd, Get_fd_flags (g_error_log_fd gl)])
      else
        (0, gl\<lparr>g_error_log_fd := fd\<rparr>,
         if pmf_use_error_log g tty \<noteq> 0 then snd (plog_set_fd fd lg) else lg,
         tr @ [Get_fd_flags fd]))"

definition pmf_stdio_init_main :: "int \<Rightarrow> (int \<Rightarrow> int \<Rightarrow> int) \<Rightarrow> int \<times> stdio_call list" where
  "pmf_stdio_init_main fd dup2 =
     (let tr = [Open (Some ''/dev/null'')] in
      if fd < 0 then (- 1, tr)
      else if 0 > dup2 fd 0 then (- 1, tr @ [Dup2 fd 0, Std_close fd])
      else if 0 > dup2 fd 1 then (- 1, tr @ [Dup2 fd 0, Dup2 fd 1, Std_close fd])
      else (0, tr @ [Dup2 fd 0, Dup2 fd 1, Std_close fd]))"

subsection \<open>pmf_clock.c\<close>

text \<open>\<open>mt\<close> answers \<open>clock_gettime\<close> (seconds, nanoseconds), \<open>day\<close> answers \<open>gettimeofday\<close>.\<close>

definition pmf_clock_init :: "(int \<times> int) option \<Rightarrow> int \<times> bool" where
  "pmf_clock_init mt = (0, mt \<noteq> None)"

definition pmf_clock_get ::
  "bool \<Rightarrow> (int \<times> int) option \<Rightarrow> int \<times> (int \<times> int) option \<Rightarrow> int \<times> (int \<times> int) option" where
  "pmf_clock_get monotonic_works mt day =
     (if monotonic_works then
        (case mt of None \<Rightarrow> (- 1, None)
         | Some (s, ns) \<Rightarrow> (0, Some (s, (if ns < 0 then - ((- ns) div 1000) else ns div 1000))))
      else day)"

subsection \<open>Properties\<close>

text \<open>
  The bytes a handled signal writes to the pipe identify it: two handled signals with the
  same byte are the same, and a process that is not the master writes nothing.
\<close>

theorem signal_bytes_injective:
  assumes "a \<in> {SIGTERM, SIGINT, SIGUSR1, SIGUSR2, SIGCHLD, SIGQUIT}"
    and "b \<in> {SIGTERM, SIGINT, SIGUSR1, SIGUSR2, SIGCHLD, SIGQUIT}"
  shows "\<exists>c. sig_handler gl pid sp1 a = Ok (if g_parent_pid gl = pid then Some (sp1, c) else None)
    \<and> c \<noteq> CHR 0x00 \<and> (sig_chars a = sig_chars b \<longleftrightarrow> a = b)"
  using assms by (auto simp: sig_handler_def sig_chars_def signal_numbers NSIG_def)

theorem signal_bytes_injective_witness:
  "\<exists>c. sig_handler (pmf_globals_init\<lparr>g_parent_pid := 42\<rparr>) 42 4 15 = Ok (Some (4, c)) \<and> c \<noteq> CHR 0x00"
  using signal_bytes_injective [of 15 15 "pmf_globals_init\<lparr>g_parent_pid := 42\<rparr>" 42 4]
  by (auto simp: signal_numbers)

lemma until_failure_none: "until_failure f xs = (False, ys) \<Longrightarrow> ys = xs \<and> (\<forall>x \<in> set xs. 0 \<le> f x)"
  by (induction xs arbitrary: ys) (auto split: if_splits prod.splits)

text \<open>
  C40: When the signals are initialised, all six handlers are installed, and both ends of the
  pipe were asked for flags without \<open>O_NONBLOCK\<close>: the pipe blocks, since \<open>fd_set_blocked\<close>
  called with 0 clears the flag (and called with another value sets it).
\<close>

theorem signals_init_pipe_blocks:
  assumes "pmf_signals_init_main env sp0 = (0, sp, calls)"
  shows "Some sp = sg_socketpair env
    \<and> {c. \<exists>s. c = Sigaction s \<and> c \<in> set calls}
       = Sigaction ` {SIGTERM, SIGINT, SIGUSR1, SIGUSR2, SIGCHLD, SIGQUIT}
    \<and> (\<forall>fd \<in> {fst sp, snd sp}. \<exists>flags. Set_flags fd (Some flags) \<in> set calls \<and> \<not> bit flags 11)
    \<and> (\<exists>flags. fd_set_blocked 0 setfl 1 = (setfl flags, Some flags) \<and> bit flags 11)"
proof -
  let ?block = "\<lambda>fd. fd_set_blocked (sg_getfl env fd) (sg_setfl env fd) 0"
  obtain pair where pair: "sg_socketpair env = Some pair"
    using assms by (cases "sg_socketpair env") (simp_all add: pmf_signals_init_main_def)
  obtain d1 d2 d3 where
    u1: "until_failure (\<lambda>fd. fst (?block fd)) [fst pair, snd pair] = (False, d1)" and
    u2: "until_failure (sg_setfd env) [fst pair, snd pair] = (False, d2)" and
    u3: "until_failure (sg_sigaction env) [SIGTERM, SIGINT, SIGUSR1, SIGUSR2, SIGCHLD, SIGQUIT] = (False, d3)" and
    res: "sp = pair" "calls = map (\<lambda>fd. Set_flags fd (snd (?block fd))) d1 @ map Set_cloexec d2 @ map Sigaction d3"
    using assms pair
    by (auto simp: pmf_signals_init_main_def Let_def simp del: until_failure.simps
        split: prod.splits if_splits)
  have bits: "bit O_NONBLOCK 11" by (simp add: O_NONBLOCK_def bit_simps)
  have blocked: "\<exists>flags. snd (?block fd) = Some flags \<and> \<not> bit flags 11" if "0 \<le> fst (?block fd)" for fd
    using that bits by (auto simp: fd_set_blocked_def Let_def bit_simps split: if_splits)
  note d = until_failure_none [OF u1] until_failure_none [OF u2] until_failure_none [OF u3]
  have "\<exists>flags. Set_flags fd (Some flags) \<in> set calls \<and> \<not> bit flags 11"
    if fd: "fd \<in> {fst sp, snd sp}" for fd
  proof -
    have m: "fd \<in> set d1" using d(1) fd res(1) by auto
    then have "0 \<le> fst (?block fd)" using d(1) by auto
    then obtain flags where "snd (?block fd) = Some flags" "\<not> bit flags 11" using blocked by blast
    then show ?thesis using m res(2) by force
  qed
  moreover have "\<exists>flags. fd_set_blocked 0 setfl 1 = (setfl flags, Some flags) \<and> bit flags 11"
    using bits by (simp add: fd_set_blocked_def)
  moreover have "{c. \<exists>s. c = Sigaction s \<and> c \<in> set calls} = Sigaction ` set d3"
    using res(2) by auto
  ultimately show ?thesis using pair res(1) d(3) by auto
qed

theorem signals_init_pipe_blocks_witness:
  "\<exists>sp calls flags. pmf_signals_init_main \<lparr>sg_socketpair = Some (3, 4), sg_getfl = (\<lambda>fd. 2),
       sg_setfl = (\<lambda>fd fl. 0), sg_setfd = (\<lambda>fd. 0), sg_sigaction = (\<lambda>s. 0)\<rparr> (0, 0) = (0, sp, calls)
     \<and> Set_flags 4 (Some flags) \<in> set calls \<and> \<not> bit flags 11"
proof -
  let ?env = "\<lparr>sg_socketpair = Some (3, 4), sg_getfl = (\<lambda>fd. 2), sg_setfl = (\<lambda>fd fl. 0),
    sg_setfd = (\<lambda>fd. 0), sg_sigaction = (\<lambda>s. 0)\<rparr>"
  obtain calls where run: "pmf_signals_init_main ?env (0, 0) = (0, (3, 4), calls)"
    by (simp add: pmf_signals_init_main_def fd_set_blocked_def)
  show ?thesis using signals_init_pipe_blocks [OF run, of id] run by auto
qed

end
