(* ===== verification/Pmf_Conf.thy ===== *)
theory Pmf_Conf
  imports Pmf_Conf_Parsers Pmf_Signals Pmf_Sockets
begin

text \<open>
  The configuration of \<open>pmf_conf.c\<close>: reading \<open>pmf.conf\<close> and the pool files of the include
  directory into the two structures, checking the pools, and the PID file. Directory listing,
  file contents, \<open>stat\<close> results and allocations are fields of \<open>conf_env\<close>.
\<close>

record conf_env =
  ce_dup :: "string \<Rightarrow> bool"
  ce_malloc_pool :: bool
  ce_malloc_config :: bool
  ce_dict_new :: bool
  ce_dict :: dict_alloc
  ce_opendir :: "string \<Rightarrow> string list option"
  ce_stat :: "string option \<Rightarrow> int"
  ce_is_dir :: "string \<Rightarrow> bool"
  ce_is_regular :: "string \<Rightarrow> bool"
  ce_file :: "string \<Rightarrow> string option"
  ce_fallen :: "int option"
  ce_open_log :: int
  ce_tty :: bool

text \<open>
  \<open>ce_fallen\<close> is the value a caller finds when \<open>pmf_conf_parse_pool_ini\<close> reaches its end, where
  it has no return statement: \<open>None\<close> keeps it undefined, \<open>Some r\<close> is what a compiled program
  finds in the return register.

  The program state the configuration works on.
\<close>

record pmf_state =
  st_config :: pmf_global_config
  st_globals :: pmf_globals
  st_log :: plog_state
  st_pools :: "worker_pool list"
  st_current :: bool
  st_events :: "event_module option"

definition pmf_state_init :: pmf_state where
  "pmf_state_init = \<lparr>st_config = pmf_global_config_init, st_globals = pmf_globals_init,
     st_log = plog_init, st_pools = [], st_current = False, st_events = None\<rparr>"

definition PMF_CONF_FILE :: string where "PMF_CONF_FILE = ''/etc/pmf.conf''"
definition PMF_ERROR_LOG_FILE_DEFAULT :: string where "PMF_ERROR_LOG_FILE_DEFAULT = ''/var/log/pmf.log''"
definition MAX_PATH :: nat where "MAX_PATH = 128"

subsection \<open>Options of a section\<close>

definition ini_option :: "dictionary \<Rightarrow> string \<Rightarrow> string \<Rightarrow> (unit, string option) outcome" where
  "ini_option ini section_name key =
     (case iniparser_getstring (Some ini)
             (Some (snprintf_buf MAX_KEY_VALUE_LEN (section_name @ '':'' @ key))) NULLP of
        NULLP \<Rightarrow> Ok None
      | Str v \<Rightarrow> Ok (Some v)
      | INVALID_KEY \<Rightarrow> Undef TypePun)"

text \<open>The loop over a table; \<open>False\<close>: a parser refused its value and the caller returns \<open>-1\<close>.\<close>

fun parse_options ::
  "(string \<Rightarrow> bool) \<Rightarrow> 'c cells \<Rightarrow> dictionary \<Rightarrow> string \<Rightarrow> ini_value_parser list \<Rightarrow> 'c \<Rightarrow>
   (unit, bool \<times> 'c) outcome" where
  "parse_options dup cs ini section_name [] c = Ok (True, c)"
| "parse_options dup cs ini section_name ((key, parser, off) # rest) c =
     obind (ini_option ini section_name key) (\<lambda>value.
       case value of
         None \<Rightarrow> parse_options dup cs ini section_name rest c
       | Some v \<Rightarrow>
           obind (run_parser parser dup cs v c off) (\<lambda>(c, ret).
             if ret \<noteq> None then Ok (False, c)
             else parse_options dup cs ini section_name rest c))"

subsection \<open>Pool files\<close>

definition new_pool_config :: wp_config where
  "new_pool_config =
     \<lparr>wpc_name = None, wpc_user = None, wpc_group = None, wpc_listen_address = None,
      wpc_listen_owner = None, wpc_listen_group = None, wpc_listen_mode = None,
      wpc_listen_backlog = PMF_BACKLOG_DEFAULT, wpc_process_priority = 64,
      wpc_process_dumpable = 0, wpc_pm_type = 0, wpc_pm_max_children = 0,
      wpc_pm_start_servers = 0, wpc_pm_min_spare_servers = 0, wpc_pm_max_spare_servers = 0,
      wpc_pm_process_idle_timeout = 10, wpc_pm_max_requests = 0\<rparr>"

text \<open>The new pool is put at the end of the list; the result is it, or \<open>None\<close> for a null pointer.\<close>

definition pmf_worker_pool_config_alloc :: "conf_env \<Rightarrow> pmf_state \<Rightarrow> worker_pool option \<times> pmf_state" where
  "pmf_worker_pool_config_alloc env st =
     (case pmf_worker_pool_alloc (ce_malloc_pool env) of
        None \<Rightarrow> (None, st)
      | Some wp \<Rightarrow>
          if \<not> ce_malloc_config env then (None, st)
          else
            let wp = wp\<lparr>wp_config := Some new_pool_config\<rparr>
            in (Some wp, st\<lparr>st_pools := st_pools st @ [wp], st_current := True\<rparr>))"

definition same_pool_name :: "string \<Rightarrow> worker_pool \<Rightarrow> bool" where
  "same_pool_name section_name wp =
     (case wp_config wp of None \<Rightarrow> False
      | Some c \<Rightarrow> (case wpc_name c of None \<Rightarrow> False | Some n \<Rightarrow> strcasecmp_eq n section_name))"

text \<open>The last pool of the list gets another configuration.\<close>

definition set_last_config :: "wp_config \<Rightarrow> pmf_state \<Rightarrow> pmf_state" where
  "set_last_config c st =
     st\<lparr>st_pools := butlast (st_pools st) @ [(last (st_pools st))\<lparr>wp_config := Some c\<rparr>]\<rparr>"

text \<open>One section; \<open>Some r\<close>: the function returns \<open>r\<close>.\<close>

definition parse_pool_section ::
  "conf_env \<Rightarrow> dictionary \<Rightarrow> string \<Rightarrow> pmf_state \<Rightarrow> (unit, int option \<times> pmf_state) outcome" where
  "parse_pool_section env ini section_name st =
     (if section_name = ''global'' then Ok (Some (- 1), st)
      else if list_ex (same_pool_name section_name) (st_pools st) then Ok (Some (- 1), st)
      else
        (case pmf_worker_pool_config_alloc env st of
           (None, st) \<Rightarrow> Ok (Some (- 1), st)
         | (Some wp, st) \<Rightarrow>
             if \<not> ce_dup env section_name then Ok (Some (- 1), st)
             else
               obind (parse_options (ce_dup env) pool_cells ini section_name pmf_ini_pool_option
                        (new_pool_config\<lparr>wpc_name := Some section_name\<rparr>)) (\<lambda>(ok, c).
                 Ok (if ok then None else Some (- 1), set_last_config c st))))"

text \<open>\<open>while (section_count > 0)\<close>: the sections from the last to the first.\<close>

fun parse_pool_sections ::
  "conf_env \<Rightarrow> dictionary \<Rightarrow> nat \<Rightarrow> pmf_state \<Rightarrow> (unit, int option \<times> pmf_state) outcome" where
  "parse_pool_sections env ini 0 st = Ok (None, st)"
| "parse_pool_sections env ini (Suc n) st =
     (case iniparser_getsecname (Some ini) (int n) of
        None \<Rightarrow> Undef NullDeref
      | Some section_name \<Rightarrow>
          obind (parse_pool_section env ini section_name st) (\<lambda>(ret, st).
            case ret of Some r \<Rightarrow> Ok (Some r, st) | None \<Rightarrow> parse_pool_sections env ini n st))"

text \<open>\<open>None\<close> in the result: the end of the function is reached without a return statement.\<close>

definition pmf_conf_parse_pool_ini ::
  "conf_env \<Rightarrow> dictionary \<Rightarrow> pmf_state \<Rightarrow> (unit, int option \<times> pmf_state) outcome" where
  "pmf_conf_parse_pool_ini env ini st =
     (let section_count = iniparser_getnsec (Some ini) in
      if section_count = - 1 then Ok (Some (- 1), st)
      else parse_pool_sections env ini (nat section_count) st)"

fun parse_pool_files ::
  "conf_env \<Rightarrow> string \<Rightarrow> string list \<Rightarrow> pmf_state \<Rightarrow> (unit, int \<times> pmf_state) outcome" where
  "parse_pool_files env include_dir [] st = Ok (0, st)"
| "parse_pool_files env include_dir (d_name # names) st =
     (if d_name \<noteq> [] \<and> hd d_name = CHR ''.'' then parse_pool_files env include_dir names st
      else
        let path = snprintf_buf MAX_PATH (include_dir @ ''/'' @ d_name) in
        if 0 < ce_stat env (Some path) \<and> \<not> ce_is_regular env path
        then parse_pool_files env include_dir names st
        else
          obind (iniparser_load (ce_dict_new env) (ce_dict env) (ce_file env path)) (\<lambda>(ini, msgs).
            case ini of
              None \<Rightarrow> Ok (- 1, st)
            | Some ini \<Rightarrow>
                obind (pmf_conf_parse_pool_ini env ini st) (\<lambda>(ret, st).
                  case (case ret of Some r \<Rightarrow> Some r | None \<Rightarrow> ce_fallen env) of
                    None \<Rightarrow> Undef NoReturnValue
                  | Some r \<Rightarrow> if 0 > r then Ok (- 1, st) else parse_pool_files env include_dir names st)))"

definition pmf_conf_parse_pool_config ::
  "conf_env \<Rightarrow> string \<Rightarrow> pmf_state \<Rightarrow> (unit, int \<times> pmf_state) outcome" where
  "pmf_conf_parse_pool_config env include_dir st =
     (case ce_opendir env include_dir of
        None \<Rightarrow> Ok (- 1, st)
      | Some names \<Rightarrow> parse_pool_files env include_dir names st)"

subsection \<open>The main file\<close>

text \<open>
  The loop over the other sections: the keys are those of the global table, the parsers and
  offsets those of the pool table, the structure is the global one. When the option is absent
  or refused, a message is logged whose format has two directives and one argument.
\<close>

fun parse_foreign_options ::
  "conf_env \<Rightarrow> plog_state \<Rightarrow> dictionary \<Rightarrow> string \<Rightarrow> (ini_value_parser \<times> ini_value_parser) list \<Rightarrow>
   pmf_global_config \<Rightarrow> (unit, bool \<times> pmf_global_config) outcome" where
  "parse_foreign_options env lg ini section_name [] g = Ok (True, g)"
| "parse_foreign_options env lg ini section_name (((gkey, _, _), (_, parser, off)) # rest) g =
     obind (ini_option ini section_name gkey) (\<lambda>value.
       case value of
         None \<Rightarrow>
           if PLOG_NOTICE \<ge> plog_level lg then Undef BadFormat
           else parse_foreign_options env lg ini section_name rest g
       | Some v \<Rightarrow>
           obind (run_parser parser (ce_dup env) global_cells v g off) (\<lambda>(g, ret).
             if ret \<noteq> None
             then (if PLOG_ERROR \<ge> plog_level lg then Undef BadFormat else Ok (False, g))
             else parse_foreign_options env lg ini section_name rest g))"

fun parse_foreign_sections ::
  "conf_env \<Rightarrow> plog_state \<Rightarrow> dictionary \<Rightarrow> nat \<Rightarrow> pmf_global_config \<Rightarrow>
   (unit, int \<times> pmf_global_config) outcome" where
  "parse_foreign_sections env lg ini 0 g = Ok (0, g)"
| "parse_foreign_sections env lg ini (Suc n) g =
     (case iniparser_getsecname (Some ini) (int n) of
        None \<Rightarrow> Undef NullDeref
      | Some section_name \<Rightarrow>
          if section_name = ''global'' then parse_foreign_sections env lg ini n g
          else
            obind (parse_foreign_options env lg ini section_name
                     (zip pmf_ini_global_option pmf_ini_pool_option) g) (\<lambda>(ok, g).
              if \<not> ok then Ok (- 1, g) else parse_foreign_sections env lg ini n g))"

definition pmf_conf_parse_global_ini ::
  "conf_env \<Rightarrow> dictionary \<Rightarrow> pmf_state \<Rightarrow> (unit, int \<times> pmf_state) outcome" where
  "pmf_conf_parse_global_ini env ini st =
     obind (parse_options (ce_dup env) global_cells ini ''global'' pmf_ini_global_option (st_config st))
       (\<lambda>(ok, g).
          if \<not> ok then Ok (- 1, st\<lparr>st_config := g\<rparr>)
          else
            let section_count = iniparser_getnsec (Some ini) in
            if section_count = - 1 then Ok (- 1, st\<lparr>st_config := g\<rparr>)
            else obind (parse_foreign_sections env (st_log st) ini (nat section_count) g) (\<lambda>(r, g).
                   Ok (r, st\<lparr>st_config := g\<rparr>)))"

definition pmf_conf_load_conf_file :: "conf_env \<Rightarrow> pmf_state \<Rightarrow> (unit, int \<times> pmf_state) outcome" where
  "pmf_conf_load_conf_file env st =
     obind (iniparser_load (ce_dict_new env) (ce_dict env) (ce_file env PMF_CONF_FILE)) (\<lambda>(ini, msgs).
       case ini of
         None \<Rightarrow> Ok (- 1, st)
       | Some ini \<Rightarrow>
           obind (pmf_conf_parse_global_ini env ini st) (\<lambda>(r, st).
             if 0 > r then Ok (- 1, st) else Ok (0, st)))"

end
