(* ===== verification/Pmf_Conf_Options.thy ===== *)
theory Pmf_Conf_Options
  imports Pmf_Conf
begin

text \<open>
  What parsing the options of a section does to a structure: the interface of a structure with
  typed cells, the effect of a parser and of a whole table on it, and its interpretation on the
  global and the pool configuration.
\<close>

subsection \<open>What a parser makes of a text\<close>

datatype cell_value = Str_cell "string option" | Int_cell int

fun parse_value :: "value_parser \<Rightarrow> string \<Rightarrow> (unit, string + cell_value) outcome" where
  "parse_value Parse_string v = Ok (Inr (Str_cell (pmf_conf_expand_pool_name (\<lambda>_. True) (Some v))))"
| "parse_value Parse_log_level v = Ok (case log_level_of v of
     None \<Rightarrow> Inl (''invalid value for '' @ single_quoted ''log_level'') | Some l \<Rightarrow> Inr (Int_cell l))"
| "parse_value Parse_integer v = Ok (if integer_text v then Inr (Int_cell (atoi v))
     else Inl ''is not a valid number (greater or equal than zero)'')"
| "parse_value Parse_time v = obind (time_seconds (\<lambda>_. True) v) (\<lambda>r.
     Ok (case r of Inl e \<Rightarrow> Inl e | Inr s \<Rightarrow> Inr (Int_cell s)))"
| "parse_value Parse_boolean v = Ok (if strcasecmp_eq v ''yes'' then Inr (Int_cell 1)
     else if strcasecmp_eq v ''no'' then Inr (Int_cell 0) else Inl ''invalid boolean value'')"
| "parse_value Parse_rlimit_core v = Ok (if strcasecmp_eq v ''unlimited'' then Inr (Int_cell (- 1))
     else if \<not> integer_text v then Inl ''is not a valid number (greater or equal than zero)''
     else if atoi v < 0 then Inl (''must be greater than zero or '' @ single_quoted ''unlimited'')
     else Inr (Int_cell (atoi v)))"
| "parse_value Parse_pm v = Ok (case pm_type_of v of
     None \<Rightarrow> Inl ''invalid process manager (static, dynamic or ondemand)''
   | Some t \<Rightarrow> Inr (Int_cell t))"

definition writes_string :: "value_parser \<Rightarrow> bool" where
  "writes_string p \<longleftrightarrow> p = Parse_string"

lemma time_no_string: "(case r of Inl e \<Rightarrow> Inl e | Inr s \<Rightarrow> Inr (Int_cell s)) \<noteq> Inr (Str_cell s)"
  by (cases r) simp_all

lemma parse_value_cell:
  "parse_value p v = Ok (Inr x) \<Longrightarrow> (\<exists>s. x = Str_cell s) \<longleftrightarrow> writes_string p"
  by (cases p; cases x) (auto simp: writes_string_def time_no_string pmf_simps split: option.splits if_splits sum.splits)

definition parser_fits ::
  "(nat \<Rightarrow> bool) \<Rightarrow> (nat \<Rightarrow> bool) \<Rightarrow> value_parser \<Rightarrow> nat \<Rightarrow> bool" where
  "parser_fits str_at int_at p off \<longleftrightarrow> (if writes_string p then str_at off else int_at off)"

text \<open>The cells after all options of a table were accepted.\<close>

definition options_cells ::
  "(string \<Rightarrow> string option) \<Rightarrow> ini_value_parser list \<Rightarrow> (nat \<Rightarrow> cell_value option) \<Rightarrow> nat \<Rightarrow> cell_value option" where
  "options_cells value table m = fold (\<lambda>(key, p, off) m.
     case value key of None \<Rightarrow> m
     | Some v \<Rightarrow> (case parse_value p v of Ok (Inr x) \<Rightarrow> m(off \<mapsto> x) | _ \<Rightarrow> m)) table m"

lemma options_cells_Nil [simp]: "options_cells value [] m = m"
  by (simp add: options_cells_def)

lemma options_cells_absent:
  "value key = None \<Longrightarrow> options_cells value ((key, p, off) # table) m = options_cells value table m"
  by (simp add: options_cells_def)

lemma options_cells_present:
  "value key = Some v \<Longrightarrow> parse_value p v = Ok (Inr x) \<Longrightarrow>
   options_cells value ((key, p, off) # table) m = options_cells value table (m(off \<mapsto> x))"
  by (simp add: options_cells_def)

subsection \<open>The interface of a structure\<close>

locale config_struct =
  fixes cs :: "'c cells"
    and str_at :: "nat \<Rightarrow> bool"
    and int_at :: "nat \<Rightarrow> bool"
    and cell :: "'c \<Rightarrow> nat \<Rightarrow> cell_value option"
  assumes get_str_cell: "str_at off \<Longrightarrow> \<exists>s. get_str cs c off = Ok s"
    and put_str_cell: "str_at off \<Longrightarrow>
      \<exists>c'. put_str cs c off s = Ok c' \<and> cell c' = (cell c)(off \<mapsto> Str_cell s)"
    and put_int_cell: "int_at off \<Longrightarrow>
      \<exists>c'. put_int cs c off i = Ok c' \<and> cell c' = (cell c)(off \<mapsto> Int_cell i)"
begin

lemma set_string_effect:
  assumes "str_at off"
  shows "\<exists>c'. pmf_config_set_string (\<lambda>_. True) cs v c off = Ok (c', None)
    \<and> cell c' = (cell c)(off \<mapsto> Str_cell (pmf_conf_expand_pool_name (\<lambda>_. True) (Some v)))"
proof -
  obtain s where s: "get_str cs c off = Ok s" using get_str_cell [OF assms] by blast
  obtain c1 where c1: "put_str cs c off (Some v) = Ok c1" "cell c1 = (cell c)(off \<mapsto> Str_cell (Some v))"
    using put_str_cell [OF assms] by blast
  obtain c2 where "put_str cs c1 off (pmf_conf_expand_pool_name (\<lambda>_. True) (Some v)) = Ok c2"
    "cell c2 = (cell c1)(off \<mapsto> Str_cell (pmf_conf_expand_pool_name (\<lambda>_. True) (Some v)))"
    using put_str_cell [OF assms] by blast
  with s c1 show ?thesis by (simp add: pmf_config_set_string_def)
qed

lemma run_parser_effect:
  assumes "parser_fits str_at int_at p off"
  shows "case parse_value p v of
      Undef u \<Rightarrow> run_parser p (\<lambda>_. True) cs v c off = Undef u
    | Fail e \<Rightarrow> False
    | Ok (Inl e) \<Rightarrow> run_parser p (\<lambda>_. True) cs v c off = Ok (c, Some e)
    | Ok (Inr x) \<Rightarrow> \<exists>c'. run_parser p (\<lambda>_. True) cs v c off = Ok (c', None) \<and> cell c' = (cell c)(off \<mapsto> x)"
proof (cases "writes_string p")
  case True
  then show ?thesis
    using assms set_string_effect [of off v c] by (simp add: writes_string_def parser_fits_def)
next
  case False
  then have at: "int_at off" using assms by (simp add: parser_fits_def)
  have put: "\<exists>c'. obind (put_int cs c off i) (\<lambda>c. Ok (c, None :: string option)) = Ok (c', None)
      \<and> cell c' = (cell c)(off \<mapsto> Int_cell i)" for i
    using put_int_cell [OF at, of c i] by auto
  show ?thesis
  proof (cases p)
    case Parse_string
    then show ?thesis using False by (simp add: writes_string_def)
  next
    case Parse_log_level
    then show ?thesis using put by (auto simp: pmf_conf_set_log_level_def split: option.split)
  next
    case Parse_integer
    then show ?thesis using put by (auto simp: pmf_conf_set_integer_def)
  next
    case Parse_time
    then show ?thesis
      using put
      by (cases "time_seconds (\<lambda>_. True) v")
        (auto simp: pmf_conf_set_time_def time_seconds_def Let_def checked32_def split: sum.split if_splits)
  next
    case Parse_boolean
    then show ?thesis using put by (auto simp: fpm_conf_set_boolean_def Let_def)
  next
    case Parse_rlimit_core
    then show ?thesis
      using put by (auto simp: pmf_conf_set_rlimit_core_def pmf_conf_set_integer_def int_cells_def)
  next
    case Parse_pm
    then show ?thesis using put by (auto simp: pmf_conf_set_pm_def split: option.split)
  qed
qed

lemma parse_options_effect:
  assumes "\<forall>(key, p, off) \<in> set table. parser_fits str_at int_at p off"
    and "\<forall>(key, p, off) \<in> set table. ini_option ini sec key = Ok (value key)"
  shows "case parse_options (\<lambda>_. True) cs ini sec table c of
      Ok (ok, c') \<Rightarrow>
        (ok \<longleftrightarrow> (\<forall>(key, p, off) \<in> set table. \<forall>v. value key = Some v \<longrightarrow> (\<exists>x. parse_value p v = Ok (Inr x))))
        \<and> (ok \<longrightarrow> cell c' = options_cells value table (cell c))
    | Fail e \<Rightarrow> False
    | Undef u \<Rightarrow> \<exists>(key, p, off) \<in> set table. \<exists>v. value key = Some v \<and> parse_value p v = Undef u"
  using assms
proof (induction table arbitrary: c)
  case (Cons t table)
  obtain key p off where t: "t = (key, p, off)" by (cases t)
  have fits: "parser_fits str_at int_at p off" and opt: "ini_option ini sec key = Ok (value key)"
    using Cons.prems t by auto
  have rest: "\<forall>(key, p, off) \<in> set table. parser_fits str_at int_at p off"
    "\<forall>(key, p, off) \<in> set table. ini_option ini sec key = Ok (value key)"
    using Cons.prems by auto
  show ?case
  proof (cases "value key")
    case None
    then show ?thesis
      using Cons.IH [OF rest, of c] t opt
      by (auto simp: options_cells_absent split: outcome.splits)
  next
    case (Some v)
    note eff = run_parser_effect [OF fits, of v c]
    show ?thesis
    proof (cases "parse_value p v")
      case (Undef u)
      then show ?thesis using eff t opt Some by auto
    next
      case (Fail e)
      then show ?thesis using eff by simp
    next
      case (Ok r)
      show ?thesis
      proof (cases r)
        case (Inl e)
        then show ?thesis using eff t opt Some Ok by auto
      next
        case (Inr x)
        then obtain c' where c': "run_parser p (\<lambda>_. True) cs v c off = outcome.Ok (c', None)"
          "cell c' = (cell c)(off \<mapsto> x)" using eff Ok by auto
        show ?thesis
          using Cons.IH [OF rest, of c'] c'(1) t opt Some Ok Inr
          by (auto simp: options_cells_present c'(2) split: outcome.splits simp del: fun_upd_apply)
      qed
    qed
  qed
qed simp

end

subsection \<open>The two structures\<close>

definition global_cell :: "pmf_global_config \<Rightarrow> nat \<Rightarrow> cell_value option" where
  "global_cell g off =
     (if off = GO G_pid_file then Some (Str_cell (gc_pid_file g))
      else if off = GO G_include_dir then Some (Str_cell (gc_include_dir g))
      else if off = GO G_error_log then Some (Str_cell (gc_error_log g))
      else if off = GO G_log_level then Some (Int_cell (gc_log_level g))
      else if off = GO G_emergency_restart_threshold then Some (Int_cell (gc_emergency_restart_threshold g))
      else if off = GO G_emergency_restart_interval then Some (Int_cell (gc_emergency_restart_interval g))
      else if off = GO G_process_control_timeout then Some (Int_cell (gc_process_control_timeout g))
      else if off = GO G_process_max then Some (Int_cell (gc_process_max g))
      else if off = GO G_process_priority then Some (Int_cell (gc_process_priority g))
      else if off = GO G_daemonize then Some (Int_cell (gc_daemonize g))
      else if off = GO G_rlimit_files then Some (Int_cell (gc_rlimit_files g))
      else if off = GO G_rlimit_core then Some (Int_cell (gc_rlimit_core g))
      else if off = GO G_event_mechanism then Some (Str_cell (gc_event_mechanism g))
      else None)"

definition pool_cell :: "wp_config \<Rightarrow> nat \<Rightarrow> cell_value option" where
  "pool_cell c off =
     (if off = WPO P_name then Some (Str_cell (wpc_name c))
      else if off = WPO P_user then Some (Str_cell (wpc_user c))
      else if off = WPO P_group then Some (Str_cell (wpc_group c))
      else if off = WPO P_listen_address then Some (Str_cell (wpc_listen_address c))
      else if off = WPO P_listen_owner then Some (Str_cell (wpc_listen_owner c))
      else if off = WPO P_listen_group then Some (Str_cell (wpc_listen_group c))
      else if off = WPO P_listen_mode then Some (Str_cell (wpc_listen_mode c))
      else if off = WPO P_listen_backlog then Some (Int_cell (wpc_listen_backlog c))
      else if off = WPO P_process_priority then Some (Int_cell (wpc_process_priority c))
      else if off = WPO P_process_dumpable then Some (Int_cell (wpc_process_dumpable c))
      else if off = WPO P_pm_type then Some (Int_cell (wpc_pm_type c))
      else if off = WPO P_pm_max_children then Some (Int_cell (wpc_pm_max_children c))
      else if off = WPO P_pm_start_servers then Some (Int_cell (wpc_pm_start_servers c))
      else if off = WPO P_pm_min_spare_servers then Some (Int_cell (wpc_pm_min_spare_servers c))
      else if off = WPO P_pm_max_spare_servers then Some (Int_cell (wpc_pm_max_spare_servers c))
      else if off = WPO P_pm_process_idle_timeout then Some (Int_cell (wpc_pm_process_idle_timeout c))
      else if off = WPO P_pm_max_requests then Some (Int_cell (wpc_pm_max_requests c))
      else None)"

definition global_str_at :: "nat \<Rightarrow> bool" where
  "global_str_at off \<longleftrightarrow> off \<in> GO ` {G_pid_file, G_include_dir, G_error_log, G_event_mechanism}"

definition global_int_at :: "nat \<Rightarrow> bool" where
  "global_int_at off \<longleftrightarrow> off \<in> GO ` {G_log_level, G_emergency_restart_threshold,
     G_emergency_restart_interval, G_process_control_timeout, G_process_max, G_process_priority,
     G_daemonize, G_rlimit_files, G_rlimit_core}"

definition pool_str_at :: "nat \<Rightarrow> bool" where
  "pool_str_at off \<longleftrightarrow> off \<in> WPO ` {P_name, P_user, P_group, P_listen_address, P_listen_owner,
     P_listen_group, P_listen_mode}"

definition pool_int_at :: "nat \<Rightarrow> bool" where
  "pool_int_at off \<longleftrightarrow> off \<in> WPO ` {P_listen_backlog, P_process_priority, P_process_dumpable,
     P_pm_type, P_pm_max_children, P_pm_start_servers, P_pm_min_spare_servers,
     P_pm_max_spare_servers, P_pm_process_idle_timeout, P_pm_max_requests}"

lemmas global_access_defs = global_cells_def global_get_str_def global_put_str_def global_put_int_def
lemmas pool_access_defs = pool_cells_def pool_get_str_def pool_put_str_def pool_put_int_def

interpretation glob: config_struct global_cells global_str_at global_int_at global_cell
proof
  fix off :: nat and c s
  assume "global_str_at off"
  then show "\<exists>s. get_str global_cells c off = Ok s"
    by (auto simp: global_str_at_def global_access_defs)
next
  fix off :: nat and c s
  assume "global_str_at off"
  then show "\<exists>c'. put_str global_cells c off s = Ok c' \<and> global_cell c' = (global_cell c)(off \<mapsto> Str_cell s)"
    by (auto simp: global_str_at_def global_access_defs global_cell_def fun_eq_iff)
next
  fix off :: nat and c i
  assume "global_int_at off"
  then show "\<exists>c'. put_int global_cells c off i = Ok c' \<and> global_cell c' = (global_cell c)(off \<mapsto> Int_cell i)"
    by (auto simp: global_int_at_def global_access_defs global_cell_def fun_eq_iff)
qed

interpretation pool: config_struct pool_cells pool_str_at pool_int_at pool_cell
proof
  fix off :: nat and c s
  assume "pool_str_at off"
  then show "\<exists>s. get_str pool_cells c off = Ok s"
    by (auto simp: pool_str_at_def pool_access_defs)
next
  fix off :: nat and c s
  assume "pool_str_at off"
  then show "\<exists>c'. put_str pool_cells c off s = Ok c' \<and> pool_cell c' = (pool_cell c)(off \<mapsto> Str_cell s)"
    by (auto simp: pool_str_at_def pool_access_defs pool_cell_def fun_eq_iff)
next
  fix off :: nat and c i
  assume "pool_int_at off"
  then show "\<exists>c'. put_int pool_cells c off i = Ok c' \<and> pool_cell c' = (pool_cell c)(off \<mapsto> Int_cell i)"
    by (auto simp: pool_int_at_def pool_access_defs pool_cell_def fun_eq_iff)
qed

lemma global_table_fits: "list_all (\<lambda>(key, p, off). parser_fits global_str_at global_int_at p off) pmf_ini_global_option"
  by (simp add: pmf_ini_global_option_def parser_fits_def writes_string_def global_str_at_def global_int_at_def)

lemma pool_table_fits: "list_all (\<lambda>(key, p, off). parser_fits pool_str_at pool_int_at p off) pmf_ini_pool_option"
  by (simp add: pmf_ini_pool_option_def parser_fits_def writes_string_def pool_str_at_def pool_int_at_def)

text \<open>Every option of a table has a field of its own, so the order of the options does not matter.\<close>

lemma options_cells_outside:
  "off \<notin> (\<lambda>(key, p, off). off) ` set table \<Longrightarrow> options_cells value table m off = m off"
  by (induction table arbitrary: m)
    (auto simp: options_cells_def split: option.split outcome.split sum.split)

lemma options_cells_at:
  assumes "distinct (map (\<lambda>(key, p, off). off) table)" and "(key, p, off) \<in> set table"
    and "\<And>v. value key = Some v \<Longrightarrow> \<exists>x. parse_value p v = Ok (Inr x)"
  shows "options_cells value table m off =
     (case value key of None \<Rightarrow> m off
      | Some v \<Rightarrow> (case parse_value p v of Ok (Inr x) \<Rightarrow> Some x | _ \<Rightarrow> m off))"
  using assms(1,2)
proof (induction table arbitrary: m)
  case (Cons t table)
  show ?case
  proof (cases "t = (key, p, off)")
    case True
    then have out: "off \<notin> (\<lambda>(key, p, off). off) ` set table" using Cons.prems(1) by auto
    show ?thesis
    proof (cases "value key")
      case None
      then show ?thesis using True options_cells_outside [OF out] by (simp add: options_cells_absent)
    next
      case (Some v)
      then obtain x where "parse_value p v = Ok (Inr x)" using assms(3) by blast
      with Some True options_cells_outside [OF out] show ?thesis by (simp add: options_cells_present)
    qed
  next
    case False
    then have mem: "(key, p, off) \<in> set table" using Cons.prems(2) by simp
    obtain key' p' off' where t: "t = (key', p', off')" by (cases t)
    then have "off' \<noteq> off" using Cons.prems(1) mem by force
    have cons: "options_cells value (t # table) m = options_cells value table
        (case value key' of None \<Rightarrow> m
         | Some v \<Rightarrow> (case parse_value p' v of Ok (Inr x) \<Rightarrow> m(off' \<mapsto> x) | _ \<Rightarrow> m))"
      by (simp add: options_cells_def t)
    show ?thesis
      unfolding cons using Cons.IH Cons.prems(1) mem \<open>off' \<noteq> off\<close>
      by (auto simp: t split: option.splits outcome.splits sum.splits)
  qed
qed simp

end
