(* ===== verification/Pmf_Conf_Main.thy ===== *)
theory Pmf_Conf_Main
  imports Pmf_Conf
begin

text \<open>
  The rest of \<open>pmf_conf.c\<close>: checking the pools, processing the global configuration, the dump
  of the configuration to the log, the PID file, and \<open>pmf_conf_init_main\<close>.
\<close>

subsection \<open>Checking the pools\<close>

text \<open>The addresses, priority, manager and number of children of one pool.\<close>

definition check_listen :: "wp_config \<Rightarrow> worker_pool \<Rightarrow> int \<times> worker_pool" where
  "check_listen c wp =
     (case wpc_listen_address c of
        None \<Rightarrow> (- 1, wp)
      | Some a \<Rightarrow>
          if a = [] then (- 1, wp)
          else
            let d = pmf_sockets_domain_from_address a; wp = wp\<lparr>wp_domain := Some d\<rparr>
            in if d = PMF_AF_UNIX \<and> hd a \<noteq> CHR ''/'' then (- 1, wp) else (0, wp))"

definition check_dynamic :: "wp_config \<Rightarrow> (unit, int \<times> wp_config) outcome" where
  "check_dynamic c =
     (let mn = wpc_pm_min_spare_servers c; mx = wpc_pm_max_spare_servers c;
          st = wpc_pm_start_servers c; ch = wpc_pm_max_children c in
      if mn \<le> 0 then Ok (- 1, c)
      else if mx \<le> 0 then Ok (- 1, c)
      else if mn > ch \<or> mx > ch then Ok (- 1, c)
      else if mx < mn then Ok (- 1, c)
      else if st \<le> 0 then
        obind (checked32 (mx - mn)) (\<lambda>d. obind (checked32 (mn + d div 2)) (\<lambda>s.
          Ok (0, c\<lparr>wpc_pm_start_servers := s\<rparr>)))
      else if st < mn \<or> st > mx then Ok (- 1, c)
      else Ok (0, c))"

definition check_ondemand :: "int \<Rightarrow> wp_config \<Rightarrow> int \<times> wp_config" where
  "check_ondemand edge c =
     (if edge = 0 then (- 1, c)
      else if wpc_pm_process_idle_timeout c < 1 then (- 1, c)
      else
        let c = (if wpc_listen_backlog c < PMF_BACKLOG_DEFAULT
                 then c\<lparr>wpc_listen_backlog := PMF_BACKLOG_DEFAULT\<rparr> else c)
        in (0, c\<lparr>wpc_pm_start_servers := 0, wpc_pm_min_spare_servers := 0,
                 wpc_pm_max_spare_servers := 0\<rparr>))"

text \<open>\<open>edge\<close> is \<open>pmf_event_support_edge_trigger()\<close>.\<close>

definition process_pool :: "int \<Rightarrow> worker_pool \<Rightarrow> (unit, int \<times> worker_pool) outcome" where
  "process_pool edge wp =
     (case wp_config wp of None \<Rightarrow> Undef NullDeref
      | Some c \<Rightarrow>
          (case check_listen c wp of (r, wp) \<Rightarrow>
             if r < 0 then Ok (- 1, wp)
             else if wpc_process_priority c \<noteq> 64
                     \<and> (wpc_process_priority c < - 19 \<or> wpc_process_priority c > 20) then Ok (- 1, wp)
             else if wpc_pm_type c \<noteq> PM_STYLE_STATIC \<and> wpc_pm_type c \<noteq> PM_STYLE_DYNAMIC
                     \<and> wpc_pm_type c \<noteq> PM_STYLE_ONDEMAND then Ok (- 1, wp)
             else if wpc_pm_max_children c < 1 then Ok (- 1, wp)
             else if wpc_pm_type c = PM_STYLE_DYNAMIC then
               obind (check_dynamic c) (\<lambda>(r, c). Ok (r, wp\<lparr>wp_config := Some c\<rparr>))
             else if wpc_pm_type c = PM_STYLE_ONDEMAND then
               (case check_ondemand edge c of (r, c) \<Rightarrow> Ok (r, wp\<lparr>wp_config := Some c\<rparr>))
             else Ok (0, wp)))"

fun process_pools :: "int \<Rightarrow> worker_pool list \<Rightarrow> (unit, int \<times> worker_pool list) outcome" where
  "process_pools edge [] = Ok (0, [])"
| "process_pools edge (wp # wps) =
     obind (process_pool edge wp) (\<lambda>(r, wp).
       if r < 0 then Ok (- 1, wp # wps)
       else obind (process_pools edge wps) (\<lambda>(r, wps). Ok (r, wp # wps)))"

definition pmf_conf_process_all_pools ::
  "int \<Rightarrow> worker_pool list \<Rightarrow> (unit, int \<times> worker_pool list) outcome" where
  "pmf_conf_process_all_pools edge pools =
     (if pools = [] then Ok (- 1, pools) else process_pools edge pools)"

subsection \<open>The PID file\<close>

datatype pid_call = Pid_unlink string | Pid_creat string | Pid_write int string | Pid_close int

text \<open>\<open>fd\<close> answers \<open>creat\<close>, \<open>written\<close> answers \<open>write\<close> for the text.\<close>

definition pmf_conf_write_pid ::
  "int \<Rightarrow> (string \<Rightarrow> int) \<Rightarrow> pmf_global_config \<Rightarrow> pmf_globals \<Rightarrow> int \<times> pid_call list" where
  "pmf_conf_write_pid fd written g gl =
     (case gc_pid_file g of
        None \<Rightarrow> (0, [])
      | Some path \<Rightarrow>
          let tr = [Pid_unlink path, Pid_creat path] in
          if fd < 0 then (- 1, tr)
          else
            let buf = show_int (g_parent_pid gl); tr = tr @ [Pid_write fd buf] in
            if int (length buf) \<noteq> written buf then (- 1, tr @ [Pid_close fd])
            else (0, tr @ [Pid_close fd]))"

definition pmf_conf_unlink_pid :: "(string \<Rightarrow> int) \<Rightarrow> pmf_global_config \<Rightarrow> int \<times> pid_call list" where
  "pmf_conf_unlink_pid unlink g =
     (case gc_pid_file g of
        None \<Rightarrow> (0, [])
      | Some path \<Rightarrow> (if 0 > unlink path then - 1 else 0, [Pid_unlink path]))"

subsection \<open>Dumping the configuration\<close>

definition STR2STR :: "string option \<Rightarrow> string" where
  "STR2STR a = (case a of None \<Rightarrow> ''undefined'' | Some s \<Rightarrow> s)"

definition BOOL2STR :: "int \<Rightarrow> string" where
  "BOOL2STR a = (if a \<noteq> 0 then ''yes'' else ''no'')"

definition PM2STR :: "int \<Rightarrow> string" where
  "PM2STR a = (if a = PM_STYLE_STATIC then ''static''
     else if a = PM_STYLE_DYNAMIC then ''dynamic'' else ''ondemand'')"

definition tabbed :: "string \<Rightarrow> string \<Rightarrow> string" where
  "tabbed k v = [CHR 0x09, CHR 0x09] @ k @ '' = '' @ v"

definition dump_pool :: "wp_config \<Rightarrow> string list" where
  "dump_pool c =
     [''['' @ STR2STR (wpc_name c) @ '']'',
      tabbed ''user'' (STR2STR (wpc_user c)),
      tabbed ''group'' (STR2STR (wpc_group c)),
      tabbed ''listen'' (STR2STR (wpc_listen_address c)),
      tabbed ''listen.backlog'' (show_int (wpc_listen_backlog c)),
      tabbed ''process.priority'' (if wpc_process_priority c = 64 then ''undefined''
        else show_int (wpc_process_priority c)),
      tabbed ''process.dumpable'' (BOOL2STR (wpc_process_dumpable c)),
      tabbed ''pm'' (PM2STR (wpc_pm_type c)),
      tabbed ''pm.max_children'' (show_int (wpc_pm_max_children c)),
      tabbed ''pm.start_servers'' (show_int (wpc_pm_start_servers c)),
      tabbed ''pm.min_spare_servers'' (show_int (wpc_pm_min_spare_servers c)),
      tabbed ''pm.max_spare_servers'' (show_int (wpc_pm_max_spare_servers c)),
      tabbed ''pm.process_idle_timeout'' (show_int (wpc_pm_process_idle_timeout c)),
      tabbed ''pm.max_requests'' (show_int (wpc_pm_max_requests c))]"

text \<open>The messages logged; the level's name must not be a null pointer for \<open>%s\<close>.\<close>

definition pmf_conf_dump :: "pmf_state \<Rightarrow> (unit, string list) outcome" where
  "pmf_conf_dump st =
     (let g = st_config st in
      obind (plog_get_level_name (st_log st) (gc_log_level g)) (\<lambda>name.
        case name of
          None \<Rightarrow> Undef NullDeref
        | Some lvl \<Rightarrow>
            Ok ([''[global]'',
                 tabbed ''pid'' (STR2STR (gc_pid_file g)),
                 tabbed ''include_dir'' (STR2STR (gc_include_dir g)),
                 tabbed ''error_log'' (STR2STR (gc_error_log g)),
                 tabbed ''log_level'' lvl,
                 tabbed ''emergency_restart_interval'' (show_int (gc_emergency_restart_interval g) @ ''s''),
                 tabbed ''emergency_restart_threshold'' (show_int (gc_emergency_restart_threshold g)),
                 tabbed ''process_control_timeout'' (show_int (gc_process_control_timeout g) @ ''s''),
                 tabbed ''process.max'' (show_int (gc_process_max g)),
                 tabbed ''process.priority'' (if gc_process_priority g = 64 then ''undefined''
                   else show_int (gc_process_priority g)),
                 tabbed ''daemonize'' (BOOL2STR (gc_daemonize g)),
                 tabbed ''rlimit_files'' (show_int (gc_rlimit_files g)),
                 tabbed ''rlimit_core'' (show_int (gc_rlimit_core g)),
                 tabbed ''events.mechanism'' (STR2STR (gc_event_mechanism g))]
              @ concat (map (\<lambda>wp. case wp_config wp of None \<Rightarrow> [] | Some c \<Rightarrow> dump_pool c) (st_pools st)))))"

subsection \<open>Processing the configuration\<close>

definition pmf_conf_is_dir :: "conf_env \<Rightarrow> string \<Rightarrow> bool" where
  "pmf_conf_is_dir env path = (if ce_stat env (Some path) \<noteq> 0 then False else ce_is_dir env path)"

text \<open>The log level of the configuration takes effect.\<close>

definition apply_log_level :: "pmf_state \<Rightarrow> pmf_state" where
  "apply_log_level st =
     (let lvl = gc_log_level (st_config st)
      in st\<lparr>st_globals := (st_globals st)\<lparr>g_log_level := lvl\<rparr>,
            st_log := snd (plog_set_level lvl (st_log st))\<rparr>)"

text \<open>What follows the reading of the pool files.\<close>

definition default_error_log :: "conf_env \<Rightarrow> pmf_global_config \<Rightarrow> pmf_global_config" where
  "default_error_log env g =
     (if gc_error_log g = None
      then g\<lparr>gc_error_log := (if ce_dup env PMF_ERROR_LOG_FILE_DEFAULT
                               then Some PMF_ERROR_LOG_FILE_DEFAULT else None)\<rparr>
      else g)"

definition finish_proc_config :: "conf_env \<Rightarrow> pmf_state \<Rightarrow> int \<times> pmf_state" where
  "finish_proc_config env st =
     (let g = st_config st in
      if gc_process_max g < 0 then (- 1, st)
      else if gc_process_priority g \<noteq> 64
              \<and> (gc_process_priority g < - 19 \<or> gc_process_priority g > 20) then (- 1, st)
      else
        let g = default_error_log env g
        in (case pmf_stdio_open_error_log (ce_open_log env) (ce_tty env) g 0
                   (st_globals st) (st_log st) of
              (r, gl, lg, calls) \<Rightarrow>
                let st = st\<lparr>st_config := g, st_globals := gl, st_log := lg\<rparr> in
                if 0 > r then (- 1, st)
                else (case pmf_event_pre_init (gc_event_mechanism g) of (r, m) \<Rightarrow>
                        (if 0 > r then - 1 else 0, st\<lparr>st_events := m\<rparr>))))"

definition pmf_conf_proc_config :: "conf_env \<Rightarrow> pmf_state \<Rightarrow> (unit, int \<times> pmf_state) outcome" where
  "pmf_conf_proc_config env st =
     (let st = apply_log_level st in
      obind (case gc_include_dir (st_config st) of
               None \<Rightarrow> Ok (0, st)
             | Some dir \<Rightarrow> if pmf_conf_is_dir env dir then pmf_conf_parse_pool_config env dir st
                          else Ok (0, st)) (\<lambda>(r, st).
        Ok (if 0 > r then (- 1, st) else finish_proc_config env st)))"

text \<open>The second component of the result is the dump, made when everything succeeded.\<close>

definition pmf_conf_init_main ::
  "conf_env \<Rightarrow> pmf_state \<Rightarrow> (unit, int \<times> string list \<times> pmf_state) outcome" where
  "pmf_conf_init_main env st =
     obind (pmf_conf_load_conf_file env st) (\<lambda>(ret, st).
       if 0 > ret then Ok (- 1, [], st)
       else obind (pmf_conf_proc_config env st) (\<lambda>(r, st).
         if 0 > r then Ok (- 1, [], st)
         else obind (pmf_conf_process_all_pools (pmf_event_support_edge_trigger (st_events st)) (st_pools st))
           (\<lambda>(r, pools).
              let st = st\<lparr>st_pools := pools\<rparr> in
              if 0 > r then Ok (- 1, [], st)
              else obind (pmf_conf_dump st) (\<lambda>msgs. Ok (ret, msgs, st)))))"

end
