(* ===== verification/Pmf_Conf_Proofs.thy ===== *)
theory Pmf_Conf_Proofs
  imports Pmf_Conf_Options Pmf_Conf_Main Pmf_Iniparser_Load
begin

text \<open>
  What reading the configuration files means: which fields a section sets, which files are
  refused, and which ones the code gives no meaning to.
\<close>

subsection \<open>The text of an option\<close>

definition option_text :: "dictionary \<Rightarrow> string \<Rightarrow> string \<Rightarrow> string option" where
  "option_text ini section_name key =
     (case dictionary_get ini (ini_key (take (MAX_KEY_VALUE_LEN - 1) (section_name @ '':'' @ key))) NULLP of
        Str v \<Rightarrow> Some v | _ \<Rightarrow> None)"

lemma get_default_null: "dictionary_get d k NULLP \<noteq> INVALID_KEY"
  by (simp add: dictionary_get_def val_ptr_def split: option.split)

lemma ini_option_text: "ini_option ini section_name key = Ok (option_text ini section_name key)"
  using get_default_null [of ini "ini_key (take (MAX_KEY_VALUE_LEN - 1) (section_name @ '':'' @ key))"]
  by (auto simp: ini_option_def option_text_def iniparser_getstring_key snprintf_buf_def split: cptr.splits)

text \<open>The same on the entries of a well-formed dictionary.\<close>

definition entry_text :: "(string \<times> string option) list \<Rightarrow> string \<Rightarrow> string \<Rightarrow> string option" where
  "entry_text es section_name key =
     (case map_of es (ini_key (take (MAX_KEY_VALUE_LEN - 1) (section_name @ '':'' @ key))) of
        Some (Some v) \<Rightarrow> Some v | _ \<Rightarrow> None)"

lemma option_text_entries: "dict_wf ini \<Longrightarrow> option_text ini = entry_text (dict_entries ini)"
  by (simp add: fun_eq_iff option_text_def entry_text_def dictionary_get_map dict_map_def val_ptr_def
      split: option.split)

text \<open>The cell an option leaves, given what the cell held.\<close>

definition configured :: "value_parser \<Rightarrow> string option \<Rightarrow> cell_value option \<Rightarrow> cell_value option" where
  "configured p v old =
     (case v of None \<Rightarrow> old
      | Some s \<Rightarrow> (case parse_value p s of Ok (Inr x) \<Rightarrow> Some x | _ \<Rightarrow> old))"

definition accepted :: "value_parser \<Rightarrow> string option \<Rightarrow> bool" where
  "accepted p v \<longleftrightarrow> (case v of None \<Rightarrow> True
     | Some s \<Rightarrow> (case parse_value p s of Ok (Inr x) \<Rightarrow> True | _ \<Rightarrow> False))"

lemma accepted_iff: "accepted p v \<longleftrightarrow> (\<forall>s. v = Some s \<longrightarrow> (\<exists>x. parse_value p s = Ok (Inr x)))"
  by (auto simp: accepted_def split: option.split outcome.split sum.split)

lemma options_cells_configured:
  assumes "distinct (map (\<lambda>(key, p, off). off) table)" and "(key, p, off) \<in> set table"
    and "accepted p (value key)"
  shows "options_cells value table m off = configured p (value key) (m off)"
  using options_cells_at [OF assms(1,2), of "value" m] assms(3)
  by (auto simp: configured_def accepted_iff)

lemma parse_value_defined: "p \<noteq> Parse_time \<Longrightarrow> \<exists>r. parse_value p v = Ok r"
  by (cases p) auto

lemma parse_value_undef: "parse_value p v = Undef u \<Longrightarrow> p = Parse_time \<and> u = SignedOverflow"
  by (cases p) (auto simp: time_seconds_def checked32_def Let_def pmf_simps split: if_splits)

subsection \<open>The section of a pool\<close>

definition section_accepted :: "dictionary \<Rightarrow> string \<Rightarrow> bool" where
  "section_accepted ini section_name =
     list_all (\<lambda>(key, p, off). accepted p (option_text ini section_name key)) pmf_ini_pool_option"

lemma pool_options_effect:
  obtains c' where "parse_options (\<lambda>_. True) pool_cells ini section_name pmf_ini_pool_option c
      = Ok (section_accepted ini section_name, c')"
    and "section_accepted ini section_name \<Longrightarrow>
      pool_cell c' = options_cells (option_text ini section_name) pmf_ini_pool_option (pool_cell c)"
proof -
  have fits: "\<forall>(key, p, off) \<in> set pmf_ini_pool_option. parser_fits pool_str_at pool_int_at p off"
    using pool_table_fits by (simp add: list_all_iff)
  have defd: "\<not> (\<exists>(key, p, off) \<in> set pmf_ini_pool_option. \<exists>v. option_text ini section_name key = Some v
      \<and> parse_value p v = Undef u)" for u
    by (auto dest!: parse_value_undef simp: pmf_ini_pool_option_def)
  have "case parse_options (\<lambda>_. True) pool_cells ini section_name pmf_ini_pool_option c of
      Ok (ok, c') \<Rightarrow>
        (ok \<longleftrightarrow> (\<forall>(key, p, off) \<in> set pmf_ini_pool_option.
            \<forall>v. option_text ini section_name key = Some v \<longrightarrow> (\<exists>x. parse_value p v = Ok (Inr x))))
        \<and> (ok \<longrightarrow> pool_cell c' = options_cells (option_text ini section_name) pmf_ini_pool_option (pool_cell c))
    | Fail e \<Rightarrow> False
    | Undef u \<Rightarrow> False"
    using pool.parse_options_effect [OF fits, of ini section_name "option_text ini section_name" c] defd
    by (auto simp: ini_option_text split: outcome.splits)
  moreover have "(\<forall>(key, p, off) \<in> set pmf_ini_pool_option.
      \<forall>v. option_text ini section_name key = Some v \<longrightarrow> (\<exists>x. parse_value p v = Ok (Inr x)))
    = section_accepted ini section_name"
    by (auto simp: section_accepted_def list_all_iff accepted_iff)
  ultimately show ?thesis using that by (auto split: outcome.splits)
qed

lemma pool_table_distinct: "distinct (map (\<lambda>(key, p, off). off) pmf_ini_pool_option)"
  by (simp add: pmf_ini_pool_option_def)

definition all_allocated :: "conf_env \<Rightarrow> bool" where
  "all_allocated env \<longleftrightarrow> ce_dup env = (\<lambda>_. True) \<and> ce_malloc_pool env \<and> ce_malloc_config env"

lemma parse_pool_section_effect:
  assumes "all_allocated env" and "section_name \<noteq> ''global''"
    and "\<not> list_ex (same_pool_name section_name) (st_pools st)"
  shows "\<exists>wp c st'. parse_pool_section env ini section_name st = Ok (if section_accepted ini section_name then None else Some (- 1), st')
    \<and> st_pools st' = st_pools st @ [wp] \<and> wp_config wp = Some c
    \<and> pmf_worker_pool_alloc True = Some (wp\<lparr>wp_config := None\<rparr>)
    \<and> (section_accepted ini section_name \<longrightarrow> wpc_name c = Some section_name
        \<and> (\<forall>(key, p, off) \<in> set pmf_ini_pool_option.
             pool_cell c off = configured p (option_text ini section_name key) (pool_cell new_pool_config off))
        \<and> (\<forall>off. off \<noteq> WPO P_name \<and> off \<notin> (\<lambda>(key, p, off). off) ` set pmf_ini_pool_option \<longrightarrow>
             pool_cell c off = pool_cell new_pool_config off))"
proof -
  let ?c0 = "new_pool_config\<lparr>wpc_name := Some section_name\<rparr>"
  have c0: "off \<noteq> WPO P_name \<Longrightarrow> pool_cell ?c0 off = pool_cell new_pool_config off" for off
    by (simp add: pool_cell_def)
  obtain c where c: "parse_options (\<lambda>_. True) pool_cells ini section_name pmf_ini_pool_option ?c0 = Ok (section_accepted ini section_name, c)"
    "section_accepted ini section_name \<Longrightarrow> pool_cell c = options_cells (option_text ini section_name) pmf_ini_pool_option (pool_cell ?c0)"
    using pool_options_effect [of ini section_name ?c0] by blast
  obtain wp where wp: "pmf_worker_pool_alloc True = Some wp" by (simp add: pmf_worker_pool_alloc_def)
  have "parse_pool_section env ini section_name st = Ok (if section_accepted ini section_name then None else Some (- 1),
      st\<lparr>st_pools := st_pools st @ [wp\<lparr>wp_config := Some c\<rparr>], st_current := True\<rparr>)"
    using assms(1-3) c(1) wp
    by (simp add: parse_pool_section_def pmf_worker_pool_config_alloc_def set_last_config_def all_allocated_def Let_def)
  moreover have "pmf_worker_pool_alloc True = Some (wp\<lparr>wp_config := Some c\<rparr>\<lparr>wp_config := None\<rparr>)"
    using wp by (auto simp: pmf_worker_pool_alloc_def)
  moreover have "wpc_name c = Some section_name" if "section_accepted ini section_name"
  proof -
    have "pool_cell c (WPO P_name) = pool_cell ?c0 (WPO P_name)"
      unfolding c(2) [OF that]
      by (rule options_cells_outside) (simp add: pmf_ini_pool_option_def)
    then show ?thesis by (simp add: pool_cell_def)
  qed
  moreover have "pool_cell c off = configured p (option_text ini section_name key) (pool_cell new_pool_config off)"
    if "section_accepted ini section_name" and mem: "(key, p, off) \<in> set pmf_ini_pool_option" for key p off
  proof -
    have "accepted p (option_text ini section_name key)"
      using that unfolding section_accepted_def list_all_iff by auto
    moreover have "off \<noteq> WPO P_name" using mem by (auto simp: pmf_ini_pool_option_def)
    ultimately show ?thesis
      using options_cells_configured [OF pool_table_distinct mem] c(2) [OF that(1)] c0 by simp
  qed
  moreover have "pool_cell c off = pool_cell new_pool_config off"
    if "section_accepted ini section_name" and "off \<noteq> WPO P_name" "off \<notin> (\<lambda>(key, p, off). off) ` set pmf_ini_pool_option" for off
    using options_cells_outside [OF that(3)] c(2) [OF that(1)] c0 [OF that(2)] by simp
  ultimately show ?thesis by auto
qed

text \<open>
  A section of a pool file whose name is neither \<open>global\<close> nor that of a pool, when no
  allocation fails: it has a defined meaning; it is refused exactly when some option is present
  with a text its parser refuses; otherwise one pool is appended, fresh but for its
  configuration, named after the section, in which every field of the option table holds what the option says or its default, and every
  other field its default.
\<close>

theorem pool_section_sets_fields:
  assumes "all_allocated env" and "section_name \<noteq> ''global''"
    and "\<not> list_ex (same_pool_name section_name) (st_pools st)"
  shows "\<exists>wp c st'. parse_pool_section env ini section_name st = Ok (if section_accepted ini section_name then None else Some (- 1), st')
    \<and> st_pools st' = st_pools st @ [wp] \<and> wp_config wp = Some c
    \<and> pmf_worker_pool_alloc True = Some (wp\<lparr>wp_config := None\<rparr>)
    \<and> (section_accepted ini section_name \<longrightarrow> wpc_name c = Some section_name
        \<and> (\<forall>(key, p, off) \<in> set pmf_ini_pool_option.
             pool_cell c off = configured p (option_text ini section_name key) (pool_cell new_pool_config off))
        \<and> (\<forall>off. off \<noteq> WPO P_name \<and> off \<notin> (\<lambda>(key, p, off). off) ` set pmf_ini_pool_option \<longrightarrow>
             pool_cell c off = pool_cell new_pool_config off))"
  using assms by (rule parse_pool_section_effect)

definition sample_conf_env :: conf_env where
  "sample_conf_env = \<lparr>ce_dup = (\<lambda>_. True), ce_malloc_pool = True, ce_malloc_config = True,
     ce_dict_new = True, ce_dict = all_alloc, ce_opendir = (\<lambda>_. None), ce_stat = (\<lambda>_. 0),
     ce_is_dir = (\<lambda>_. False), ce_is_regular = (\<lambda>_. True), ce_file = (\<lambda>_. None),
     ce_fallen = Some 0, ce_open_log = 3, ce_tty = False\<rparr>"

theorem pool_section_sets_fields_witness:
  "\<exists>ini wp c st'. parse_pool_section sample_conf_env ini ''www'' pmf_state_init = Ok (None, st')
     \<and> st_pools st' = [wp] \<and> wp_config wp = Some c
     \<and> wpc_name c = Some ''www'' \<and> wpc_user c = Some ''nobody'' \<and> wpc_pm_type c = 2
     \<and> wpc_listen_backlog c = 511 \<and> wpc_listen_owner c = None"
proof -
  let ?es = "[(''www'', None), (''www:user'', Some ''nobody''), (''www:pm'', Some ''Dynamic'')]"
  obtain d where d: "dict_wf d" "dict_entries d = ?es" using dict_of_entries [of ?es] by auto
  note ot = option_text_entries [OF d(1), unfolded d(2)]
  have acc: "section_accepted d ''www''" unfolding section_accepted_def ot by code_simp
  have pre: "all_allocated sample_conf_env" "''www'' \<noteq> ''global''"
    "\<not> list_ex (same_pool_name ''www'') (st_pools pmf_state_init)"
    by (simp_all add: all_allocated_def sample_conf_env_def pmf_state_init_def)
  have texts: "configured Parse_string (option_text d ''www'' ''user'') (Some (Str_cell None)) = Some (Str_cell (Some ''nobody''))"
    "configured Parse_pm (option_text d ''www'' ''pm'') (Some (Int_cell 0)) = Some (Int_cell 2)"
    "configured Parse_integer (option_text d ''www'' ''listen_backlog'') (Some (Int_cell 511)) = Some (Int_cell 511)"
    unfolding ot by code_simp+
  from pool_section_sets_fields [OF pre, of d] acc obtain wp c st' where
    r: "parse_pool_section sample_conf_env d ''www'' pmf_state_init = Ok (None, st')"
      "st_pools st' = [wp]" "wp_config wp = Some c" "wpc_name c = Some ''www''" and
    at: "\<forall>(key, p, off) \<in> set pmf_ini_pool_option.
      pool_cell c off = configured p (option_text d ''www'' key) (pool_cell new_pool_config off)" and
    out: "\<forall>off. off \<noteq> WPO P_name \<and> off \<notin> (\<lambda>(key, p, off). off) ` set pmf_ini_pool_option \<longrightarrow>
      pool_cell c off = pool_cell new_pool_config off"
    by (auto simp: pmf_state_init_def)
  have "pool_cell c (WPO P_user) = Some (Str_cell (Some ''nobody''))"
    "pool_cell c (WPO P_pm_type) = Some (Int_cell 2)"
    "pool_cell c (WPO P_listen_backlog) = Some (Int_cell 511)"
    using at texts by (simp_all add: pmf_ini_pool_option_def pool_cell_def new_pool_config_def PMF_BACKLOG_DEFAULT_def)
  moreover have "pool_cell c (WPO P_listen_owner) = pool_cell new_pool_config (WPO P_listen_owner)"
    using out by (auto simp: pmf_ini_pool_option_def)
  ultimately show ?thesis
    using r by (intro exI [of _ d] exI [of _ wp] exI [of _ c] exI [of _ st']) (simp add: pool_cell_def new_pool_config_def)
qed

subsection \<open>The main file\<close>

definition global_accepted :: "dictionary \<Rightarrow> bool" where
  "global_accepted ini =
     list_all (\<lambda>(key, p, off). accepted p (option_text ini ''global'' key)) pmf_ini_global_option"

lemma global_table_distinct: "distinct (map (\<lambda>(key, p, off). off) pmf_ini_global_option)"
  by (simp add: pmf_ini_global_option_def)

lemma global_options_effect:
  "case parse_options (\<lambda>_. True) global_cells ini ''global'' pmf_ini_global_option g of
      Ok (ok, g') \<Rightarrow> (ok \<longleftrightarrow> global_accepted ini)
        \<and> (ok \<longrightarrow> global_cell g' = options_cells (option_text ini ''global'') pmf_ini_global_option (global_cell g))
    | Fail e \<Rightarrow> False
    | Undef u \<Rightarrow> u = SignedOverflow \<and> \<not> global_accepted ini"
proof -
  have fits: "\<forall>(key, p, off) \<in> set pmf_ini_global_option. parser_fits global_str_at global_int_at p off"
    using global_table_fits by (simp add: list_all_iff)
  have acc: "global_accepted ini = (\<forall>(key, p, off) \<in> set pmf_ini_global_option.
      \<forall>v. option_text ini ''global'' key = Some v \<longrightarrow> (\<exists>x. parse_value p v = Ok (Inr x)))"
    by (auto simp: global_accepted_def list_all_iff accepted_iff)
  have undef: "u = SignedOverflow \<and> \<not> global_accepted ini"
    if "\<exists>(key, p, off) \<in> set pmf_ini_global_option. \<exists>v. option_text ini ''global'' key = Some v
      \<and> parse_value p v = Undef u" for u
    using that unfolding acc by (fastforce dest: parse_value_undef)
  show ?thesis
    using glob.parse_options_effect [OF fits, of ini "''global''" "option_text ini ''global''" g] undef
    unfolding acc [symmetric] by (auto simp: ini_option_text split: outcome.splits)
qed

text \<open>The loop over the options of another section never gets past the third option.\<close>

lemma foreign_options_undefined:
  assumes "ce_dup env = (\<lambda>_. True)" and "plog_level lg \<le> PLOG_NOTICE"
  shows "parse_foreign_options env lg ini section_name (zip pmf_ini_global_option pmf_ini_pool_option) g
    = Undef (if list_all (\<lambda>key. option_text ini section_name key \<noteq> None)
                  [''pid_file'', ''include_dir'', ''error_log''] then TypePun else BadFormat)"
  using assms
  by (auto simp: pmf_ini_global_option_def pmf_ini_pool_option_def ini_option_text pmf_config_set_string_def
      global_access_defs bad_cell_def split: option.split)

lemma foreign_sections_result:
  assumes "dict_wf ini" and "ce_dup env = (\<lambda>_. True)" and "plog_level lg \<le> PLOG_NOTICE"
    and "n \<le> length (section_names ini)"
  shows "parse_foreign_sections env lg ini n g =
     (case filter (\<lambda>s. s \<noteq> ''global'') (rev (take n (section_names ini))) of
        [] \<Rightarrow> Ok (0, g)
      | s # _ \<Rightarrow> Undef (if list_all (\<lambda>key. option_text ini s key \<noteq> None)
                  [''pid_file'', ''include_dir'', ''error_log''] then TypePun else BadFormat))"
  using assms(4)
proof (induction n)
  case (Suc n)
  then have "iniparser_getsecname (Some ini) (int n) = Some (section_names ini ! n)"
    by (simp add: iniparser_getsecname_nth [OF assms(1)] iniparser_getnsec_names [OF assms(1)])
  moreover have "rev (take (Suc n) (section_names ini)) = section_names ini ! n # rev (take n (section_names ini))"
    using Suc.prems by (simp add: take_Suc_conv_app_nth)
  ultimately show ?case
    using Suc by (simp add: foreign_options_undefined [OF assms(2,3)])
qed simp

lemma foreign_sections_global:
  assumes "dict_wf ini" and "set (section_names ini) \<subseteq> {''global''}" and "n \<le> length (section_names ini)"
  shows "parse_foreign_sections env lg ini n g = Ok (0, g)"
  using assms(3)
proof (induction n)
  case (Suc n)
  then have "section_names ini ! n = ''global''" using assms(2) nth_mem [of n "section_names ini"] by (auto simp: Suc_le_eq simp del: nth_mem)
  then have "iniparser_getsecname (Some ini) (int n) = Some ''global''"
    using Suc.prems by (simp add: iniparser_getsecname_nth [OF assms(1)] iniparser_getnsec_names [OF assms(1)])
  then show ?case using Suc by simp
qed simp

lemma parse_global_ini_effect:
  assumes "dict_wf ini" and "ce_dup env = (\<lambda>_. True)" and "set (section_names ini) \<subseteq> {''global''}"
  shows "case pmf_conf_parse_global_ini env ini st of
      Ok (r, st') \<Rightarrow> r = (if global_accepted ini then 0 else - 1)
        \<and> st' = st\<lparr>st_config := st_config st'\<rparr>
        \<and> (r = 0 \<longrightarrow> (\<forall>(key, p, off) \<in> set pmf_ini_global_option. global_cell (st_config st') off
              = configured p (option_text ini ''global'' key) (global_cell (st_config st) off)))
    | Fail e \<Rightarrow> False
    | Undef u \<Rightarrow> u = SignedOverflow \<and> \<not> global_accepted ini"
proof (cases "parse_options (\<lambda>_. True) global_cells ini ''global'' pmf_ini_global_option (st_config st)")
  case (Ok p)
  obtain ok g' where p: "p = (ok, g')" by (cases p)
  have eff: "ok \<longleftrightarrow> global_accepted ini"
    "ok \<Longrightarrow> global_cell g' = options_cells (option_text ini ''global'') pmf_ini_global_option (global_cell (st_config st))"
    using global_options_effect [of ini "st_config st"] Ok p by auto
  have "global_cell g' off = configured p (option_text ini ''global'' key) (global_cell (st_config st) off)"
    if ok and mem: "(key, p, off) \<in> set pmf_ini_global_option" for key p off
  proof -
    have "accepted p (option_text ini ''global'' key)"
      using that eff(1) by (auto simp: global_accepted_def list_all_iff)
    with options_cells_configured [OF global_table_distinct mem, of "option_text ini ''global''"]
    show ?thesis using eff(2) [OF that(1)] by simp
  qed
  then show ?thesis
    using Ok p eff(1) foreign_sections_global [OF assms(1,3) order_refl, of env "st_log st" g']
    by (auto simp: pmf_conf_parse_global_ini_def assms(2) iniparser_getnsec_names [OF assms(1)])
next
  case (Undef u)
  then show ?thesis
    using global_options_effect [of ini "st_config st"] by (simp add: pmf_conf_parse_global_ini_def assms(2))
qed (use global_options_effect [of ini "st_config st"] in auto)

text \<open>
  A main file whose only section is \<open>global\<close>, when no allocation fails: reading it answers 0
  exactly when every option present is accepted by its parser, and then every field of the
  global configuration holds what its option says or what it held before, nothing else of the
  state being changed; otherwise it answers -1, unless the seconds of a time option overflow.
\<close>

theorem main_file_sets_fields:
  assumes "dict_wf ini" and "ce_dup env = (\<lambda>_. True)" and "set (section_names ini) \<subseteq> {''global''}"
  shows "case pmf_conf_parse_global_ini env ini st of
      Ok (r, st') \<Rightarrow> r = (if global_accepted ini then 0 else - 1)
        \<and> st' = st\<lparr>st_config := st_config st'\<rparr>
        \<and> (r = 0 \<longrightarrow> (\<forall>(key, p, off) \<in> set pmf_ini_global_option. global_cell (st_config st') off
              = configured p (option_text ini ''global'' key) (global_cell (st_config st) off)))
    | Fail e \<Rightarrow> False
    | Undef u \<Rightarrow> u = SignedOverflow \<and> \<not> global_accepted ini"
  using assms by (rule parse_global_ini_effect)

theorem main_file_sets_fields_witness:
  "\<exists>ini st'. pmf_conf_parse_global_ini sample_conf_env ini pmf_state_init = Ok (0, st')
     \<and> gc_emergency_restart_interval (st_config st') = 3600 \<and> gc_daemonize (st_config st') = 1
     \<and> gc_log_level (st_config st') = PLOG_ALERT"
proof -
  let ?es = "[(''global'', None), (''global:emergency_restart_interval'', Some ''1h''),
    (''global:daemonize'', Some ''YES'')]"
  obtain d where d: "dict_wf d" "dict_entries d = ?es" using dict_of_entries [of ?es] by auto
  note ot = option_text_entries [OF d(1), unfolded d(2)]
  have acc: "global_accepted d" unfolding global_accepted_def ot by code_simp
  have pre: "ce_dup sample_conf_env = (\<lambda>_. True)" "set (section_names d) \<subseteq> {''global''}"
    by (simp_all add: sample_conf_env_def section_names_def d(2))
  have texts: "configured Parse_time (option_text d ''global'' ''emergency_restart_interval'') (Some (Int_cell 0)) = Some (Int_cell 3600)"
    "configured Parse_boolean (option_text d ''global'' ''daemonize'') (Some (Int_cell 0)) = Some (Int_cell 1)"
    "configured Parse_log_level (option_text d ''global'' ''log_level'') (Some (Int_cell 5)) = Some (Int_cell 5)"
    unfolding ot by code_simp+
  from main_file_sets_fields [OF d(1) pre, of pmf_state_init] acc obtain st' where
    r: "pmf_conf_parse_global_ini sample_conf_env d pmf_state_init = Ok (0, st')" and
    at: "\<forall>(key, p, off) \<in> set pmf_ini_global_option. global_cell (st_config st') off
        = configured p (option_text d ''global'' key) (global_cell (st_config pmf_state_init) off)"
    by (auto split: outcome.splits prod.splits)
  have "global_cell (st_config st') (GO G_emergency_restart_interval) = Some (Int_cell 3600)"
    "global_cell (st_config st') (GO G_daemonize) = Some (Int_cell 1)"
    "global_cell (st_config st') (GO G_log_level) = Some (Int_cell 5)"
    using at texts
    by (simp_all add: pmf_ini_global_option_def global_cell_def pmf_state_init_def pmf_global_config_init_def PLOG_ALERT_def)
  then show ?thesis
    using r by (intro exI [of _ d] exI [of _ st']) (simp add: global_cell_def PLOG_ALERT_def)
qed

text \<open>
  C27: A main file that has a section besides \<open>global\<close> is never read successfully while the log
  level shows notices (it does at start): when the options of \<open>global\<close> are accepted, the first
  such section from the end reaches undefined behaviour. Unless it sets \<open>pid_file\<close>,
  \<open>include_dir\<close> and \<open>error_log\<close>, a message is printed with a directive too many; if it does,
  the third is stored as a string over the integer fields of the global configuration.
\<close>

theorem foreign_section_undefined:
  assumes "dict_wf ini" and "ce_dup env = (\<lambda>_. True)" and "plog_level (st_log st) \<le> PLOG_NOTICE"
    and "s \<in> set (section_names ini)" and "s \<noteq> ''global''"
  shows "\<exists>s u. s \<in> set (section_names ini) \<and> s \<noteq> ''global''
    \<and> u = (if list_all (\<lambda>key. option_text ini s key \<noteq> None) [''pid_file'', ''include_dir'', ''error_log'']
           then TypePun else BadFormat)
    \<and> (if global_accepted ini then pmf_conf_parse_global_ini env ini st = Undef u
       else (\<exists>st'. pmf_conf_parse_global_ini env ini st = Ok (- 1, st'))
         \<or> pmf_conf_parse_global_ini env ini st = Undef SignedOverflow)"
proof -
  let ?others = "filter (\<lambda>s. s \<noteq> ''global'') (rev (section_names ini))"
  obtain t ts where t: "?others = t # ts" using assms(4,5) by (cases ?others) (auto simp: filter_empty_conv)
  have "t \<in> set ?others" unfolding t by simp
  then have mem: "t \<in> set (section_names ini) \<and> t \<noteq> ''global''" by simp
  let ?u = "if list_all (\<lambda>key. option_text ini t key \<noteq> None) [''pid_file'', ''include_dir'', ''error_log'']
    then TypePun else BadFormat"
  have foreign: "parse_foreign_sections env (st_log st) ini (length (section_names ini)) g = Undef ?u" for g
    using foreign_sections_result [OF assms(1-3) order_refl, of g] t by simp
  have "if global_accepted ini then pmf_conf_parse_global_ini env ini st = Undef ?u
       else (\<exists>st'. pmf_conf_parse_global_ini env ini st = Ok (- 1, st'))
         \<or> pmf_conf_parse_global_ini env ini st = Undef SignedOverflow"
    using global_options_effect [of ini "st_config st"]
    by (auto simp: pmf_conf_parse_global_ini_def assms(2) iniparser_getnsec_names [OF assms(1)] foreign
        split: outcome.splits)
  with mem show ?thesis by blast
qed

theorem foreign_section_undefined_witness:
  "\<exists>ini. pmf_conf_parse_global_ini sample_conf_env ini pmf_state_init = Undef BadFormat"
proof -
  let ?es = "[(''global'', None), (''www'', None), (''www:user'', Some ''nobody'')]"
  obtain d where d: "dict_wf d" "dict_entries d = ?es" using dict_of_entries [of ?es] by auto
  note ot = option_text_entries [OF d(1), unfolded d(2)]
  have acc: "global_accepted d" unfolding global_accepted_def ot by code_simp
  have pre: "ce_dup sample_conf_env = (\<lambda>_. True)" "plog_level (st_log pmf_state_init) \<le> PLOG_NOTICE"
    "''www'' \<in> set (section_names d)" "''www'' \<noteq> ''global''"
    by (simp_all add: sample_conf_env_def section_names_def d(2) pmf_state_init_def plog_init_def)
  have names: "section_names d = [''global'', ''www'']" by (simp add: section_names_def d(2))
  have none: "\<not> list_all (\<lambda>key. option_text d ''www'' key \<noteq> None) [''pid_file'', ''include_dir'', ''error_log'']"
    unfolding ot by code_simp
  show ?thesis
    using foreign_section_undefined [OF d(1) pre] acc none names by (intro exI [of _ d]) auto
qed

end
