(* ===== verification/Pmf_Conf_Pools.thy ===== *)
theory Pmf_Conf_Pools
  imports Pmf_Conf_Main
begin

text \<open>
  The check of the pools against a declarative specification of a valid pool and of the values
  the check settles.
\<close>

definition valid_listen :: "wp_config \<Rightarrow> bool" where
  "valid_listen c \<longleftrightarrow> (\<exists>a. wpc_listen_address c = Some a \<and> a \<noteq> []
     \<and> (pmf_sockets_domain_from_address a = PMF_AF_UNIX \<longrightarrow> hd a = CHR ''/''))"

definition valid_priority :: "int \<Rightarrow> bool" where
  "valid_priority p \<longleftrightarrow> p = 64 \<or> (- 19 \<le> p \<and> p \<le> 20)"

definition valid_manager :: "int \<Rightarrow> wp_config \<Rightarrow> bool" where
  "valid_manager edge c \<longleftrightarrow>
     wpc_pm_type c = PM_STYLE_STATIC
     \<or> wpc_pm_type c = PM_STYLE_DYNAMIC
       \<and> 0 < wpc_pm_min_spare_servers c \<and> wpc_pm_min_spare_servers c \<le> wpc_pm_max_spare_servers c
       \<and> wpc_pm_max_spare_servers c \<le> wpc_pm_max_children c
       \<and> (wpc_pm_start_servers c \<le> 0
          \<or> wpc_pm_min_spare_servers c \<le> wpc_pm_start_servers c
            \<and> wpc_pm_start_servers c \<le> wpc_pm_max_spare_servers c)
     \<or> wpc_pm_type c = PM_STYLE_ONDEMAND \<and> edge \<noteq> 0 \<and> 0 < wpc_pm_process_idle_timeout c"

definition valid_pool :: "int \<Rightarrow> worker_pool \<Rightarrow> bool" where
  "valid_pool edge wp \<longleftrightarrow> (\<exists>c. wp_config wp = Some c \<and> valid_listen c
     \<and> valid_priority (wpc_process_priority c) \<and> 0 < wpc_pm_max_children c \<and> valid_manager edge c)"

definition settle_config :: "wp_config \<Rightarrow> wp_config" where
  "settle_config c =
     (if wpc_pm_type c = PM_STYLE_DYNAMIC \<and> wpc_pm_start_servers c \<le> 0
      then c\<lparr>wpc_pm_start_servers := wpc_pm_min_spare_servers c
               + (wpc_pm_max_spare_servers c - wpc_pm_min_spare_servers c) div 2\<rparr>
      else if wpc_pm_type c = PM_STYLE_ONDEMAND
      then c\<lparr>wpc_listen_backlog := max (wpc_listen_backlog c) PMF_BACKLOG_DEFAULT,
             wpc_pm_start_servers := 0, wpc_pm_min_spare_servers := 0, wpc_pm_max_spare_servers := 0\<rparr>
      else c)"

definition with_domain :: "worker_pool \<Rightarrow> worker_pool" where
  "with_domain wp =
     (case wp_config wp of None \<Rightarrow> wp
      | Some c \<Rightarrow> (case wpc_listen_address c of None \<Rightarrow> wp
          | Some a \<Rightarrow> if a = [] then wp else wp\<lparr>wp_domain := Some (pmf_sockets_domain_from_address a)\<rparr>))"

definition settle_pool :: "worker_pool \<Rightarrow> worker_pool" where
  "settle_pool wp = (with_domain wp)\<lparr>wp_config := map_option settle_config (wp_config wp)\<rparr>"

definition int_pool :: "worker_pool \<Rightarrow> bool" where
  "int_pool wp \<longleftrightarrow> (\<exists>c. wp_config wp = Some c \<and> int32 (wpc_pm_max_spare_servers c))"

lemma check_listen_result:
  assumes "wp_config wp = Some c"
  shows "check_listen c wp = (if valid_listen c then 0 else - 1, with_domain wp)"
  by (auto simp: check_listen_def valid_listen_def with_domain_def assms Let_def split: option.split)

lemma check_dynamic_result:
  assumes "int32 (wpc_pm_max_spare_servers c)" and "wpc_pm_type c = PM_STYLE_DYNAMIC"
  shows "check_dynamic c = Ok (if valid_manager edge c then (0, settle_config c) else (- 1, c))"
proof -
  have "int32 (mx - mn) \<and> int32 (mn + (mx - mn) div 2)"
    if "0 < mn" "mn \<le> mx" "int32 mx" for mn mx
    using that by (auto simp: int32_def)
  then show ?thesis
    using assms
    by (auto simp: check_dynamic_def valid_manager_def settle_config_def Let_def checked32_def
        PM_STYLE_STATIC_def PM_STYLE_DYNAMIC_def PM_STYLE_ONDEMAND_def)
qed

lemma check_ondemand_result:
  assumes "wpc_pm_type c = PM_STYLE_ONDEMAND"
  shows "check_ondemand edge c = (if valid_manager edge c then (0, settle_config c) else (- 1, c))"
  using assms
  by (auto simp: check_ondemand_def valid_manager_def settle_config_def Let_def max_def
      PM_STYLE_STATIC_def PM_STYLE_DYNAMIC_def PM_STYLE_ONDEMAND_def)

lemma same_config: "wp_config wp = c \<Longrightarrow> wp\<lparr>wp_config := c\<rparr> = wp"
  by (cases wp) simp

lemma config_with_domain [simp]: "wp_config (with_domain wp) = wp_config wp"
  by (simp add: with_domain_def split: option.split)

lemma process_pool_result:
  assumes "int_pool wp"
  shows "process_pool edge wp = Ok (if valid_pool edge wp then (0, settle_pool wp) else (- 1, with_domain wp))"
proof -
  obtain c where c: "wp_config wp = Some c" and i: "int32 (wpc_pm_max_spare_servers c)"
    using assms by (auto simp: int_pool_def)
  have same: "(with_domain wp)\<lparr>wp_config := Some c\<rparr> = with_domain wp"
    by (rule same_config) (simp add: c)
  consider "wpc_pm_type c = PM_STYLE_DYNAMIC" | "wpc_pm_type c = PM_STYLE_ONDEMAND"
    | "wpc_pm_type c \<noteq> PM_STYLE_DYNAMIC" "wpc_pm_type c \<noteq> PM_STYLE_ONDEMAND" by blast
  then show ?thesis
  proof cases
    case 1
    then show ?thesis
      using c same
      by (auto simp: process_pool_def check_listen_result [OF c] check_dynamic_result [OF i 1, of edge]
          valid_pool_def valid_priority_def settle_pool_def)
  next
    case 2
    then have "wpc_pm_type c \<noteq> PM_STYLE_DYNAMIC" by (simp add: PM_STYLE_DYNAMIC_def PM_STYLE_ONDEMAND_def)
    with 2 show ?thesis
      using c same
      by (auto simp: process_pool_def check_listen_result [OF c] check_ondemand_result [OF 2]
          valid_pool_def valid_priority_def settle_pool_def)
  next
    case 3
    then show ?thesis
      using c same
      by (auto simp: process_pool_def check_listen_result [OF c] valid_pool_def valid_priority_def
          settle_pool_def settle_config_def valid_manager_def)
  qed
qed

lemma process_pools_result:
  "list_all int_pool pools \<Longrightarrow> process_pools edge pools =
     Ok (if list_all (valid_pool edge) pools then (0, map settle_pool pools)
         else (- 1, map settle_pool (takeWhile (valid_pool edge) pools)
                 @ (case dropWhile (valid_pool edge) pools of [] \<Rightarrow> [] | wp # wps \<Rightarrow> with_domain wp # wps)))"
  by (induction pools) (auto simp: process_pool_result)

text \<open>Settled pools are valid, and settling them again changes nothing.\<close>

lemma settle_config_idem: "valid_manager edge c \<Longrightarrow> settle_config (settle_config c) = settle_config c"
  by (auto simp: settle_config_def valid_manager_def PM_STYLE_STATIC_def PM_STYLE_DYNAMIC_def
      PM_STYLE_ONDEMAND_def)

lemma settle_config_keeps [simp]:
  "wpc_listen_address (settle_config c) = wpc_listen_address c"
  "wpc_process_priority (settle_config c) = wpc_process_priority c"
  "wpc_pm_max_children (settle_config c) = wpc_pm_max_children c"
  "wpc_pm_type (settle_config c) = wpc_pm_type c"
  by (simp_all add: settle_config_def)

lemma settle_manager: "valid_manager edge c \<Longrightarrow> valid_manager edge (settle_config c)"
  by (auto simp: settle_config_def valid_manager_def PM_STYLE_STATIC_def PM_STYLE_DYNAMIC_def
      PM_STYLE_ONDEMAND_def)

lemma settle_pool_valid:
  assumes "valid_pool edge wp" and "int_pool wp"
  shows "valid_pool edge (settle_pool wp) \<and> int_pool (settle_pool wp) \<and> settle_pool (settle_pool wp) = settle_pool wp"
proof -
  obtain c where c: "wp_config wp = Some c" "valid_listen c" "valid_manager edge c"
    "valid_priority (wpc_process_priority c)" "0 < wpc_pm_max_children c"
    using assms(1) by (auto simp: valid_pool_def)
  obtain a where a: "wpc_listen_address c = Some a" "a \<noteq> []" using c(2) by (auto simp: valid_listen_def)
  have s: "settle_pool wp = wp\<lparr>wp_domain := Some (pmf_sockets_domain_from_address a), wp_config := Some (settle_config c)\<rparr>"
    using c(1) a by (simp add: settle_pool_def with_domain_def)
  have "int32 (wpc_pm_max_spare_servers (settle_config c))"
    using assms(2) c(1) by (auto simp: int_pool_def settle_config_def int32_def)
  moreover have "settle_pool (settle_pool wp) = settle_pool wp"
    unfolding s using a settle_config_idem [OF c(3)] by (simp add: settle_pool_def with_domain_def)
  moreover have "valid_listen (settle_config c)" using c(2) by (simp add: valid_listen_def)
  ultimately show ?thesis
    using c settle_manager [OF c(3)] by (simp add: s valid_pool_def int_pool_def)
qed



end
