(* ===== verification/Pmf_Conf_Init.thy ===== *)
theory Pmf_Conf_Init
  imports Pmf_Conf_Pools
begin

text \<open>
  Invariants of the configuration over whole runs: the types of the structures, the names of the
  pools, and what \<open>pmf_conf_init_main\<close> leaves when it succeeds. Here allocations may fail.
\<close>

subsection \<open>What every parser keeps\<close>

text \<open>What the parsers store fits an \<open>int\<close>.\<close>

lemma log_level_of_int32: "log_level_of v = Some l \<Longrightarrow> int32 l"
  by (auto simp: log_level_of_def int32_def PLOG_DEBUG_def PLOG_NOTICE_def PLOG_WARNING_def
      PLOG_ERROR_def PLOG_ALERT_def split: if_splits)

lemma time_seconds_int32: "time_seconds dup v = Ok (Inr s) \<Longrightarrow> int32 s"
  by (auto simp: time_seconds_def Let_def pmf_simps split: if_splits)

lemma pm_type_of_int32: "pm_type_of v = Some t \<Longrightarrow> int32 t"
  by (auto simp: pm_type_of_def int32_def PM_STYLE_STATIC_def PM_STYLE_DYNAMIC_def
      PM_STYLE_ONDEMAND_def split: if_splits)

lemma const_int32: "int32 0" "int32 1" "int32 (- 1)"
  by (simp_all add: int32_def)

lemmas stored_int32 = log_level_of_int32 time_seconds_int32 pm_type_of_int32 const_int32 atoi_range

text \<open>An invariant of a structure that stores at the allowed offsets keep.\<close>

locale struct_invariant =
  fixes cs :: "'c cells" and allowed :: "nat \<Rightarrow> bool" and inv :: "'c \<Rightarrow> bool"
  assumes put_str_inv: "inv c \<Longrightarrow> allowed off \<Longrightarrow> put_str cs c off s = Ok c' \<Longrightarrow> inv c'"
    and put_int_inv: "inv c \<Longrightarrow> allowed off \<Longrightarrow> int32 i \<Longrightarrow> put_int cs c off i = Ok c' \<Longrightarrow> inv c'"
begin

lemma run_parser_inv:
  assumes "run_parser p dup cs v c off = Ok (c', r)" and "inv c" and "allowed off"
  shows "inv c'"
proof (cases p)
  case Parse_string
  then obtain c1 s1 where "put_str cs c off s1 = Ok c1" "c' = c1 \<or> (\<exists>s2. put_str cs c1 off s2 = Ok c')"
    using assms(1) by (auto simp: pmf_config_set_string_def pmf_simps split: if_splits)
  then show ?thesis using put_str_inv assms(2,3) by blast
next
  case Parse_log_level
  then have "c' = c \<or> (\<exists>l. log_level_of v = Some l \<and> put_int cs c off l = Ok c')"
    using assms(1) by (auto simp: pmf_conf_set_log_level_def pmf_simps split: option.splits)
  then show ?thesis using put_int_inv assms(2,3) stored_int32 by blast
next
  case Parse_integer
  then have "c' = c \<or> put_int cs c off (atoi v) = Ok c'"
    using assms(1) by (auto simp: pmf_conf_set_integer_def pmf_simps split: if_splits)
  then show ?thesis using put_int_inv assms(2,3) stored_int32 by blast
next
  case Parse_time
  then obtain t where t: "time_seconds dup v = Ok t"
    and res: "(case t of Inl e \<Rightarrow> Ok (c, Some e)
      | Inr s \<Rightarrow> obind (put_int cs c off s) (\<lambda>c. Ok (c, None))) = Ok (c', r)"
    using assms(1) by (auto simp: pmf_conf_set_time_def obind_eq_Ok)
  have "c' = c \<or> (\<exists>s. time_seconds dup v = Ok (Inr s) \<and> put_int cs c off s = Ok c')"
    using res t by (cases t) (auto simp: pmf_simps)
  then show ?thesis using put_int_inv assms(2,3) stored_int32 by blast
next
  case Parse_boolean
  then have "c' = c \<or> (\<exists>i \<in> {0, 1}. put_int cs c off i = Ok c')"
    using assms(1) by (auto simp: fpm_conf_set_boolean_def Let_def pmf_simps split: if_splits)
  then show ?thesis using put_int_inv assms(2,3) stored_int32 by blast
next
  case Parse_rlimit_core
  then have "c' = c \<or> put_int cs c off (- 1) = Ok c' \<or> put_int cs c off (atoi v) = Ok c'"
    using assms(1)
    by (auto simp: pmf_conf_set_rlimit_core_def pmf_conf_set_integer_def int_cells_def pmf_simps
        split: if_splits option.splits)
  then show ?thesis using put_int_inv assms(2,3) stored_int32 by blast
next
  case Parse_pm
  then have "c' = c \<or> (\<exists>t. pm_type_of v = Some t \<and> put_int cs c off t = Ok c')"
    using assms(1) by (auto simp: pmf_conf_set_pm_def pmf_simps split: option.splits)
  then show ?thesis using put_int_inv assms(2,3) stored_int32 by blast
qed

lemma parse_options_inv:
  "parse_options dup cs ini section_name table c = Ok (ok, c') \<Longrightarrow> inv c \<Longrightarrow>
   list_all (\<lambda>(key, p, off). allowed off) table \<Longrightarrow> inv c'"
proof (induction table arbitrary: c)
  case (Cons t table)
  obtain key p off where t: "t = (key, p, off)" by (cases t)
  show ?case
    using Cons.prems Cons.IH run_parser_inv
    by (fastforce simp: t pmf_simps split: option.splits if_splits)
qed simp

end

text \<open>The integer fields of the two structures hold C integers.\<close>

definition typed_pool_config :: "wp_config \<Rightarrow> bool" where
  "typed_pool_config c \<longleftrightarrow> list_all int32
     [wpc_listen_backlog c, wpc_process_priority c, wpc_process_dumpable c, wpc_pm_type c,
      wpc_pm_max_children c, wpc_pm_start_servers c, wpc_pm_min_spare_servers c,
      wpc_pm_max_spare_servers c, wpc_pm_process_idle_timeout c, wpc_pm_max_requests c]"

definition typed_global_config :: "pmf_global_config \<Rightarrow> bool" where
  "typed_global_config g \<longleftrightarrow> list_all int32
     [gc_log_level g, gc_emergency_restart_threshold g, gc_emergency_restart_interval g,
      gc_process_control_timeout g, gc_process_max g, gc_process_priority g, gc_daemonize g,
      gc_rlimit_files g, gc_rlimit_core g]"

interpretation pool_inv: struct_invariant pool_cells "\<lambda>off. off \<noteq> WPO P_name"
  "\<lambda>c. typed_pool_config c \<and> wpc_name c = n" for n
proof
  fix c s c' and off :: nat
  assume "typed_pool_config c \<and> wpc_name c = n" "off \<noteq> WPO P_name" "put_str pool_cells c off s = Ok c'"
  then show "typed_pool_config c' \<and> wpc_name c' = n"
    by (auto simp: pool_cells_def pool_put_str_def bad_cell_def typed_pool_config_def split: if_splits)
next
  fix c i c' and off :: nat
  assume "typed_pool_config c \<and> wpc_name c = n" "int32 i" "put_int pool_cells c off i = Ok c'"
  then show "typed_pool_config c' \<and> wpc_name c' = n"
    by (auto simp: pool_cells_def pool_put_int_def bad_cell_def typed_pool_config_def split: if_splits)
qed

interpretation glob_inv: struct_invariant global_cells "\<lambda>off. True" typed_global_config
proof
  fix c s c' and off :: nat
  assume "typed_global_config c" "put_str global_cells c off s = Ok c'"
  then show "typed_global_config c'"
    by (auto simp: global_cells_def global_put_str_def bad_cell_def typed_global_config_def split: if_splits)
next
  fix c i c' and off :: nat
  assume "typed_global_config c" "int32 i" "put_int global_cells c off i = Ok c'"
  then show "typed_global_config c'"
    by (auto simp: global_cells_def global_put_int_def bad_cell_def typed_global_config_def split: if_splits)
qed

subsection \<open>Reading the pool files\<close>

definition pool_name :: "worker_pool \<Rightarrow> string option" where
  "pool_name wp = Option.bind (wp_config wp) wpc_name"

text \<open>The names of the pools, in lower case, in the order of the list.\<close>

definition pool_names :: "worker_pool list \<Rightarrow> string list" where
  "pool_names pools = map (lowercase \<circ> the) (filter (\<lambda>n. n \<noteq> None) (map pool_name pools))"

definition typed_pool :: "worker_pool \<Rightarrow> bool" where
  "typed_pool wp \<longleftrightarrow> (\<exists>c. wp_config wp = Some c \<and> typed_pool_config c)"

lemma pool_names_Nil [simp]: "pool_names [] = []"
  by (simp add: pool_names_def)

lemma pool_names_append [simp]: "pool_names (xs @ ys) = pool_names xs @ pool_names ys"
  by (simp add: pool_names_def)

lemma pool_names_single:
  "pool_names [wp] = (case pool_name wp of None \<Rightarrow> [] | Some n \<Rightarrow> [lowercase n])"
  by (simp add: pool_names_def split: option.split)

lemma same_pool_name_iff: "same_pool_name s wp \<longleftrightarrow> (\<exists>n. pool_name wp = Some n \<and> lowercase n = lowercase s)"
  by (auto simp: same_pool_name_def pool_name_def strcasecmp_eq_def split: option.split)

lemma no_same_name: "\<not> list_ex (same_pool_name s) pools \<Longrightarrow> lowercase s \<notin> set (pool_names pools)"
  by (force simp: list_ex_iff same_pool_name_iff pool_names_def)

text \<open>Pools are only appended; their names stay distinct and their integers C integers.\<close>

definition pools_grown :: "pmf_state \<Rightarrow> pmf_state \<Rightarrow> bool" where
  "pools_grown st st' \<longleftrightarrow>
     (\<exists>new. st' = st\<lparr>st_pools := st_pools st @ new, st_current := st_current st'\<rparr> \<and> list_all typed_pool new
        \<and> (distinct (pool_names (st_pools st)) \<longrightarrow> distinct (pool_names (st_pools st @ new))))"

lemma pools_grown_refl: "pools_grown st st"
  by (simp add: pools_grown_def exI [of _ "[]"])

lemma pools_grown_trans: "pools_grown st st' \<Longrightarrow> pools_grown st' st'' \<Longrightarrow> pools_grown st st''"
proof -
  assume "pools_grown st st'" and "pools_grown st' st''"
  then obtain new new' where
    a: "st' = st\<lparr>st_pools := st_pools st @ new, st_current := st_current st'\<rparr>" "list_all typed_pool new"
      "distinct (pool_names (st_pools st)) \<longrightarrow> distinct (pool_names (st_pools st @ new))" and
    b: "st'' = st'\<lparr>st_pools := st_pools st' @ new', st_current := st_current st''\<rparr>" "list_all typed_pool new'"
      "distinct (pool_names (st_pools st')) \<longrightarrow> distinct (pool_names (st_pools st' @ new'))"
    by (auto simp: pools_grown_def)
  have p: "st_pools st' = st_pools st @ new" by (subst a(1)) simp
  have "st'' = st\<lparr>st_pools := st_pools st @ (new @ new'), st_current := st_current st''\<rparr>"
    by (subst b(1), subst a(1)) (simp add: p)
  moreover have "distinct (pool_names (st_pools st)) \<longrightarrow> distinct (pool_names (st_pools st @ (new @ new')))"
    using a(3) b(3) p by simp
  ultimately show ?thesis
    using a(2) b(2) unfolding pools_grown_def by (metis list_all_append)
qed

lemma typed_new_pool: "typed_pool_config (new_pool_config\<lparr>wpc_name := n\<rparr>)"
  by (simp add: typed_pool_config_def new_pool_config_def int32_def PMF_BACKLOG_DEFAULT_def)

lemma section_pools_grown:
  assumes "parse_pool_section env ini s st = Ok (r, st')"
  shows "pools_grown st st'"
proof (cases "s = ''global'' \<or> list_ex (same_pool_name s) (st_pools st) \<or> \<not> ce_malloc_pool env \<or> \<not> ce_malloc_config env")
  case True
  then have "st' = st"
    using assms
    by (auto simp: parse_pool_section_def pmf_worker_pool_config_alloc_def pmf_worker_pool_alloc_def split: if_splits)
  then show ?thesis by (simp add: pools_grown_refl)
next
  case False
  then obtain wp where wp: "pmf_worker_pool_alloc True = Some wp" "ce_malloc_pool env" "ce_malloc_config env"
    by (auto simp: pmf_worker_pool_alloc_def)
  have grown: "pools_grown st (st\<lparr>st_pools := st_pools st @ [wp\<lparr>wp_config := Some c\<rparr>], st_current := True\<rparr>)"
    if "typed_pool_config c" "wpc_name c = None \<or> wpc_name c = Some s" for c
    unfolding pools_grown_def using that False no_same_name [of s "st_pools st"]
    by (intro exI [of _ "[wp\<lparr>wp_config := Some c\<rparr>]"])
      (auto simp: typed_pool_def pool_names_single pool_name_def)
  show ?thesis
  proof (cases "ce_dup env s")
    case False
    then have "st' = st\<lparr>st_pools := st_pools st @ [wp\<lparr>wp_config := Some new_pool_config\<rparr>], st_current := True\<rparr>"
      using assms \<open>\<not> (_ \<or> _)\<close> wp
      by (simp add: parse_pool_section_def pmf_worker_pool_config_alloc_def Let_def)
    then show ?thesis
      using grown [of new_pool_config] typed_new_pool [of None] by (simp add: new_pool_config_def)
  next
    case True
    then obtain ok c where c: "parse_options (ce_dup env) pool_cells ini s pmf_ini_pool_option
        (new_pool_config\<lparr>wpc_name := Some s\<rparr>) = Ok (ok, c)"
      "st' = st\<lparr>st_pools := st_pools st @ [wp\<lparr>wp_config := Some c\<rparr>], st_current := True\<rparr>"
      using assms \<open>\<not> (_ \<or> _)\<close> wp
      by (auto simp: parse_pool_section_def pmf_worker_pool_config_alloc_def Let_def set_last_config_def pmf_simps)
    have "typed_pool_config c \<and> wpc_name c = Some s"
      by (rule pool_inv.parse_options_inv [OF c(1)])
        (simp_all add: typed_new_pool pmf_ini_pool_option_def)
    then show ?thesis using grown c(2) by simp
  qed
qed

lemma sections_pools_grown:
  "parse_pool_sections env ini n st = Ok (r, st') \<Longrightarrow> pools_grown st st'"
proof (induction n arbitrary: st)
  case (Suc n)
  then obtain s r1 st1 where s: "parse_pool_section env ini s st = Ok (r1, st1)"
    "(case r1 of Some r1 \<Rightarrow> Ok (Some r1, st1) | None \<Rightarrow> parse_pool_sections env ini n st1)
      = Ok (r, st')"
    by (auto simp: pmf_simps split: option.splits)
  show ?case
    using section_pools_grown [OF s(1)] s(2) Suc.IH pools_grown_trans by (cases r1) auto
qed (simp add: pools_grown_refl)

lemma files_pools_grown:
  "parse_pool_files env dir names st = Ok (r, st') \<Longrightarrow> pools_grown st st'"
proof (induction names arbitrary: st)
  case (Cons d_name names)
  show ?case
  proof (cases "parse_pool_files env dir names st = Ok (r, st')")
    case True
    then show ?thesis by (rule Cons.IH)
  next
    case False
    with Cons.prems have
      "st' = st \<or> (\<exists>ini ret st1. pmf_conf_parse_pool_ini env ini st = Ok (ret, st1)
        \<and> (st' = st1 \<or> parse_pool_files env dir names st1 = Ok (r, st')))"
      by (fastforce simp: Let_def pmf_simps split: if_splits option.splits)
    moreover have "pools_grown st st1" if "pmf_conf_parse_pool_ini env ini st = Ok (ret, st1)" for ini ret st1
      using that sections_pools_grown pools_grown_refl
      by (auto simp: pmf_conf_parse_pool_ini_def Let_def split: if_splits)
    ultimately show ?thesis using Cons.IH pools_grown_trans pools_grown_refl by blast
  qed
qed (simp add: pools_grown_refl)

end
