(* ===== verification/Pmf_Conf_Run.thy ===== *)
theory Pmf_Conf_Run
  imports Pmf_Conf_Proofs Pmf_Conf_Init
begin

text \<open>
  The whole of \<open>pmf_conf_init_main\<close>: what is true of the state when it succeeds, and a run from
  the texts of the two files.
\<close>

lemma pool_config_grown:
  assumes "pmf_conf_parse_pool_config env include_dir st = Ok (r, st')"
  shows "pools_grown st st'"
  using assms files_pools_grown pools_grown_refl
  by (auto simp: pmf_conf_parse_pool_config_def split: option.splits)

lemma pools_grownE:
  assumes "pools_grown st st'"
  obtains new where "st' = st\<lparr>st_pools := st_pools st @ new, st_current := st_current st'\<rparr>"
    "st_pools st' = st_pools st @ new" "list_all typed_pool new"
    "distinct (pool_names (st_pools st)) \<longrightarrow> distinct (pool_names (st_pools st'))"
    "st_config st' = st_config st" "st_events st' = st_events st"
proof -
  obtain new where new: "st' = st\<lparr>st_pools := st_pools st @ new, st_current := st_current st'\<rparr>"
    "list_all typed_pool new"
    "distinct (pool_names (st_pools st)) \<longrightarrow> distinct (pool_names (st_pools st @ new))"
    using assms by (auto simp: pools_grown_def)
  have "st_pools st' = st_pools st @ new" "st_config st' = st_config st" "st_events st' = st_events st"
    by (subst new(1), simp)+
  with new show ?thesis using that by simp
qed

lemma foreign_options_typed:
  "parse_foreign_options env lg ini s table g = Ok (ok, g') \<Longrightarrow> typed_global_config g \<Longrightarrow>
   typed_global_config g'"
proof (induction env lg ini s table g rule: parse_foreign_options.induct)
  case (2 env lg ini section_name gkey x y z parser off rest g)
  show ?case
  proof (cases "option_text ini section_name gkey")
    case None
    then show ?thesis using 2 by (simp add: ini_option_text split: if_splits)
  next
    case (Some v)
    then obtain g1 ret where g1: "run_parser parser (ce_dup env) global_cells v g off = Ok (g1, ret)"
      "g' = g1 \<or> ret = None \<and> parse_foreign_options env lg ini section_name rest g1 = Ok (ok, g')"
      using "2.prems"(1) by (auto simp: ini_option_text pmf_simps split: if_splits)
    have "typed_global_config g1" using glob_inv.run_parser_inv [OF g1(1) "2.prems"(2)] by simp
    then show ?thesis using g1 "2.IH"(2) Some by (auto simp: ini_option_text)
  qed
qed simp

lemma foreign_sections_typed:
  "parse_foreign_sections env lg ini n g = Ok (r, g') \<Longrightarrow> typed_global_config g \<Longrightarrow> typed_global_config g'"
  by (induction n arbitrary: g)
    (auto simp: pmf_simps split: option.splits if_splits dest: foreign_options_typed)

lemma load_conf_file_state:
  assumes "pmf_conf_load_conf_file env st = Ok (r, st')" and "typed_global_config (st_config st)"
  shows "r \<le> 0 \<and> (\<exists>g. st' = st\<lparr>st_config := g\<rparr> \<and> typed_global_config g)"
proof -
  have *: "\<exists>g. st1 = st\<lparr>st_config := g\<rparr> \<and> typed_global_config g"
    if "pmf_conf_parse_global_ini env ini st = Ok (r1, st1)" for ini r1 st1
  proof -
    have "\<exists>ok g. parse_options (ce_dup env) global_cells ini ''global'' pmf_ini_global_option (st_config st)
        = Ok (ok, g) \<and> (st1 = st\<lparr>st_config := g\<rparr>
          \<or> (\<exists>n r g'. parse_foreign_sections env (st_log st) ini n g = Ok (r, g') \<and> st1 = st\<lparr>st_config := g'\<rparr>))"
      using that by (fastforce simp: pmf_conf_parse_global_ini_def Let_def pmf_simps split: if_splits)
    then obtain ok g where g: "parse_options (ce_dup env) global_cells ini ''global'' pmf_ini_global_option (st_config st)
        = Ok (ok, g)" "st1 = st\<lparr>st_config := g\<rparr>
          \<or> (\<exists>n r g'. parse_foreign_sections env (st_log st) ini n g = Ok (r, g') \<and> st1 = st\<lparr>st_config := g'\<rparr>)"
      by blast
    have "typed_global_config g"
      by (rule glob_inv.parse_options_inv [OF g(1) assms(2)]) (simp add: list_all_iff)
    then show ?thesis using g(2) foreign_sections_typed by blast
  qed
  obtain ini msgs where load: "iniparser_load (ce_dict_new env) (ce_dict env) (ce_file env PMF_CONF_FILE) = Ok (ini, msgs)"
    using assms(1) by (auto simp: pmf_conf_load_conf_file_def obind_eq_Ok)
  show ?thesis
  proof (cases ini)
    case None
    then have "r = - 1 \<and> st' = st\<lparr>st_config := st_config st\<rparr>"
      using assms(1) load by (simp add: pmf_conf_load_conf_file_def)
    then show ?thesis using assms(2) by (intro conjI exI [of _ "st_config st"]) simp_all
  next
    case (Some d)
    then obtain r1 where "pmf_conf_parse_global_ini env d st = Ok (r1, st')" "r \<le> 0"
      using assms(1) load by (auto simp: pmf_conf_load_conf_file_def pmf_simps split: if_splits)
    then show ?thesis using * by blast
  qed
qed

text \<open>What processing the global configuration leaves on success.\<close>

lemma apply_log_level_state [simp]:
  "st_pools (apply_log_level st) = st_pools st" "st_config (apply_log_level st) = st_config st"
  by (simp_all add: apply_log_level_def Let_def)

lemma default_error_log_keeps [simp]:
  "gc_process_max (default_error_log env g) = gc_process_max g"
  "gc_process_priority (default_error_log env g) = gc_process_priority g"
  "typed_global_config (default_error_log env g) = typed_global_config g"
  by (simp_all add: default_error_log_def typed_global_config_def)

lemma event_pre_init_module: "pmf_event_pre_init x = (r, m) \<Longrightarrow> m \<noteq> None"
  by (auto simp: pmf_event_pre_init_def pmf_event_epoll_module_def pmf_event_select_module_def split: if_splits)

lemma finish_proc_config_state:
  assumes "finish_proc_config env st = (r, st')" and "0 \<le> r"
  shows "st_pools st' = st_pools st \<and> st_config st' = default_error_log env (st_config st)
    \<and> 0 \<le> gc_process_max (st_config st') \<and> valid_priority (gc_process_priority (st_config st'))
    \<and> st_events st' \<noteq> None"
  using assms
  by (auto simp: finish_proc_config_def Let_def valid_priority_def dest: event_pre_init_module
      split: if_splits prod.splits)

lemma proc_config_state:
  assumes "pmf_conf_proc_config env st = Ok (r, st')" and "0 \<le> r"
    and "st_pools st = []" and "typed_global_config (st_config st)"
  shows "list_all typed_pool (st_pools st') \<and> distinct (pool_names (st_pools st'))
    \<and> typed_global_config (st_config st') \<and> 0 \<le> gc_process_max (st_config st')
    \<and> valid_priority (gc_process_priority (st_config st')) \<and> st_events st' \<noteq> None"
proof -
  obtain r1 st1 where st1: "(case gc_include_dir (st_config st) of None \<Rightarrow> Ok (0, apply_log_level st)
      | Some dir \<Rightarrow> if pmf_conf_is_dir env dir then pmf_conf_parse_pool_config env dir (apply_log_level st)
                    else Ok (0, apply_log_level st)) = Ok (r1, st1)"
    and fin: "(if 0 > r1 then (- 1, st1) else finish_proc_config env st1) = (r, st')"
    using assms(1) unfolding pmf_conf_proc_config_def Let_def obind_eq_Ok by auto
  have "pools_grown (apply_log_level st) st1"
    using st1 pool_config_grown pools_grown_refl by (auto split: option.splits if_splits)
  then obtain new where new:
    "st1 = (apply_log_level st)\<lparr>st_pools := st_pools (apply_log_level st) @ new, st_current := st_current st1\<rparr>"
    "st_pools st1 = st_pools (apply_log_level st) @ new" "list_all typed_pool new"
    "distinct (pool_names (st_pools (apply_log_level st))) \<longrightarrow> distinct (pool_names (st_pools st1))"
    "st_config st1 = st_config (apply_log_level st)" "st_events st1 = st_events (apply_log_level st)"
    by (rule pools_grownE)
  have "finish_proc_config env st1 = (r, st')" using fin assms(2) by (simp split: if_splits)
  note fin = finish_proc_config_state [OF this assms(2)]
  then have "typed_global_config (st_config st')" using new(5) assms(4) by simp
  moreover have "st_pools st' = new" "distinct (pool_names new)" using fin new(2,4) assms(3) by simp_all
  ultimately show ?thesis using fin new(3) by metis
qed

lemma settle_pool_typed:
  assumes "typed_pool wp" and "valid_pool edge wp"
  shows "typed_pool (settle_pool wp)"
proof -
  obtain c where c: "wp_config wp = Some c" "typed_pool_config c" "valid_manager edge c"
    using assms by (auto simp: typed_pool_def valid_pool_def)
  have "int32 (mn + (mx - mn) div 2)" if "0 < mn" "mn \<le> mx" "int32 mx" for mn mx
    using that by (auto simp: int32_def)
  then have "typed_pool_config (settle_config c)"
    using c(2,3)
    by (auto simp: typed_pool_config_def settle_config_def valid_manager_def max_def int32_def
        PMF_BACKLOG_DEFAULT_def PM_STYLE_STATIC_def PM_STYLE_DYNAMIC_def PM_STYLE_ONDEMAND_def)
  then show ?thesis using c(1) by (simp add: typed_pool_def settle_pool_def)
qed

lemma typed_int_pool: "typed_pool wp \<Longrightarrow> int_pool wp"
  by (auto simp: typed_pool_def int_pool_def typed_pool_config_def)

lemma pool_name_settle [simp]: "pool_name (settle_pool wp) = pool_name wp"
  by (cases "wp_config wp") (simp_all add: pool_name_def settle_pool_def settle_config_def)

lemma pool_names_settle [simp]: "pool_names (map settle_pool pools) = pool_names pools"
  by (simp add: pool_names_def comp_def)

lemma conf_dump_length:
  assumes "pmf_conf_dump st = Ok msgs" and "list_all typed_pool (st_pools st)"
  shows "length msgs = 14 + 14 * length (st_pools st)"
proof -
  have "length (concat (map (\<lambda>wp. case wp_config wp of None \<Rightarrow> [] | Some c \<Rightarrow> dump_pool c) pools)) = 14 * length pools"
    if "list_all typed_pool pools" for pools
    using that by (induction pools) (auto simp: typed_pool_def dump_pool_def)
  then show ?thesis
    using assms by (auto simp: pmf_conf_dump_def Let_def pmf_simps split: option.splits)
qed

subsection \<open>A run from the texts of the files\<close>

definition main_lines :: "string list" where
  "main_lines = [''[global]'', ''include_dir = /etc/pmf.d'', ''daemonize = yes'']"

definition pool_lines :: "string list" where
  "pool_lines = [''; first pool'', ''[www]'', ''listen = 127.0.0.1:80'', ''pm = Dynamic'',
     ''pm.max_children = 5'', ''pm.min_spare_servers = 1'', ''pm.max_spare_servers = 3'']"

definition run_env :: conf_env where
  "run_env = sample_conf_env\<lparr>
     ce_opendir := (\<lambda>p. if p = ''/etc/pmf.d'' then Some [''.'', ''..'', ''www.conf''] else None),
     ce_is_dir := (\<lambda>p. p = ''/etc/pmf.d''),
     ce_file := (\<lambda>p. if p = PMF_CONF_FILE then Some (unlines main_lines)
                    else if p = ''/etc/pmf.d/www.conf'' then Some (unlines pool_lines) else None)\<rparr>"

lemma run_env_fields:
  "ce_dup run_env = (\<lambda>_. True)" "all_allocated run_env" "ce_dict_new run_env" "ce_dict run_env = all_alloc"
  "ce_stat run_env p = 0" "ce_fallen run_env = Some 0" "ce_is_regular run_env q"
  "ce_is_dir run_env q \<longleftrightarrow> q = ''/etc/pmf.d''" "ce_open_log run_env = 3" "\<not> ce_tty run_env"
  "ce_opendir run_env ''/etc/pmf.d'' = Some [''.'', ''..'', ''www.conf'']"
  "ce_file run_env PMF_CONF_FILE = Some (unlines main_lines)"
  "ce_file run_env ''/etc/pmf.d/www.conf'' = Some (unlines pool_lines)"
  by (simp_all add: run_env_def sample_conf_env_def all_allocated_def PMF_CONF_FILE_def)

lemma load_lines:
  assumes "list_all plain_line ls" and "Option.bind (ini_join [] ls) (ini_meaning [] []) = Some es"
    and "length ls < 10"
  obtains d msgs where "iniparser_load True all_alloc (Some (unlines ls)) = Ok (Some d, msgs)"
    "dict_wf d" "dict_entries d = es"
  using iniparser_load_lines [of ls] assms by (auto simp: list_all_iff)

lemma run_main_file:
  obtains g where "pmf_conf_load_conf_file run_env pmf_state_init = Ok (0, pmf_state_init\<lparr>st_config := g\<rparr>)"
    and "gc_include_dir g = Some ''/etc/pmf.d''" "gc_log_level g = 5" "gc_error_log g = None"
    "gc_process_max g = 0" "gc_process_priority g = 64" "gc_event_mechanism g = None"
    "gc_daemonize g = 1"
proof -
  let ?es = "[(''global'', None), (''global:include_dir'', Some ''/etc/pmf.d''), (''global:daemonize'', Some ''yes'')]"
  have "list_all plain_line main_lines" "Option.bind (ini_join [] main_lines) (ini_meaning [] []) = Some ?es"
    by code_simp+
  moreover have "length main_lines < 10" by (simp add: main_lines_def)
  ultimately obtain d msgs where d: "iniparser_load True all_alloc (Some (unlines main_lines)) = Ok (Some d, msgs)"
    "dict_wf d" "dict_entries d = ?es" by (rule load_lines)
  note ot = option_text_entries [OF d(2), unfolded d(3)]
  have acc: "global_accepted d" unfolding global_accepted_def ot by code_simp
  have names: "set (section_names d) \<subseteq> {''global''}" by (simp add: section_names_def d(3))
  let ?conf = "\<lambda>p key. configured p (option_text d ''global'' key)"
  have texts: "?conf Parse_string ''include_dir'' (Some (Str_cell None)) = Some (Str_cell (Some ''/etc/pmf.d''))"
    "?conf Parse_log_level ''log_level'' (Some (Int_cell 5)) = Some (Int_cell 5)"
    "?conf Parse_string ''error_log'' (Some (Str_cell None)) = Some (Str_cell None)"
    "?conf Parse_integer ''process.max'' (Some (Int_cell 0)) = Some (Int_cell 0)"
    "?conf Parse_integer ''process.priority'' (Some (Int_cell 64)) = Some (Int_cell 64)"
    "?conf Parse_string ''events.mechanism'' (Some (Str_cell None)) = Some (Str_cell None)"
    "?conf Parse_boolean ''daemonize'' (Some (Int_cell 0)) = Some (Int_cell 1)"
    unfolding ot by code_simp+
  from parse_global_ini_effect [OF d(2) run_env_fields(1) names, of pmf_state_init] acc obtain st where
    st: "pmf_conf_parse_global_ini run_env d pmf_state_init = Ok (0, st)"
      "st = pmf_state_init\<lparr>st_config := st_config st\<rparr>" and
    at: "\<forall>(key, p, off) \<in> set pmf_ini_global_option. global_cell (st_config st) off
        = ?conf p key (global_cell (st_config pmf_state_init) off)"
    by (auto split: outcome.splits prod.splits)
  let ?g = "st_config st"
  have "global_cell ?g (GO G_include_dir) = Some (Str_cell (Some ''/etc/pmf.d''))"
    "global_cell ?g (GO G_log_level) = Some (Int_cell 5)" "global_cell ?g (GO G_error_log) = Some (Str_cell None)"
    "global_cell ?g (GO G_process_max) = Some (Int_cell 0)" "global_cell ?g (GO G_process_priority) = Some (Int_cell 64)"
    "global_cell ?g (GO G_event_mechanism) = Some (Str_cell None)" "global_cell ?g (GO G_daemonize) = Some (Int_cell 1)"
    using at texts
    by (simp_all add: pmf_ini_global_option_def global_cell_def pmf_state_init_def pmf_global_config_init_def PLOG_ALERT_def)
  moreover have "pmf_conf_load_conf_file run_env pmf_state_init = Ok (0, pmf_state_init\<lparr>st_config := ?g\<rparr>)"
    using st d(1) by (simp add: pmf_conf_load_conf_file_def run_env_fields)
  ultimately show ?thesis using that [of ?g] by (simp add: global_cell_def)
qed

lemma run_pool_files:
  assumes "st_pools st = []"
  obtains wp c st' where "pmf_conf_parse_pool_config run_env ''/etc/pmf.d'' st = Ok (0, st')"
    and "st_pools st' = [wp]" "wp_config wp = Some c" "wpc_name c = Some ''www''"
    "wpc_listen_address c = Some ''127.0.0.1:80''" "wpc_process_priority c = 64" "wpc_pm_type c = 2"
    "wpc_pm_max_children c = 5" "wpc_pm_min_spare_servers c = 1" "wpc_pm_max_spare_servers c = 3"
    "wpc_pm_start_servers c = 0" "pmf_worker_pool_alloc True = Some (wp\<lparr>wp_config := None\<rparr>)"
proof -
  let ?es = "[(''www'', None), (''www:listen'', Some ''127.0.0.1:80''), (''www:pm'', Some ''Dynamic''),
    (''www:pm.max_children'', Some ''5''), (''www:pm.min_spare_servers'', Some ''1''), (''www:pm.max_spare_servers'', Some ''3'')]"
  have "list_all plain_line pool_lines" "Option.bind (ini_join [] pool_lines) (ini_meaning [] []) = Some ?es"
    by code_simp+
  moreover have "length pool_lines < 10" by (simp add: pool_lines_def)
  ultimately obtain d msgs where d: "iniparser_load True all_alloc (Some (unlines pool_lines)) = Ok (Some d, msgs)"
    "dict_wf d" "dict_entries d = ?es" by (rule load_lines)
  note ot = option_text_entries [OF d(2), unfolded d(3)]
  have acc: "section_accepted d ''www''" unfolding section_accepted_def ot by code_simp
  have sec: "iniparser_getnsec (Some d) = 1" "iniparser_getsecname (Some d) 0 = Some ''www''"
    using iniparser_getnsec_names [OF d(2)] iniparser_getsecname_nth [OF d(2), of 0]
    by (simp_all add: section_names_def d(3))
  let ?conf = "\<lambda>p key. configured p (option_text d ''www'' key)"
  have texts: "?conf Parse_string ''listen'' (Some (Str_cell None)) = Some (Str_cell (Some ''127.0.0.1:80''))"
    "?conf Parse_integer ''process_priority'' (Some (Int_cell 64)) = Some (Int_cell 64)"
    "?conf Parse_pm ''pm'' (Some (Int_cell 0)) = Some (Int_cell 2)"
    "?conf Parse_integer ''pm.max_children'' (Some (Int_cell 0)) = Some (Int_cell 5)"
    "?conf Parse_integer ''pm.min_spare_servers'' (Some (Int_cell 0)) = Some (Int_cell 1)"
    "?conf Parse_integer ''pm.max_spare_servers'' (Some (Int_cell 0)) = Some (Int_cell 3)"
    "?conf Parse_integer ''pm.start_servers'' (Some (Int_cell 0)) = Some (Int_cell 0)"
    unfolding ot by code_simp+
  from parse_pool_section_effect [OF run_env_fields(2), of "''www''" st d] acc assms obtain wp c st' where
    r: "parse_pool_section run_env d ''www'' st = Ok (None, st')"
      "st_pools st' = [wp]" "wp_config wp = Some c" "wpc_name c = Some ''www''"
      "pmf_worker_pool_alloc True = Some (wp\<lparr>wp_config := None\<rparr>)" and
    at: "\<forall>(key, p, off) \<in> set pmf_ini_pool_option.
      pool_cell c off = ?conf p key (pool_cell new_pool_config off)"
    by auto
  have "pool_cell c (WPO P_listen_address) = Some (Str_cell (Some ''127.0.0.1:80''))"
    "pool_cell c (WPO P_process_priority) = Some (Int_cell 64)" "pool_cell c (WPO P_pm_type) = Some (Int_cell 2)"
    "pool_cell c (WPO P_pm_max_children) = Some (Int_cell 5)" "pool_cell c (WPO P_pm_min_spare_servers) = Some (Int_cell 1)"
    "pool_cell c (WPO P_pm_max_spare_servers) = Some (Int_cell 3)" "pool_cell c (WPO P_pm_start_servers) = Some (Int_cell 0)"
    using at texts by (simp_all add: pmf_ini_pool_option_def pool_cell_def new_pool_config_def)
  moreover have "pmf_conf_parse_pool_config run_env ''/etc/pmf.d'' st = Ok (0, st')"
    using d(1) sec r(1)
    by (simp add: pmf_conf_parse_pool_config_def run_env_fields snprintf_buf_def MAX_PATH_def
        pmf_conf_parse_pool_ini_def Let_def)
  ultimately show ?thesis using that [of st' wp c] r by (simp add: pool_cell_def)
qed

text \<open>
  C19: Reading the pool files, whatever they hold and whichever allocations fail, only appends
  pools: the pools there before, the global configuration, the log and the globals are untouched,
  the integers of the new pools are C integers, and no two pools get names that differ in case only.
\<close>

theorem pool_files_only_append:
  assumes "pmf_conf_parse_pool_config env include_dir st = Ok (r, st')"
    and "distinct (pool_names (st_pools st))"
  shows "\<exists>new. st' = st\<lparr>st_pools := st_pools st @ new, st_current := st_current st'\<rparr>
    \<and> list_all typed_pool new \<and> distinct (pool_names (st_pools st'))"
  using pool_config_grown [OF assms(1)] assms(2) by (elim pools_grownE) blast

theorem pool_files_only_append_witness:
  "\<exists>st. pmf_conf_parse_pool_config run_env ''/etc/pmf.d'' pmf_state_init = Ok (0, st)
     \<and> list_all typed_pool (st_pools st) \<and> pool_names (st_pools st) = [''www'']"
proof -
  have empty: "st_pools pmf_state_init = []" by (simp add: pmf_state_init_def)
  obtain wp c st where st: "pmf_conf_parse_pool_config run_env ''/etc/pmf.d'' pmf_state_init = Ok (0, st)"
    "st_pools st = [wp]" "wp_config wp = Some c" "wpc_name c = Some ''www''"
    using run_pool_files [OF empty] by metis
  from pool_files_only_append [OF st(1)] have "list_all typed_pool (st_pools st)"
    by (auto simp: empty) (metis append_Nil pmf_state.select_convs(4) pmf_state.surjective pmf_state.update_convs(4,5))
  moreover have "lowercase ''www'' = ''www''" by code_simp
  ultimately show ?thesis using st by (auto simp: pool_names_single pool_name_def)
qed

lemma conf_init_main_result:
  assumes "pmf_conf_init_main env pmf_state_init = Ok (r, msgs, st)" and "0 \<le> r"
  shows "r = 0 \<and> st_pools st \<noteq> []
    \<and> list_all (\<lambda>wp. valid_pool (pmf_event_support_edge_trigger (st_events st)) wp
         \<and> settle_pool wp = wp \<and> typed_pool wp) (st_pools st)
    \<and> distinct (pool_names (st_pools st))
    \<and> typed_global_config (st_config st) \<and> 0 \<le> gc_process_max (st_config st)
    \<and> valid_priority (gc_process_priority (st_config st)) \<and> st_events st \<noteq> None
    \<and> length msgs = 14 + 14 * length (st_pools st)"
proof -
  obtain st1 where st1: "pmf_conf_load_conf_file env pmf_state_init = Ok (r, st1)"
    and "\<exists>r2 st2. pmf_conf_proc_config env st1 = Ok (r2, st2) \<and> 0 \<le> r2
      \<and> (\<exists>r3 pools. pmf_conf_process_all_pools (pmf_event_support_edge_trigger (st_events st2)) (st_pools st2)
             = Ok (r3, pools) \<and> 0 \<le> r3 \<and> st = st2\<lparr>st_pools := pools\<rparr> \<and> pmf_conf_dump st = Ok msgs)"
    using assms by (auto simp: pmf_conf_init_main_def Let_def pmf_simps split: if_splits)
  then obtain r2 st2 r3 pools where
    st2: "pmf_conf_proc_config env st1 = Ok (r2, st2)" "0 \<le> r2" and
    pools: "pmf_conf_process_all_pools (pmf_event_support_edge_trigger (st_events st2)) (st_pools st2) = Ok (r3, pools)"
      "0 \<le> r3" and
    st: "st = st2\<lparr>st_pools := pools\<rparr>" "pmf_conf_dump st = Ok msgs" by blast
  have start: "typed_global_config (st_config pmf_state_init)" "st_pools pmf_state_init = []"
    by (simp_all add: pmf_state_init_def pmf_global_config_init_def typed_global_config_def int32_def PLOG_ALERT_def)
  have r: "r = 0" and "st_pools st1 = []" "typed_global_config (st_config st1)"
    using load_conf_file_state [OF st1 start(1)] start(2) assms(2) by auto
  note proc = proc_config_state [OF st2 this(2,3)]
  then have typed: "list_all typed_pool (st_pools st2)" by simp
  then have "list_all int_pool (st_pools st2)" by (auto simp: list_all_iff typed_int_pool)
  then have valid: "st_pools st2 \<noteq> []"
      "list_all (valid_pool (pmf_event_support_edge_trigger (st_events st2))) (st_pools st2)"
      "pools = map settle_pool (st_pools st2)"
    using pools process_pools_result [of "st_pools st2"]
    by (auto simp: pmf_conf_process_all_pools_def split: if_splits)
  have settled: "list_all (\<lambda>wp. valid_pool (pmf_event_support_edge_trigger (st_events st2)) wp
      \<and> settle_pool wp = wp \<and> typed_pool wp) pools"
    using valid(2) typed settle_pool_valid settle_pool_typed typed_int_pool
    unfolding valid(3) list_all_iff by (simp add: ball_simps) blast
  then have "length msgs = 14 + 14 * length pools"
    using conf_dump_length [OF st(2)] st(1) by (simp add: list_all_iff)
  then show ?thesis using r valid(1,3) settled proc st(1) by auto
qed


lemma run_conf_init:
  "\<exists>msgs st wp c. pmf_conf_init_main run_env pmf_state_init = Ok (0, msgs, st)
     \<and> st_pools st = [wp] \<and> wp_config wp = Some c \<and> wpc_pm_start_servers c = 2
     \<and> wp_scoreboard wp = None \<and> wp_domain wp = Some PMF_AF_INET \<and> wpc_name c = Some ''www''
     \<and> wpc_listen_address c = Some ''127.0.0.1:80'' \<and> wpc_pm_max_children c = 5
     \<and> st_events st = Some epoll_module"
proof -
  obtain g where g: "pmf_conf_load_conf_file run_env pmf_state_init = Ok (0, pmf_state_init\<lparr>st_config := g\<rparr>)"
    "gc_include_dir g = Some ''/etc/pmf.d''" "gc_log_level g = 5" "gc_error_log g = None"
    "gc_process_max g = 0" "gc_process_priority g = 64" "gc_event_mechanism g = None"
    "gc_daemonize g = 1"
    by (rule run_main_file)
  let ?st = "apply_log_level (pmf_state_init\<lparr>st_config := g\<rparr>)"
  have "st_pools ?st = []" by (simp add: pmf_state_init_def)
  then obtain wp c st1 where p: "pmf_conf_parse_pool_config run_env ''/etc/pmf.d'' ?st = Ok (0, st1)"
    "st_pools st1 = [wp]" "wp_config wp = Some c" "wpc_name c = Some ''www''"
    "wpc_listen_address c = Some ''127.0.0.1:80''" "wpc_process_priority c = 64" "wpc_pm_type c = 2"
    "wpc_pm_max_children c = 5" "wpc_pm_min_spare_servers c = 1" "wpc_pm_max_spare_servers c = 3"
    "wpc_pm_start_servers c = 0" "pmf_worker_pool_alloc True = Some (wp\<lparr>wp_config := None\<rparr>)"
    by (rule run_pool_files)
  have cfg: "st_config st1 = g"
    using pool_config_grown [OF p(1)] by (auto elim: pools_grownE)
  obtain st2 where fin: "finish_proc_config run_env st1 = (0, st2)" "st_pools st2 = [wp]"
    "gc_log_level (st_config st2) = 5" "st_events st2 = Some epoll_module"
    using p(2) g(3-8)
    by (auto simp: finish_proc_config_def cfg run_env_fields default_error_log_def
        pmf_stdio_open_error_log_def pmf_event_pre_init_def module_matches_def Let_def
        pmf_event_epoll_module_def split: prod.splits if_splits)
  have proc: "pmf_conf_proc_config run_env (pmf_state_init\<lparr>st_config := g\<rparr>) = Ok (0, st2)"
    using g(2) p(1) fin(1) by (simp add: pmf_conf_proc_config_def Let_def pmf_conf_is_dir_def run_env_fields)
  have "valid_pool e wp" "int_pool wp" for e
    using p by (auto simp: valid_pool_def valid_listen_def valid_priority_def valid_manager_def int_pool_def int32_def
        PM_STYLE_STATIC_def PM_STYLE_DYNAMIC_def PM_STYLE_ONDEMAND_def pmf_sockets_domain_from_address_def)
  then have pools: "pmf_conf_process_all_pools e [wp] = Ok (0, [settle_pool wp])" for e
    by (simp add: pmf_conf_process_all_pools_def process_pool_result)
  have "wp_scoreboard wp = None" using p(12) by (auto simp: pmf_worker_pool_alloc_def)
      (metis worker_pool.select_convs(15) worker_pool.surjective worker_pool.update_convs(1))
  then have "wp_config (settle_pool wp) = Some (settle_config c)" "wpc_pm_start_servers (settle_config c) = 2"
    "wp_scoreboard (settle_pool wp) = None" "wp_domain (settle_pool wp) = Some PMF_AF_INET"
    "wpc_name (settle_config c) = Some ''www''" "wpc_listen_address (settle_config c) = Some ''127.0.0.1:80''"
    "wpc_pm_max_children (settle_config c) = 5"
    using p by (simp_all add: settle_pool_def settle_config_def with_domain_def PM_STYLE_DYNAMIC_def
        pmf_sockets_domain_from_address_def)
  moreover obtain msgs where "pmf_conf_dump (st2\<lparr>st_pools := [settle_pool wp]\<rparr>) = Ok msgs"
    using fin(3) by (auto simp: pmf_conf_dump_def Let_def plog_get_level_name_def level_name_def PLOG_DEBUG_def PLOG_NOTICE_def PLOG_WARNING_def PLOG_ERROR_def PLOG_ALERT_def)
  ultimately show ?thesis
    using g(1) proc fin(2,4) pools by (simp add: pmf_conf_init_main_def)
qed


end
