(* ===== verification/Pmf_Conf_Text.thy ===== *)
theory Pmf_Conf_Text
  imports Pmf_Conf_Run
begin

text \<open>
  What the texts of the configuration files mean, from their lines to the structures: a reference
  semantics of a pool file, of the include directory and of the main file, and the proof that
  reading them computes it.
\<close>

subsection \<open>The pools a file describes\<close>

definition file_entries :: "string list \<Rightarrow> (string \<times> string option) list option" where
  "file_entries ls = Option.bind (ini_join [] ls) (ini_meaning [] [])"

definition sections_of :: "(string \<times> string option) list \<Rightarrow> string list" where
  "sections_of es = filter (\<lambda>k. CHR '':'' \<notin> set k) (map fst es)"

definition str_setting ::
  "(string \<times> string option) list \<Rightarrow> string \<Rightarrow> string \<Rightarrow> string option \<Rightarrow> string option" where
  "str_setting es sec key old =
     (case entry_text es sec key of None \<Rightarrow> old
      | Some v \<Rightarrow> pmf_conf_expand_pool_name (\<lambda>_. True) (Some v))"

definition int_setting ::
  "(string \<times> string option) list \<Rightarrow> string \<Rightarrow> string \<Rightarrow> int \<Rightarrow> int" where
  "int_setting es sec key old =
     (case entry_text es sec key of None \<Rightarrow> old | Some v \<Rightarrow> atoi v)"

definition pm_setting :: "(string \<times> string option) list \<Rightarrow> string \<Rightarrow> int" where
  "pm_setting es sec =
     (case entry_text es sec ''pm'' of None \<Rightarrow> 0
      | Some v \<Rightarrow> (case pm_type_of v of None \<Rightarrow> 0 | Some t \<Rightarrow> t))"

definition section_config :: "(string \<times> string option) list \<Rightarrow> string \<Rightarrow> wp_config" where
  "section_config es sec =
     \<lparr>wpc_name = Some sec,
      wpc_user = str_setting es sec ''user'' None,
      wpc_group = str_setting es sec ''group'' None,
      wpc_listen_address = str_setting es sec ''listen'' None,
      wpc_listen_owner = None, wpc_listen_group = None, wpc_listen_mode = None,
      wpc_listen_backlog = int_setting es sec ''listen_backlog'' PMF_BACKLOG_DEFAULT,
      wpc_process_priority = int_setting es sec ''process_priority'' 64,
      wpc_process_dumpable = int_setting es sec ''process.dumpable'' 0,
      wpc_pm_type = pm_setting es sec,
      wpc_pm_max_children = int_setting es sec ''pm.max_children'' 0,
      wpc_pm_start_servers = int_setting es sec ''pm.start_servers'' 0,
      wpc_pm_min_spare_servers = int_setting es sec ''pm.min_spare_servers'' 0,
      wpc_pm_max_spare_servers = int_setting es sec ''pm.max_spare_servers'' 0,
      wpc_pm_process_idle_timeout = int_setting es sec ''pm.process_idle_timeout'' 10,
      wpc_pm_max_requests = int_setting es sec ''pm.max_requests'' 0\<rparr>"

definition section_pool :: "(string \<times> string option) list \<Rightarrow> string \<Rightarrow> worker_pool" where
  "section_pool es sec = (the (pmf_worker_pool_alloc True))\<lparr>wp_config := Some (section_config es sec)\<rparr>"

text \<open>The texts a section may have: numbers where numbers are wanted, a process manager that exists.\<close>

definition good_section :: "(string \<times> string option) list \<Rightarrow> string \<Rightarrow> bool" where
  "good_section es sec \<longleftrightarrow>
     list_all (\<lambda>key. case entry_text es sec key of None \<Rightarrow> True | Some v \<Rightarrow> integer_text v)
       [''listen_backlog'', ''process_priority'', ''process.dumpable'', ''pm.max_children'',
        ''pm.start_servers'', ''pm.min_spare_servers'', ''pm.max_spare_servers'',
        ''pm.process_idle_timeout'', ''pm.max_requests'']
     \<and> (case entry_text es sec ''pm'' of None \<Rightarrow> True | Some v \<Rightarrow> pm_type_of v \<noteq> None)"

text \<open>The pools after the sections of one file, taken in the order given, and after the files.\<close>

fun add_sections ::
  "(string \<times> string option) list \<Rightarrow> string list \<Rightarrow> worker_pool list \<Rightarrow> worker_pool list option" where
  "add_sections es [] pools = Some pools"
| "add_sections es (s # ss) pools =
     (if s \<noteq> ''global'' \<and> \<not> list_ex (same_pool_name s) pools \<and> good_section es s
      then add_sections es ss (pools @ [section_pool es s]) else None)"

fun add_files :: "string list option list \<Rightarrow> worker_pool list \<Rightarrow> worker_pool list option" where
  "add_files [] pools = Some pools"
| "add_files (t # ts) pools =
     Option.bind (Option.bind t file_entries) (\<lambda>es.
       Option.bind (add_sections es (rev (sections_of es)) pools) (add_files ts))"

subsection \<open>A section\<close>

lemma pool_cell_inject:
  assumes "pool_cell c = pool_cell c'"
  shows "c = c'"
proof -
  have "pool_cell c (WPO f) = pool_cell c' (WPO f)" for f using assms by simp
  from this [of P_name] this [of P_user] this [of P_group] this [of P_listen_address]
    this [of P_listen_owner] this [of P_listen_group] this [of P_listen_mode]
    this [of P_listen_backlog] this [of P_process_priority] this [of P_process_dumpable]
    this [of P_pm_type] this [of P_pm_max_children] this [of P_pm_start_servers]
    this [of P_pm_min_spare_servers] this [of P_pm_max_spare_servers]
    this [of P_pm_process_idle_timeout] this [of P_pm_max_requests]
  show ?thesis by (cases c; cases c') (simp add: pool_cell_def)
qed

lemma accepted_texts:
  "accepted Parse_string v"
  "accepted Parse_integer v \<longleftrightarrow> (case v of None \<Rightarrow> True | Some s \<Rightarrow> integer_text s)"
  "accepted Parse_pm v \<longleftrightarrow> (case v of None \<Rightarrow> True | Some s \<Rightarrow> pm_type_of s \<noteq> None)"
  by (auto simp: accepted_def split: option.split)

lemma section_accepted_good:
  assumes "dict_wf ini"
  shows "section_accepted ini sec \<longleftrightarrow> good_section (dict_entries ini) sec"
  unfolding section_accepted_def good_section_def pmf_ini_pool_option_def option_text_entries [OF assms]
  by (simp add: accepted_texts conj_ac cong: option.case_cong)

lemma configured_settings:
  "configured Parse_string (entry_text es sec key) (Some (Str_cell s)) = Some (Str_cell (str_setting es sec key s))"
  "(case entry_text es sec key of None \<Rightarrow> True | Some v \<Rightarrow> integer_text v) \<Longrightarrow>
   configured Parse_integer (entry_text es sec key) (Some (Int_cell i)) = Some (Int_cell (int_setting es sec key i))"
  "(case entry_text es sec ''pm'' of None \<Rightarrow> True | Some v \<Rightarrow> pm_type_of v \<noteq> None) \<Longrightarrow>
   configured Parse_pm (entry_text es sec ''pm'') (Some (Int_cell 0)) = Some (Int_cell (pm_setting es sec))"
  by (auto simp: configured_def str_setting_def int_setting_def pm_setting_def split: option.splits)

lemma section_config_unique:
  assumes "good_section es sec" and "wpc_name c = Some sec"
    and at: "\<forall>(key, p, off) \<in> set pmf_ini_pool_option.
      pool_cell c off = configured p (entry_text es sec key) (pool_cell new_pool_config off)"
    and out: "\<forall>off. off \<noteq> WPO P_name \<and> off \<notin> (\<lambda>(key, p, off). off) ` set pmf_ini_pool_option \<longrightarrow>
      pool_cell c off = pool_cell new_pool_config off"
  shows "c = section_config es sec"
proof -
  have "pool_cell c (WPO f) = pool_cell (section_config es sec) (WPO f)" for f
    using assms(1,2) at out [rule_format, of "WPO P_listen_owner"] out [rule_format, of "WPO P_listen_group"]
      out [rule_format, of "WPO P_listen_mode"]
    by (cases f)
      (simp_all add: pmf_ini_pool_option_def pool_cell_def new_pool_config_def section_config_def
        configured_settings good_section_def)
  from this [of P_name] this [of P_user] this [of P_group] this [of P_listen_address]
    this [of P_listen_owner] this [of P_listen_group] this [of P_listen_mode]
    this [of P_listen_backlog] this [of P_process_priority] this [of P_process_dumpable]
    this [of P_pm_type] this [of P_pm_max_children] this [of P_pm_start_servers]
    this [of P_pm_min_spare_servers] this [of P_pm_max_spare_servers]
    this [of P_pm_process_idle_timeout] this [of P_pm_max_requests]
  show ?thesis by (intro pool_cell_inject) (simp add: pool_cell_def fun_eq_iff)
qed

lemma parse_section_text:
  assumes "dict_wf ini" and "all_allocated env"
  shows "\<exists>st'. if s \<noteq> ''global'' \<and> \<not> list_ex (same_pool_name s) (st_pools st) \<and> good_section (dict_entries ini) s
    then parse_pool_section env ini s st = Ok (None, st')
      \<and> st_pools st' = st_pools st @ [section_pool (dict_entries ini) s]
    else parse_pool_section env ini s st = Ok (Some (- 1), st')"
proof (cases "s = ''global'' \<or> list_ex (same_pool_name s) (st_pools st)")
  case True
  then show ?thesis by (auto simp: parse_pool_section_def)
next
  case False
  then obtain wp c st' where r: "parse_pool_section env ini s st
      = Ok (if section_accepted ini s then None else Some (- 1), st')"
    "st_pools st' = st_pools st @ [wp]" "wp_config wp = Some c"
    "pmf_worker_pool_alloc True = Some (wp\<lparr>wp_config := None\<rparr>)" and
    good: "section_accepted ini s \<Longrightarrow> wpc_name c = Some s
        \<and> (\<forall>(key, p, off) \<in> set pmf_ini_pool_option.
             pool_cell c off = configured p (option_text ini s key) (pool_cell new_pool_config off))
        \<and> (\<forall>off. off \<noteq> WPO P_name \<and> off \<notin> (\<lambda>(key, p, off). off) ` set pmf_ini_pool_option \<longrightarrow>
             pool_cell c off = pool_cell new_pool_config off)"
    using parse_pool_section_effect [OF assms(2), of s st ini] by blast
  have "wp = section_pool (dict_entries ini) s" if acc: "section_accepted ini s"
  proof -
    have "c = section_config (dict_entries ini) s"
      using good [OF acc] acc unfolding section_accepted_good [OF assms(1)] option_text_entries [OF assms(1)]
      by (intro section_config_unique) blast+
    then show ?thesis using r(3,4) by (cases wp) (simp add: section_pool_def)
  qed
  then show ?thesis using False r section_accepted_good [OF assms(1)] by auto
qed

subsection \<open>The files of the include directory\<close>

lemma sections_of_dict: "sections_of (dict_entries d) = section_names d"
  by (simp add: sections_of_def section_names_def)

lemma parse_sections_text:
  assumes "dict_wf ini" and "all_allocated env" and "n \<le> length (section_names ini)"
  shows "\<exists>st'. case add_sections (dict_entries ini) (rev (take n (section_names ini))) (st_pools st) of
      None \<Rightarrow> parse_pool_sections env ini n st = Ok (Some (- 1), st')
    | Some pools \<Rightarrow> parse_pool_sections env ini n st = Ok (None, st') \<and> st_pools st' = pools"
  using assms(3)
proof (induction n arbitrary: st)
  case (Suc n)
  let ?s = "section_names ini ! n"
  have name: "iniparser_getsecname (Some ini) (int n) = Some ?s"
    using Suc.prems by (simp add: iniparser_getsecname_nth [OF assms(1)] iniparser_getnsec_names [OF assms(1)])
  have names: "rev (take (Suc n) (section_names ini)) = ?s # rev (take n (section_names ini))"
    using Suc.prems by (simp add: take_Suc_conv_app_nth)
  obtain st1 where st1: "if ?s \<noteq> ''global'' \<and> \<not> list_ex (same_pool_name ?s) (st_pools st) \<and> good_section (dict_entries ini) ?s
    then parse_pool_section env ini ?s st = Ok (None, st1)
      \<and> st_pools st1 = st_pools st @ [section_pool (dict_entries ini) ?s]
    else parse_pool_section env ini ?s st = Ok (Some (- 1), st1)"
    using parse_section_text [OF assms(1,2), of ?s st] by blast
  show ?case
    using Suc.IH [of st1] Suc.prems st1 by (auto simp: name names split: if_splits option.splits)
qed simp

lemma parse_pool_ini_text:
  assumes "dict_wf ini" and "all_allocated env"
  shows "\<exists>st'. case add_sections (dict_entries ini) (rev (sections_of (dict_entries ini))) (st_pools st) of
      None \<Rightarrow> pmf_conf_parse_pool_ini env ini st = Ok (Some (- 1), st')
    | Some pools \<Rightarrow> pmf_conf_parse_pool_ini env ini st = Ok (None, st') \<and> st_pools st' = pools"
proof -
  have "pmf_conf_parse_pool_ini env ini st = parse_pool_sections env ini (length (section_names ini)) st"
    by (simp add: pmf_conf_parse_pool_ini_def Let_def iniparser_getnsec_names [OF assms(1)])
  then show ?thesis
    using parse_sections_text [OF assms order_refl, of st] by (simp add: sections_of_dict cong: option.case_cong)
qed

text \<open>
  An environment in which nothing fails: allocations succeed, \<open>stat\<close> answers 0 or -1, and the
  function without a return statement hands back no negative value.
\<close>

definition healthy :: "conf_env \<Rightarrow> bool" where
  "healthy env \<longleftrightarrow> all_allocated env \<and> ce_dict_new env \<and> ce_dict env = all_alloc
     \<and> (\<forall>p. ce_stat env p \<le> 0) \<and> (\<exists>k. ce_fallen env = Some k \<and> 0 \<le> k)"

definition text_file :: "conf_env \<Rightarrow> string \<Rightarrow> string list option \<Rightarrow> bool" where
  "text_file env path t \<longleftrightarrow> ce_file env path = map_option unlines t
     \<and> (\<forall>ls. t = Some ls \<longrightarrow> list_all plain_line ls \<and> length ls < 2147483646)"

definition hidden :: "string \<Rightarrow> bool" where
  "hidden d_name \<longleftrightarrow> d_name \<noteq> [] \<and> hd d_name = CHR ''.''"

definition dir_path :: "string \<Rightarrow> string \<Rightarrow> string" where
  "dir_path include_dir d_name = snprintf_buf MAX_PATH (include_dir @ ''/'' @ d_name)"

lemma load_text_file:
  assumes "healthy env" and "text_file env path t"
  shows "\<exists>msgs. case Option.bind t file_entries of
      None \<Rightarrow> iniparser_load (ce_dict_new env) (ce_dict env) (ce_file env path) = Ok (None, msgs)
    | Some es \<Rightarrow> \<exists>d. iniparser_load (ce_dict_new env) (ce_dict env) (ce_file env path) = Ok (Some d, msgs)
        \<and> dict_wf d \<and> dict_entries d = es"
proof (cases t)
  case None
  then show ?thesis using assms by (simp add: text_file_def iniparser_load_def)
next
  case (Some ls)
  then have "\<forall>l \<in> set ls. plain_line l" "length ls < 2147483646" "ce_file env path = Some (unlines ls)"
    "ce_dict_new env" "ce_dict env = all_alloc"
    using assms by (simp_all add: text_file_def healthy_def list_all_iff)
  then show ?thesis
    using iniparser_load_lines [of ls] Some by (auto simp: file_entries_def split: option.splits)
qed

lemma parse_files_text:
  assumes "healthy env"
    and "list_all2 (\<lambda>d_name. text_file env (dir_path include_dir d_name)) (filter (\<lambda>n. \<not> hidden n) names) texts"
  shows "\<exists>st'. case add_files texts (st_pools st) of
      None \<Rightarrow> parse_pool_files env include_dir names st = Ok (- 1, st')
    | Some pools \<Rightarrow> parse_pool_files env include_dir names st = Ok (0, st') \<and> st_pools st' = pools"
  using assms(2)
proof (induction names arbitrary: texts st)
  case (Cons d_name names)
  show ?case
  proof (cases "hidden d_name")
    case True
    then have "parse_pool_files env include_dir (d_name # names) st = parse_pool_files env include_dir names st"
      by (simp add: hidden_def)
    then show ?thesis using Cons.IH [of texts st] Cons.prems True by (simp cong: option.case_cong)
  next
    case False
    then obtain t ts where texts: "texts = t # ts" "text_file env (dir_path include_dir d_name) t"
      "list_all2 (\<lambda>d_name. text_file env (dir_path include_dir d_name)) (filter (\<lambda>n. \<not> hidden n) names) ts"
      using Cons.prems by (auto simp: list_all2_Cons1)
    let ?load = "iniparser_load (ce_dict_new env) (ce_dict env) (ce_file env (dir_path include_dir d_name))"
    have stat: "\<not> 0 < ce_stat env (Some p)" for p using assms(1) by (simp add: healthy_def not_less)
    obtain k where k: "ce_fallen env = Some k" "0 \<le> k" using assms(1) by (auto simp: healthy_def)
    have step: "parse_pool_files env include_dir (d_name # names) st =
        obind ?load (\<lambda>(ini, msgs). case ini of None \<Rightarrow> Ok (- 1, st)
          | Some ini \<Rightarrow> obind (pmf_conf_parse_pool_ini env ini st) (\<lambda>(ret, st).
              if ret \<noteq> None \<and> 0 > the ret then Ok (- 1, st) else parse_pool_files env include_dir names st))"
      using False stat k
      by (auto simp: hidden_def dir_path_def Let_def intro!: obind_cong split: option.split)
    obtain msgs where load: "case Option.bind t file_entries of None \<Rightarrow> ?load = Ok (None, msgs)
      | Some es \<Rightarrow> \<exists>d. ?load = Ok (Some d, msgs) \<and> dict_wf d \<and> dict_entries d = es"
      using load_text_file [OF assms(1) texts(2)] by blast
    show ?thesis
    proof (cases "Option.bind t file_entries")
      case None
      then show ?thesis using load texts(1) by (simp add: step del: parse_pool_files.simps)
    next
      case (Some es)
      then obtain d where d: "?load = Ok (Some d, msgs)" "dict_wf d" "dict_entries d = es" using load by auto
      have alloc: "all_allocated env" using assms(1) by (simp add: healthy_def)
      obtain st1 where st1: "case add_sections es (rev (sections_of es)) (st_pools st) of
          None \<Rightarrow> pmf_conf_parse_pool_ini env d st = Ok (Some (- 1), st1)
        | Some pools \<Rightarrow> pmf_conf_parse_pool_ini env d st = Ok (None, st1) \<and> st_pools st1 = pools"
        using parse_pool_ini_text [OF d(2) alloc, of st] d(3) by blast
      show ?thesis
        using st1 Cons.IH [OF texts(3), of st1] Some d(1) texts(1)
        by (auto simp: step simp del: parse_pool_files.simps split: option.splits)
    qed
  qed
qed simp

lemma directory_text:
  assumes "healthy env" and "ce_opendir env include_dir = Some names"
    and "list_all2 (\<lambda>d_name. text_file env (dir_path include_dir d_name)) (filter (\<lambda>n. \<not> hidden n) names) texts"
  shows "\<exists>st'. pmf_conf_parse_pool_config env include_dir st
      = Ok (if add_files texts (st_pools st) = None then - 1 else 0, st')
    \<and> (\<forall>pools. add_files texts (st_pools st) = Some pools \<longrightarrow>
         st' = st\<lparr>st_pools := pools, st_current := st_current st'\<rparr>)"
proof -
  have eq: "pmf_conf_parse_pool_config env include_dir st = parse_pool_files env include_dir names st"
    using assms(2) by (simp add: pmf_conf_parse_pool_config_def)
  obtain st' where st': "case add_files texts (st_pools st) of
      None \<Rightarrow> parse_pool_files env include_dir names st = Ok (- 1, st')
    | Some pools \<Rightarrow> parse_pool_files env include_dir names st = Ok (0, st') \<and> st_pools st' = pools"
    using parse_files_text [OF assms(1,3), of st] by blast
  then have run: "pmf_conf_parse_pool_config env include_dir st
      = Ok (if add_files texts (st_pools st) = None then - 1 else 0, st')"
    by (auto simp: eq split: option.splits)
  moreover have "st' = st\<lparr>st_pools := pools, st_current := st_current st'\<rparr>"
    if "add_files texts (st_pools st) = Some pools" for pools
  proof -
    obtain new where "st' = st\<lparr>st_pools := st_pools st @ new, st_current := st_current st'\<rparr>"
      "st_pools st' = st_pools st @ new"
      using pool_config_grown [OF run] by (rule pools_grownE)
    then show ?thesis using st' that by auto
  qed
  ultimately show ?thesis by blast
qed


definition web_lines :: "string list" where
  "web_lines = [''[www]'', ''pm.max_children = 4'', ''[API]'', ''user=$pool'', ''listen = /a ; local'']"

definition mail_lines :: "string list" where
  "mail_lines = [''# third'', ''[mail]'', ''listen = 25'', ''listen_backlog = 7'']"

definition dir_env :: conf_env where
  "dir_env = run_env\<lparr>
     ce_opendir := (\<lambda>p. if p = ''/etc/pmf.d'' then Some [''.'', ''web'', ''..'', ''mail''] else None),
     ce_file := (\<lambda>p. if p = PMF_CONF_FILE then Some (unlines main_lines)
        else if p = ''/etc/pmf.d/web'' then Some (unlines web_lines)
        else if p = ''/etc/pmf.d/mail'' then Some (unlines mail_lines) else None)\<rparr>"

lemma dir_env_healthy: "healthy dir_env"
  by (simp add: healthy_def dir_env_def run_env_def sample_conf_env_def all_allocated_def)

lemma dir_env_texts:
  "ce_opendir dir_env ''/etc/pmf.d'' = Some [''.'', ''web'', ''..'', ''mail'']"
  "list_all2 (\<lambda>d_name. text_file dir_env (dir_path ''/etc/pmf.d'' d_name))
     (filter (\<lambda>n. \<not> hidden n) [''.'', ''web'', ''..'', ''mail'']) [Some web_lines, Some mail_lines]"
proof -
  have "list_all plain_line web_lines" "list_all plain_line mail_lines" by code_simp+
  then show "list_all2 (\<lambda>d_name. text_file dir_env (dir_path ''/etc/pmf.d'' d_name))
     (filter (\<lambda>n. \<not> hidden n) [''.'', ''web'', ''..'', ''mail'']) [Some web_lines, Some mail_lines]"
    by (simp add: hidden_def text_file_def dir_path_def snprintf_buf_def MAX_PATH_def dir_env_def
        PMF_CONF_FILE_def) (simp add: web_lines_def mail_lines_def)
qed (simp add: dir_env_def)

definition web_entries :: "(string \<times> string option) list" where
  "web_entries = [(''www'', None), (''www:pm.max_children'', Some ''4''), (''api'', None),
     (''api:user'', Some ''$pool''), (''api:listen'', Some ''/a'')]"

definition mail_entries :: "(string \<times> string option) list" where
  "mail_entries = [(''mail'', None), (''mail:listen'', Some ''25''), (''mail:listen_backlog'', Some ''7'')]"

lemma dir_env_entries:
  "file_entries web_lines = Some web_entries" "file_entries mail_lines = Some mail_entries"
  by code_simp+

lemma dir_env_good: "good_section web_entries ''www''" "good_section web_entries ''api''" "good_section mail_entries ''mail''"
  by code_simp+

lemma same_pool_name_section [simp]: "same_pool_name s (section_pool es t) \<longleftrightarrow> strcasecmp_eq t s"
  by (simp add: same_pool_name_def section_pool_def section_config_def)

lemma dir_env_pools: "add_files [Some web_lines, Some mail_lines] [] =
   Some [section_pool web_entries ''api'', section_pool web_entries ''www'', section_pool mail_entries ''mail'']"
proof -
  have "rev (sections_of web_entries) = [''api'', ''www'']" "rev (sections_of mail_entries) = [''mail'']"
    "\<not> strcasecmp_eq ''api'' ''www''" "\<not> strcasecmp_eq ''api'' ''mail''" "\<not> strcasecmp_eq ''www'' ''mail''"
    by code_simp+
  then show ?thesis by (simp add: dir_env_entries dir_env_good)
qed

lemma dir_env_settings:
  "str_setting web_entries ''api'' ''user'' None = Some ''pool''"
  "str_setting web_entries ''api'' ''listen'' None = Some ''/a''"
  "int_setting web_entries ''www'' ''pm.max_children'' 0 = 4"
  "int_setting mail_entries ''mail'' ''listen_backlog'' PMF_BACKLOG_DEFAULT = 7"
  by code_simp+


end
