(* ===== verification/Pmf_Conf_Meaning.thy ===== *)
theory Pmf_Conf_Meaning
  imports Pmf_Conf_Text
begin

text \<open>
  The reference semantics of the whole configuration, from the lines of all files to the
  structures, and the proof that \<open>pmf_conf_init_main\<close> computes it.
\<close>

subsection \<open>The main file\<close>

definition value_setting :: "value_parser \<Rightarrow> (string \<times> string option) list \<Rightarrow> string \<Rightarrow> int \<Rightarrow> int" where
  "value_setting p es key old =
     (case entry_text es ''global'' key of None \<Rightarrow> old
      | Some v \<Rightarrow> (case parse_value p v of Ok (Inr (Int_cell i)) \<Rightarrow> i | _ \<Rightarrow> old))"

definition global_config_of :: "(string \<times> string option) list \<Rightarrow> pmf_global_config" where
  "global_config_of es =
     \<lparr>gc_pid_file = str_setting es ''global'' ''pid_file'' None,
      gc_include_dir = str_setting es ''global'' ''include_dir'' None,
      gc_error_log = str_setting es ''global'' ''error_log'' None,
      gc_log_level = value_setting Parse_log_level es ''log_level'' PLOG_ALERT,
      gc_emergency_restart_threshold = value_setting Parse_integer es ''emergency_restart_threshold'' 0,
      gc_emergency_restart_interval = value_setting Parse_time es ''emergency_restart_interval'' 0,
      gc_process_control_timeout = value_setting Parse_time es ''process_control_timeout'' 0,
      gc_process_max = value_setting Parse_integer es ''process.max'' 0,
      gc_process_priority = value_setting Parse_integer es ''process.priority'' 64,
      gc_daemonize = value_setting Parse_boolean es ''daemonize'' 0,
      gc_rlimit_files = value_setting Parse_integer es ''rlimit_files'' 0,
      gc_rlimit_core = value_setting Parse_rlimit_core es ''rlimit_core'' 0,
      gc_event_mechanism = str_setting es ''global'' ''events.mechanism'' None\<rparr>"

definition good_global :: "(string \<times> string option) list \<Rightarrow> bool" where
  "good_global es = list_all (\<lambda>(key, p, off). accepted p (entry_text es ''global'' key)) pmf_ini_global_option"

lemma global_accepted_good: "dict_wf ini \<Longrightarrow> global_accepted ini \<longleftrightarrow> good_global (dict_entries ini)"
  by (simp add: global_accepted_def good_global_def option_text_entries)

lemma global_cell_inject:
  assumes "\<And>f. global_cell g (GO f) = global_cell g' (GO f)"
  shows "g = g'"
  using assms [of G_pid_file] assms [of G_include_dir] assms [of G_error_log] assms [of G_log_level]
    assms [of G_emergency_restart_threshold] assms [of G_emergency_restart_interval]
    assms [of G_process_control_timeout] assms [of G_process_max] assms [of G_process_priority]
    assms [of G_daemonize] assms [of G_rlimit_files] assms [of G_rlimit_core] assms [of G_event_mechanism]
  by (cases g; cases g') (simp add: global_cell_def)

lemma configured_value:
  assumes "accepted p (entry_text es ''global'' key)" and "p \<noteq> Parse_string"
  shows "configured p (entry_text es ''global'' key) (Some (Int_cell i)) = Some (Int_cell (value_setting p es key i))"
proof (cases "entry_text es ''global'' key")
  case (Some v)
  then obtain x where x: "parse_value p v = Ok (Inr x)" using assms(1) by (auto simp: accepted_iff)
  then have "\<nexists>s. x = Str_cell s" using parse_value_cell assms(2) by (simp add: writes_string_def)
  then obtain j where "x = Int_cell j" by (cases x) auto
  then show ?thesis using x Some by (simp add: configured_def value_setting_def)
qed (simp add: configured_def value_setting_def)

lemma global_config_unique:
  assumes "good_global es"
    and at: "\<forall>(key, p, off) \<in> set pmf_ini_global_option. global_cell g off
      = configured p (entry_text es ''global'' key) (global_cell pmf_global_config_init off)"
  shows "g = global_config_of es"
proof (rule global_cell_inject)
  fix f
  show "global_cell g (GO f) = global_cell (global_config_of es) (GO f)"
    using assms(1) at
    by (cases f) (simp_all add: pmf_ini_global_option_def good_global_def global_cell_def
        pmf_global_config_init_def global_config_of_def configured_settings configured_value)
qed

lemma init_config: "st_config pmf_state_init = pmf_global_config_init"
  by (simp add: pmf_state_init_def)

lemma main_file_text:
  assumes "healthy env" and "text_file env PMF_CONF_FILE main"
    and "\<And>es. Option.bind main file_entries = Some es \<Longrightarrow> set (sections_of es) \<subseteq> {''global''}"
  shows "case Option.bind main file_entries of
      None \<Rightarrow> \<exists>st. pmf_conf_load_conf_file env pmf_state_init = Ok (- 1, st)
    | Some es \<Rightarrow>
        if good_global es
        then pmf_conf_load_conf_file env pmf_state_init = Ok (0, pmf_state_init\<lparr>st_config := global_config_of es\<rparr>)
        else (\<exists>st. pmf_conf_load_conf_file env pmf_state_init = Ok (- 1, st))
          \<or> pmf_conf_load_conf_file env pmf_state_init = Undef SignedOverflow"
proof -
  obtain msgs where load: "case Option.bind main file_entries of
      None \<Rightarrow> iniparser_load (ce_dict_new env) (ce_dict env) (ce_file env PMF_CONF_FILE) = Ok (None, msgs)
    | Some es \<Rightarrow> \<exists>d. iniparser_load (ce_dict_new env) (ce_dict env) (ce_file env PMF_CONF_FILE) = Ok (Some d, msgs)
        \<and> dict_wf d \<and> dict_entries d = es"
    using load_text_file [OF assms(1,2)] by blast
  show ?thesis
  proof (cases "Option.bind main file_entries")
    case None
    then show ?thesis using load by (simp add: pmf_conf_load_conf_file_def)
  next
    case (Some es)
    then obtain d where d: "iniparser_load (ce_dict_new env) (ce_dict env) (ce_file env PMF_CONF_FILE) = Ok (Some d, msgs)"
      "dict_wf d" "dict_entries d = es" using load by auto
    have dup: "ce_dup env = (\<lambda>_. True)" using assms(1) by (simp add: healthy_def all_allocated_def)
    have sec: "set (section_names d) \<subseteq> {''global''}"
      using assms(3) [OF Some] d(3) sections_of_dict [of d] by simp
    have eff: "case pmf_conf_parse_global_ini env d pmf_state_init of
      Ok (r, st') \<Rightarrow> r = (if good_global es then 0 else - 1)
        \<and> st' = pmf_state_init\<lparr>st_config := st_config st'\<rparr>
        \<and> (r = 0 \<longrightarrow> (\<forall>(key, p, off) \<in> set pmf_ini_global_option. global_cell (st_config st') off
              = configured p (entry_text es ''global'' key) (global_cell pmf_global_config_init off)))
    | Fail e \<Rightarrow> False
    | Undef u \<Rightarrow> u = SignedOverflow \<and> \<not> good_global es"
      using parse_global_ini_effect [OF d(2) dup sec, of pmf_state_init]
      unfolding option_text_entries [OF d(2)] global_accepted_good [OF d(2)] d(3) init_config .
    have init: "pmf_conf_load_conf_file env pmf_state_init = obind (pmf_conf_parse_global_ini env d pmf_state_init)
        (\<lambda>(r, st). if 0 > r then Ok (- 1, st) else Ok (0, st))"
      using d(1) by (simp add: pmf_conf_load_conf_file_def)
    show ?thesis
    proof (cases "good_global es")
      case True
      then obtain st' where st': "pmf_conf_parse_global_ini env d pmf_state_init = Ok (0, st')"
        "st' = pmf_state_init\<lparr>st_config := st_config st'\<rparr>" "st_config st' = global_config_of es"
        using eff global_config_unique [OF True] by (auto split: outcome.splits)
      then show ?thesis using Some True by (simp add: init)
    next
      case False
      then show ?thesis using eff Some by (auto simp: init split: outcome.splits)
    qed
  qed
qed

subsection \<open>The whole configuration\<close>

definition limits_ok :: "pmf_global_config \<Rightarrow> bool" where
  "limits_ok g \<longleftrightarrow> 0 \<le> gc_process_max g \<and> valid_priority (gc_process_priority g)
     \<and> fst (pmf_event_pre_init (gc_event_mechanism g)) = 0"

definition chosen_events :: "pmf_global_config \<Rightarrow> event_module option" where
  "chosen_events g = snd (pmf_event_pre_init (gc_event_mechanism g))"

definition with_error_log :: "pmf_global_config \<Rightarrow> pmf_global_config" where
  "with_error_log g =
     (if gc_error_log g = None then g\<lparr>gc_error_log := Some PMF_ERROR_LOG_FILE_DEFAULT\<rparr> else g)"

text \<open>
  The texts of the files of the include directory. Without one, or when the path is not a
  directory, there are none.
\<close>

definition included :: "conf_env \<Rightarrow> string option \<Rightarrow> string list option list \<Rightarrow> bool" where
  "included env d texts \<longleftrightarrow>
     (case d of None \<Rightarrow> texts = []
      | Some dir \<Rightarrow>
          if pmf_conf_is_dir env dir
          then \<exists>names. ce_opendir env dir = Some names
            \<and> list_all2 (\<lambda>n. text_file env (dir_path dir n)) (filter (\<lambda>n. \<not> hidden n) names) texts
          else texts = [])"

text \<open>
  The meaning of a configuration: the global structure and the pools, or nothing when it is
  to be refused.
\<close>

definition conf_meaning ::
  "string list option \<Rightarrow> string list option list \<Rightarrow> (pmf_global_config \<times> worker_pool list) option" where
  "conf_meaning main texts =
     Option.bind (Option.bind main file_entries) (\<lambda>es.
     Option.bind (add_files texts []) (\<lambda>pools.
       let g = global_config_of es; edge = pmf_event_support_edge_trigger (chosen_events g) in
       if good_global es \<and> limits_ok g \<and> pools \<noteq> [] \<and> list_all (valid_pool edge) pools
       then Some (with_error_log g, map settle_pool pools) else None))"

lemma pre_init_result: "fst (pmf_event_pre_init m) = 0 \<or> fst (pmf_event_pre_init m) = - 1"
  by (simp add: pmf_event_pre_init_def)

lemma finish_result:
  assumes "0 \<le> ce_open_log env" and "ce_dup env = (\<lambda>_. True)"
  shows "\<exists>st'. finish_proc_config env st = (if limits_ok (st_config st) then 0 else - 1, st')
    \<and> (limits_ok (st_config st) \<longrightarrow> st_pools st' = st_pools st \<and> st_config st' = with_error_log (st_config st)
         \<and> st_events st' = chosen_events (st_config st))"
proof -
  have "default_error_log env g = with_error_log g" for g
    by (simp add: default_error_log_def with_error_log_def assms(2))
  moreover have "gc_event_mechanism (with_error_log g) = gc_event_mechanism g" for g
    by (simp add: with_error_log_def)
  ultimately show ?thesis
    using assms(1) pre_init_result [of "gc_event_mechanism (st_config st)"]
    by (auto simp: finish_proc_config_def Let_def pmf_stdio_open_error_log_def limits_ok_def
        valid_priority_def chosen_events_def split: prod.split)
qed

lemma included_pools:
  assumes "healthy env" and "included env (gc_include_dir (st_config st)) texts"
    and "st_pools st = []"
  shows "\<exists>st1. (case gc_include_dir (st_config st) of None \<Rightarrow> Ok (0, apply_log_level st)
      | Some dir \<Rightarrow> if pmf_conf_is_dir env dir then pmf_conf_parse_pool_config env dir (apply_log_level st)
                    else Ok (0, apply_log_level st))
        = Ok (if add_files texts [] = None then - 1 else 0, st1)
    \<and> (\<forall>pools. add_files texts [] = Some pools \<longrightarrow> st_pools st1 = pools \<and> st_config st1 = st_config st)"
proof (cases "\<exists>dir. gc_include_dir (st_config st) = Some dir \<and> pmf_conf_is_dir env dir")
  case False
  then have "texts = []" using assms(2) by (auto simp: included_def split: option.splits)
  with False show ?thesis using assms(3) by (auto split: option.split)
next
  case True
  then obtain dir names where dir: "gc_include_dir (st_config st) = Some dir" "pmf_conf_is_dir env dir"
    "ce_opendir env dir = Some names"
    "list_all2 (\<lambda>n. text_file env (dir_path dir n)) (filter (\<lambda>n. \<not> hidden n) names) texts"
    using assms(2) by (auto simp: included_def)
  obtain st1 where st1: "pmf_conf_parse_pool_config env dir (apply_log_level st)
      = Ok (if add_files texts [] = None then - 1 else 0, st1)"
    "\<forall>pools. add_files texts [] = Some pools \<longrightarrow>
       st1 = (apply_log_level st)\<lparr>st_pools := pools, st_current := st_current st1\<rparr>"
    using directory_text [OF assms(1) dir(3,4), of "apply_log_level st"] assms(3) by auto
  have "st_pools st1 = pools \<and> st_config st1 = st_config st" if "add_files texts [] = Some pools" for pools
  proof -
    have eq: "st1 = (apply_log_level st)\<lparr>st_pools := pools, st_current := st_current st1\<rparr>"
      using st1(2) that by blast
    show ?thesis by (subst eq, subst (2) eq) simp
  qed
  with st1(1) dir(1,2) show ?thesis by auto
qed

lemma proc_config_text:
  assumes "healthy env" and "included env (gc_include_dir (st_config st)) texts"
    and "st_pools st = []" and "0 \<le> ce_open_log env"
  shows "\<exists>st'. case add_files texts [] of
      None \<Rightarrow> pmf_conf_proc_config env st = Ok (- 1, st')
    | Some pools \<Rightarrow>
        if limits_ok (st_config st)
        then pmf_conf_proc_config env st = Ok (0, st') \<and> st_pools st' = pools
          \<and> st_config st' = with_error_log (st_config st) \<and> st_events st' = chosen_events (st_config st)
        else pmf_conf_proc_config env st = Ok (- 1, st')"
proof -
  obtain st1 where st1: "(case gc_include_dir (st_config st) of None \<Rightarrow> Ok (0, apply_log_level st)
      | Some dir \<Rightarrow> if pmf_conf_is_dir env dir then pmf_conf_parse_pool_config env dir (apply_log_level st)
                    else Ok (0, apply_log_level st))
        = Ok (if add_files texts [] = None then - 1 else 0, st1)"
    "\<forall>pools. add_files texts [] = Some pools \<longrightarrow> st_pools st1 = pools \<and> st_config st1 = st_config st"
    using included_pools [OF assms(1-3)] by blast
  have run: "pmf_conf_proc_config env st = Ok (if add_files texts [] = None then (- 1, st1) else finish_proc_config env st1)"
    using st1(1) by (simp add: pmf_conf_proc_config_def Let_def)
  show ?thesis
  proof (cases "add_files texts []")
    case None
    then show ?thesis by (simp add: run)
  next
    case (Some pools)
    then have st1: "st_pools st1 = pools" "st_config st1 = st_config st" using st1(2) by simp_all
    have "ce_dup env = (\<lambda>_. True)" using assms(1) by (simp add: healthy_def all_allocated_def)
    from finish_result [OF assms(4) this, of st1] show ?thesis using Some st1 by (auto simp: run)
  qed
qed

lemma log_level_range: "PLOG_DEBUG \<le> gc_log_level (global_config_of es) \<and> gc_log_level (global_config_of es) \<le> PLOG_ALERT"
  by (auto simp: global_config_of_def value_setting_def log_level_of_def PLOG_DEBUG_def PLOG_NOTICE_def
      PLOG_WARNING_def PLOG_ERROR_def PLOG_ALERT_def split: option.split)

lemma level_name_some:
  assumes "PLOG_DEBUG \<le> l" and "l \<le> PLOG_ALERT"
  shows "\<exists>nm. plog_get_level_name lg l = Ok (Some nm)"
proof -
  have "l \<in> {1, 2, 3, 4, 5}" using assms by (auto simp: PLOG_DEBUG_def PLOG_ALERT_def)
  then show ?thesis
    by (auto simp: plog_get_level_name_def level_name_def PLOG_DEBUG_def PLOG_NOTICE_def PLOG_WARNING_def
        PLOG_ERROR_def PLOG_ALERT_def)
qed

lemma dump_succeeds:
  assumes "gc_log_level (st_config st) = gc_log_level (global_config_of es)"
  shows "\<exists>msgs. pmf_conf_dump st = Ok msgs"
proof -
  obtain nm where "plog_get_level_name (st_log st) (gc_log_level (st_config st)) = Ok (Some nm)"
    using level_name_some log_level_range unfolding assms by blast
  then show ?thesis by (simp add: pmf_conf_dump_def Let_def)
qed

lemma conf_init_accepted:
  assumes "healthy env" and "0 \<le> ce_open_log env"
    and load: "pmf_conf_load_conf_file env pmf_state_init = Ok (0, pmf_state_init\<lparr>st_config := global_config_of es\<rparr>)"
    and "included env (gc_include_dir (global_config_of es)) texts"
    and es: "Option.bind main file_entries = Some es" "good_global es"
  shows "\<exists>r msgs st. pmf_conf_init_main env pmf_state_init = Ok (r, msgs, st)
    \<and> (case conf_meaning main texts of None \<Rightarrow> r = - 1
       | Some (g, pools) \<Rightarrow> r = 0 \<and> st_config st = g \<and> st_pools st = pools)"
proof -
  let ?g = "global_config_of es" and ?st1 = "pmf_state_init\<lparr>st_config := global_config_of es\<rparr>"
  have none: "st_pools ?st1 = []" and cfg: "st_config ?st1 = ?g" by (simp_all add: pmf_state_init_def)
  have inc: "included env (gc_include_dir (st_config ?st1)) texts" using assms(4) by simp
  obtain st2 where st2: "case add_files texts [] of
      None \<Rightarrow> pmf_conf_proc_config env ?st1 = Ok (- 1, st2)
    | Some pools \<Rightarrow>
        if limits_ok ?g
        then pmf_conf_proc_config env ?st1 = Ok (0, st2) \<and> st_pools st2 = pools
          \<and> st_config st2 = with_error_log ?g \<and> st_events st2 = chosen_events ?g
        else pmf_conf_proc_config env ?st1 = Ok (- 1, st2)"
    using proc_config_text [OF assms(1) inc none assms(2)] unfolding cfg by blast
  show ?thesis
  proof (cases "add_files texts [] = None \<or> \<not> limits_ok ?g")
    case True
    then have "pmf_conf_proc_config env ?st1 = Ok (- 1, st2)" using st2 by (auto split: option.splits)
    moreover have "conf_meaning main texts = None"
      using True es by (auto simp: conf_meaning_def Let_def bind_eq_None_conv)
    ultimately show ?thesis using load by (simp add: pmf_conf_init_main_def)
  next
    case False
    then obtain pools where pools: "add_files texts [] = Some pools" "limits_ok ?g" by auto
    then have proc: "pmf_conf_proc_config env ?st1 = Ok (0, st2)" "st_pools st2 = pools"
      "st_config st2 = with_error_log ?g" "st_events st2 = chosen_events ?g" using st2 by simp_all
    have "typed_global_config (st_config ?st1)"
    proof -
      have "typed_global_config (st_config pmf_state_init)"
        by (simp add: init_config pmf_global_config_init_def typed_global_config_def int32_def PLOG_ALERT_def)
      from load_conf_file_state [OF load this] show ?thesis
        by (metis pmf_state.select_convs(1) pmf_state.surjective pmf_state.update_convs(1))
    qed
    then have "list_all typed_pool pools"
      using proc_config_state [OF proc(1) order_refl none] proc(2) by simp
    then have "list_all int_pool pools" by (auto simp: list_all_iff typed_int_pool)
    note chk = process_pools_result [OF this, of "pmf_event_support_edge_trigger (chosen_events ?g)"]
    have meaning: "conf_meaning main texts =
      (if pools \<noteq> [] \<and> list_all (valid_pool (pmf_event_support_edge_trigger (chosen_events ?g))) pools
       then Some (with_error_log ?g, map settle_pool pools) else None)"
      using pools es by (simp add: conf_meaning_def Let_def)
    have "gc_log_level (with_error_log ?g) = gc_log_level ?g" by (simp add: with_error_log_def)
    then obtain msgs where "pmf_conf_dump (st2\<lparr>st_pools := map settle_pool pools\<rparr>) = Ok msgs"
      using dump_succeeds [of "st2\<lparr>st_pools := map settle_pool pools\<rparr>" es] proc(3) by auto
    then show ?thesis
      using load proc chk meaning by (simp add: pmf_conf_init_main_def pmf_conf_process_all_pools_def Let_def)
  qed
qed

lemma conf_init_text:
  assumes "healthy env" and "0 \<le> ce_open_log env" and "text_file env PMF_CONF_FILE main"
    and "\<And>es. Option.bind main file_entries = Some es \<Longrightarrow> set (sections_of es) \<subseteq> {''global''}
      \<and> included env (gc_include_dir (global_config_of es)) texts"
  shows "(\<exists>r msgs st. pmf_conf_init_main env pmf_state_init = Ok (r, msgs, st)
      \<and> (case conf_meaning main texts of None \<Rightarrow> r = - 1
         | Some (g, pools) \<Rightarrow> r = 0 \<and> st_config st = g \<and> st_pools st = pools))
    \<or> (pmf_conf_init_main env pmf_state_init = Undef SignedOverflow
      \<and> (\<exists>es. Option.bind main file_entries = Some es \<and> \<not> good_global es))"
proof -
  have load: "case Option.bind main file_entries of
      None \<Rightarrow> \<exists>st. pmf_conf_load_conf_file env pmf_state_init = Ok (- 1, st)
    | Some es \<Rightarrow>
        if good_global es
        then pmf_conf_load_conf_file env pmf_state_init = Ok (0, pmf_state_init\<lparr>st_config := global_config_of es\<rparr>)
        else (\<exists>st. pmf_conf_load_conf_file env pmf_state_init = Ok (- 1, st))
          \<or> pmf_conf_load_conf_file env pmf_state_init = Undef SignedOverflow"
    using main_file_text [OF assms(1,3)] assms(4) by blast
  show ?thesis
  proof (cases "\<exists>es. Option.bind main file_entries = Some es \<and> good_global es")
    case True
    then obtain es where es: "Option.bind main file_entries = Some es" "good_global es" by blast
    then have "pmf_conf_load_conf_file env pmf_state_init = Ok (0, pmf_state_init\<lparr>st_config := global_config_of es\<rparr>)"
      using load by simp
    then show ?thesis using conf_init_accepted [OF assms(1,2) _ _ es] assms(4) [OF es(1)] by blast
  next
    case False
    then have "conf_meaning main texts = None"
      by (cases "Option.bind main file_entries") (auto simp: conf_meaning_def bind_eq_None_conv)
    moreover have "(\<exists>st. pmf_conf_load_conf_file env pmf_state_init = Ok (- 1, st))
        \<or> pmf_conf_load_conf_file env pmf_state_init = Undef SignedOverflow
          \<and> (\<exists>es. Option.bind main file_entries = Some es \<and> \<not> good_global es)"
      using False load by (cases "Option.bind main file_entries") auto
    ultimately show ?thesis by (auto simp: pmf_conf_init_main_def)
  qed
qed


subsection \<open>A configuration and its meaning\<close>

definition main_entries :: "(string \<times> string option) list" where
  "main_entries = [(''global'', None), (''global:include_dir'', Some ''/etc/pmf.d''), (''global:daemonize'', Some ''yes'')]"

definition pool_entries :: "(string \<times> string option) list" where
  "pool_entries = [(''www'', None), (''www:listen'', Some ''127.0.0.1:80''), (''www:pm'', Some ''Dynamic''),
     (''www:pm.max_children'', Some ''5''), (''www:pm.min_spare_servers'', Some ''1''), (''www:pm.max_spare_servers'', Some ''3'')]"

lemma run_entries:
  "file_entries main_lines = Some main_entries" "file_entries pool_lines = Some pool_entries"
  by code_simp+

lemma run_good: "good_global main_entries" "good_section pool_entries ''www''"
  by code_simp+

lemma run_global:
  "str_setting main_entries ''global'' ''include_dir'' None = Some ''/etc/pmf.d''"
  "str_setting main_entries ''global'' ''error_log'' None = None"
  "str_setting main_entries ''global'' ''events.mechanism'' None = None"
  "value_setting Parse_integer main_entries ''process.max'' 0 = 0"
  "value_setting Parse_integer main_entries ''process.priority'' 64 = 64"
  "value_setting Parse_boolean main_entries ''daemonize'' 0 = 1"
  by code_simp+

lemma run_pool:
  "str_setting pool_entries ''www'' ''listen'' None = Some ''127.0.0.1:80''"
  "int_setting pool_entries ''www'' ''process_priority'' 64 = 64"
  "pm_setting pool_entries ''www'' = 2"
  "int_setting pool_entries ''www'' ''pm.max_children'' 0 = 5"
  "int_setting pool_entries ''www'' ''pm.start_servers'' 0 = 0"
  "int_setting pool_entries ''www'' ''pm.min_spare_servers'' 0 = 1"
  "int_setting pool_entries ''www'' ''pm.max_spare_servers'' 0 = 3"
  by code_simp+

lemma run_env_healthy: "healthy run_env" "0 \<le> ce_open_log run_env"
  by (simp_all add: healthy_def run_env_fields)

lemma run_texts:
  "text_file run_env PMF_CONF_FILE (Some main_lines)"
  "included run_env (gc_include_dir (global_config_of main_entries)) [Some pool_lines]"
proof -
  have "list_all plain_line main_lines" "list_all plain_line pool_lines" by code_simp+
  moreover have "length main_lines < 2147483646" "length pool_lines < 2147483646"
    by (simp_all add: main_lines_def pool_lines_def)
  ultimately show "text_file run_env PMF_CONF_FILE (Some main_lines)"
    "included run_env (gc_include_dir (global_config_of main_entries)) [Some pool_lines]"
    by (simp_all add: text_file_def included_def run_env_fields global_config_of_def run_global hidden_def
        pmf_conf_is_dir_def dir_path_def snprintf_buf_def MAX_PATH_def)
qed

lemma run_meaning: "conf_meaning (Some main_lines) [Some pool_lines]
  = Some (with_error_log (global_config_of main_entries), [settle_pool (section_pool pool_entries ''www'')])"
proof -
  have "rev (sections_of pool_entries) = [''www'']" by code_simp
  then have pools: "add_files [Some pool_lines] [] = Some [section_pool pool_entries ''www'']"
    by (simp add: run_entries run_good)
  have "limits_ok (global_config_of main_entries)"
    by (simp add: limits_ok_def global_config_of_def run_global valid_priority_def pmf_event_pre_init_def
        module_matches_def pmf_event_epoll_module_def)
  moreover have "valid_pool edge (section_pool pool_entries ''www'')" for edge
    by (simp add: valid_pool_def section_pool_def section_config_def run_pool valid_listen_def valid_priority_def
        valid_manager_def pmf_sockets_domain_from_address_def)
  ultimately show ?thesis
    using run_good(1) pools by (simp add: conf_meaning_def run_entries Let_def)
qed


end
