(* ===== verification/Pmf_Main.thy ===== *)
theory Pmf_Main
  imports Pmf_Conf_Meaning Pmf_Unix Pmf_Scoreboard_Init Pmf_Sockets_Proofs
begin

text \<open>
  \<open>pmf.c\<close>: the initialisation of the master as the sequence of the components' initialisations,
  on one state, and what it has established when it succeeds.
\<close>

text \<open>
  The answers of the system to each phase. \<open>me_fallen_scoreboard\<close> and \<open>me_fallen_sockets\<close> are
  what the caller finds after a function that reached its end without a return statement,
  \<open>None\<close> leaving it undefined.
\<close>

record main_env =
  me_null_fd :: int
  me_dup2 :: "int \<Rightarrow> int \<Rightarrow> int"
  me_conf :: conf_env
  me_unix :: unix_env
  me_mmap :: "64 word \<Rightarrow> 64 word"
  me_now :: int
  me_fallen_scoreboard :: "int option"
  me_signals :: signal_env
  me_malloc :: "64 word \<Rightarrow> bool"
  me_array_ok :: bool
  me_sockets :: sock_sys
  me_fallen_sockets :: "int option"
  me_event_init :: "event_backend \<Rightarrow> int \<Rightarrow> int"
  me_creat :: int
  me_write :: "string \<Rightarrow> int"

record main_state =
  ms_pmf :: pmf_state
  ms_shm_size :: "64 word"
  ms_sp :: "int \<times> int"
  ms_faults :: "int list option"
  ms_sockets :: sock_state
  ms_pid_calls :: "pid_call list"

datatype init_phase =
    Stdio_init | Conf_init | Unix_init | Scoreboard_init | Signals_init | Children_init
  | Sockets_init | Worker_pool_init | Event_init | Write_pid

definition returned :: "int option \<Rightarrow> int option \<Rightarrow> (unit, int) outcome" where
  "returned ret fallen =
     (case ret of Some r \<Rightarrow> Ok r
      | None \<Rightarrow> (case fallen of Some r \<Rightarrow> Ok r | None \<Rightarrow> Undef NoReturnValue))"

fun init_phase_step ::
  "main_env \<Rightarrow> init_phase \<Rightarrow> main_state \<Rightarrow> (unit, int \<times> main_state) outcome" where
  "init_phase_step env Stdio_init st = Ok (fst (pmf_stdio_init_main (me_null_fd env) (me_dup2 env)), st)"
| "init_phase_step env Conf_init st =
     obind (pmf_conf_init_main (me_conf env) (ms_pmf st)) (\<lambda>(r, msgs, s). Ok (r, st\<lparr>ms_pmf := s\<rparr>))"
| "init_phase_step env Unix_init st =
     (let s = ms_pmf st in
      obind (pmf_unix_init_main (me_unix env) (st_config s) (st_globals s) (st_pools s))
        (\<lambda>(r, gl, pools, calls). Ok (r, st\<lparr>ms_pmf := s\<lparr>st_globals := gl, st_pools := pools\<rparr>\<rparr>)))"
| "init_phase_step env Scoreboard_init st =
     (let s = ms_pmf st in
      obind (pmf_scoreboard_init_main (me_mmap env) (me_now env) (st_pools s) (ms_shm_size st))
        (\<lambda>(ret, pools, sz). obind (returned ret (me_fallen_scoreboard env)) (\<lambda>r.
           Ok (r, st\<lparr>ms_pmf := s\<lparr>st_pools := pools\<rparr>, ms_shm_size := sz\<rparr>))))"
| "init_phase_step env Signals_init st =
     (case pmf_signals_init_main (me_signals env) (ms_sp st) of
        (r, sp, calls) \<Rightarrow> Ok (r, st\<lparr>ms_sp := sp\<rparr>))"
| "init_phase_step env Children_init st =
     (case pmf_children_init_main (me_malloc env) (st_config (ms_pmf st)) (ms_faults st) of
        (r, faults) \<Rightarrow> Ok (r, st\<lparr>ms_faults := faults\<rparr>))"
| "init_phase_step env Sockets_init st =
     (let s = ms_pmf st in
      obind (pmf_sockets_init_main (me_array_ok env) (me_sockets env) (st_pools s)
               ((ms_sockets st)\<lparr>sk_log := st_log s\<rparr>))
        (\<lambda>(ret, pools, sk). obind (returned ret (me_fallen_sockets env)) (\<lambda>r.
           Ok (r, st\<lparr>ms_pmf := s\<lparr>st_pools := pools, st_log := sk_log sk\<rparr>, ms_sockets := sk\<rparr>))))"
| "init_phase_step env Worker_pool_init st = Ok (pmf_worker_pool_init_main, st)"
| "init_phase_step env Event_init st =
     obind (pmf_event_init_main (me_event_init env) (st_events (ms_pmf st)) (st_pools (ms_pmf st)))
       (\<lambda>(r, n). Ok (r, st))"
| "init_phase_step env Write_pid st =
     (case pmf_conf_write_pid (me_creat env) (me_write env) (st_config (ms_pmf st)) (st_globals (ms_pmf st)) of
        (r, calls) \<Rightarrow> Ok (r, st\<lparr>ms_pid_calls := calls\<rparr>))"

text \<open>The first phase that fails ends the initialisation.\<close>

fun run_phases ::
  "main_env \<Rightarrow> init_phase list \<Rightarrow> main_state \<Rightarrow> (unit, int \<times> main_state) outcome" where
  "run_phases env [] st = Ok (0, st)"
| "run_phases env (p # ps) st =
     obind (init_phase_step env p st) (\<lambda>(r, st). if 0 > r then Ok (- 1, st) else run_phases env ps st)"

definition pmf_init :: "main_env \<Rightarrow> main_state \<Rightarrow> (unit, int \<times> main_state) outcome" where
  "pmf_init env st =
     run_phases env [Stdio_init, Conf_init, Unix_init, Scoreboard_init, Signals_init, Children_init,
       Sockets_init, Worker_pool_init, Event_init, Write_pid] st"

definition pmf_run :: int where "pmf_run = 0"

subsection \<open>The order of the phases\<close>

text \<open>The phases in the order of the conditions of \<open>pmf_init\<close>.\<close>

fun phase_number :: "init_phase \<Rightarrow> nat" where
  "phase_number Stdio_init = 0"
| "phase_number Conf_init = 1"
| "phase_number Unix_init = 2"
| "phase_number Scoreboard_init = 3"
| "phase_number Signals_init = 4"
| "phase_number Children_init = 5"
| "phase_number Sockets_init = 6"
| "phase_number Worker_pool_init = 7"
| "phase_number Event_init = 8"
| "phase_number Write_pid = 9"

lemma phase_number_inj: "phase_number p = phase_number q \<Longrightarrow> p = q"
  by (cases p; cases q) simp_all

instantiation init_phase :: linorder
begin

definition less_eq_init_phase :: "init_phase \<Rightarrow> init_phase \<Rightarrow> bool" where
  "less_eq_init_phase p q \<longleftrightarrow> phase_number p \<le> phase_number q"

definition less_init_phase :: "init_phase \<Rightarrow> init_phase \<Rightarrow> bool" where
  "less_init_phase p q \<longleftrightarrow> phase_number p < phase_number q"

instance
  by standard (auto simp: less_eq_init_phase_def less_init_phase_def intro: phase_number_inj)

end

definition init_phases :: "init_phase list" where
  "init_phases = [Stdio_init, Conf_init, Unix_init, Scoreboard_init, Signals_init, Children_init,
     Sockets_init, Worker_pool_init, Event_init, Write_pid]"

lemma init_phases_sorted: "sorted_wrt (<) init_phases"
  by (simp add: init_phases_def less_init_phase_def)

lemma all_phases: "p \<in> set init_phases"
  by (cases p) (simp_all add: init_phases_def)

lemma before_split:
  assumes "sorted_wrt (<) (pre @ p # post)"
  shows "filter (\<lambda>q. q < (p :: 'a::linorder)) (pre @ p # post) = pre"
  using assms by (auto simp: sorted_wrt_append filter_id_conv filter_empty_conv dest: less_asym)

lemma run_phases_ConsE:
  assumes "run_phases env (p # ps) st = Ok (r, st')" and "0 \<le> r"
  obtains r1 st1 where "init_phase_step env p st = Ok (r1, st1)" "0 \<le> r1" "run_phases env ps st1 = Ok (r, st')"
  using assms by (auto simp: pmf_simps split: if_splits)

lemma run_phases_result: "run_phases env ps st = Ok (r, st') \<Longrightarrow> r = 0 \<or> r = - 1"
  by (induction ps arbitrary: st) (auto simp: obind_eq_Ok split: if_splits)

lemma run_phases_append:
  "run_phases env (ps @ qs) st =
     obind (run_phases env ps st) (\<lambda>(r, s). if r = 0 then run_phases env qs s else Ok (r, s))"
proof (induction ps arbitrary: st)
  case (Cons p ps)
  show ?case by (cases "init_phase_step env p st") (auto simp: Cons.IH)
qed simp

lemma run_phases_failed:
  assumes "run_phases env ps st = Ok (- 1, st')"
  obtains pre p post s1 r1 where "ps = pre @ p # post" "run_phases env pre st = Ok (0, s1)"
    "init_phase_step env p s1 = Ok (r1, st')" "r1 < 0"
  using assms
proof (induction ps arbitrary: st thesis)
  case (Cons p ps)
  from Cons.prems(2) obtain r1 s1 where first: "init_phase_step env p st = Ok (r1, s1)"
    by (auto simp: obind_eq_Ok)
  show ?case
  proof (cases "r1 < 0")
    case True
    then show ?thesis using Cons.prems first by (intro Cons.prems(1) [of "[]"]) simp_all
  next
    case False
    then have "run_phases env ps s1 = Ok (- 1, st')" using Cons.prems(2) first by simp
    then obtain pre q post s2 r2 where "ps = pre @ q # post" "run_phases env pre s1 = Ok (0, s2)"
      "init_phase_step env q s2 = Ok (r2, st')" "r2 < 0"
      using Cons.IH by metis
    then show ?thesis using first False by (intro Cons.prems(1) [of "p # pre"]) simp_all
  qed
qed simp

definition runs_before :: "main_env \<Rightarrow> init_phase \<Rightarrow> main_state \<Rightarrow> main_state \<Rightarrow> bool" where
  "runs_before env p st s \<longleftrightarrow> run_phases env (filter (\<lambda>q. q < p) init_phases) st = Ok (0, s)"

text \<open>
  C15: \<open>pmf_init\<close> returns 0 or -1. It returns 0 only when each phase was run on the state the
  phases before it left and did not fail. It returns -1 only when some phase failed on the state
  the phases before it, none of which failed, left; nothing runs after that phase, so the state
  is the one it left.
\<close>

theorem pmf_init_stops_at_failure:
  assumes "pmf_init env st = Ok (r, st')"
  shows "(r = 0 \<and> (\<forall>p. \<exists>s r1 s1. runs_before env p st s \<and> init_phase_step env p s = Ok (r1, s1) \<and> 0 \<le> r1))
    \<or> (r = - 1 \<and> (\<exists>p s r1. runs_before env p st s \<and> init_phase_step env p s = Ok (r1, st') \<and> r1 < 0))"
proof -
  have run: "run_phases env init_phases st = Ok (r, st')"
    using assms by (simp only: pmf_init_def init_phases_def)
  have before: "runs_before env p st s \<longleftrightarrow> run_phases env pre st = Ok (0, s)"
    if "init_phases = pre @ p # post" for pre p post s
    using init_phases_sorted before_split [of pre p post] that by (simp add: runs_before_def)
  show ?thesis
  proof (cases "r = 0")
    case True
    have "\<exists>s r1 s1. runs_before env p st s \<and> init_phase_step env p s = Ok (r1, s1) \<and> 0 \<le> r1" for p
    proof -
      obtain pre post where split: "init_phases = pre @ p # post"
        using all_phases split_list by metis
      obtain s where pre: "run_phases env pre st = Ok (0, s)" "run_phases env (p # post) s = Ok (0, st')"
        using run True unfolding split run_phases_append by (auto simp: obind_eq_Ok split: if_splits)
      obtain r1 s1 where "init_phase_step env p s = Ok (r1, s1)" "0 \<le> r1"
        by (rule run_phases_ConsE [OF pre(2)]) simp_all
      then show ?thesis using pre(1) before [OF split] by blast
    qed
    with True show ?thesis by blast
  next
    case False
    then have "run_phases env init_phases st = Ok (- 1, st')" using run run_phases_result by metis
    then show ?thesis by (elim run_phases_failed) (use before False run run_phases_result in blast)
  qed
qed

subsection \<open>What the phases keep\<close>

text \<open>The configuration of the pools is only read.\<close>

definition same_configs :: "worker_pool list \<Rightarrow> worker_pool list \<Rightarrow> bool" where
  "same_configs pools pools' \<longleftrightarrow> map wp_config pools = map wp_config pools'"

lemma unix_conf_wp_config: "pmf_unix_conf_wp env wp = Ok (r, wp') \<Longrightarrow> wp_config wp' = wp_config wp"
  by (auto simp: pmf_unix_conf_wp_def unix_set_user_def unix_set_group_def split: option.splits if_splits prod.splits)

lemma unix_conf_all_configs: "unix_conf_all env pools = Ok (r, pools') \<Longrightarrow> same_configs pools pools'"
  by (induction pools arbitrary: r pools')
    (auto simp: same_configs_def pmf_simps split: if_splits dest: unix_conf_wp_config)

lemma unix_init_configs:
  assumes "pmf_unix_init_main env g gl pools = Ok (r, gl', pools', calls)"
  shows "same_configs pools pools'"
proof -
  obtain lim_ok t1 where l: "unix_limits env g = (lim_ok, t1)" by fastforce
  show ?thesis
  proof (cases lim_ok)
    case True
    then obtain res gl2 t2 where d: "unix_daemonize env g gl = Ok (res, gl2, t2)"
      using assms l by (auto simp: pmf_unix_init_main_def obind_eq_Ok)
    show ?thesis
      using assms l d True unix_conf_all_configs
      by (cases res) (auto simp: pmf_unix_init_main_def Let_def pmf_simps same_configs_def split: if_splits)
  qed (use assms l in \<open>simp add: pmf_unix_init_main_def same_configs_def\<close>)
qed

lemma scoreboard_init_pools:
  assumes "pmf_scoreboard_init_main mmap now pools sz = Ok (None, pools', sz')"
  shows "same_configs pools pools' \<and> list_all (\<lambda>wp. wp_scoreboard wp \<noteq> None) pools'"
proof -
  have "list_all2 (pool_initialised now) pools pools'" using scoreboard_init_cases [OF assms] by simp
  then show ?thesis
    by (induction rule: list_all2_induct) (auto simp: same_configs_def pool_initialised_def)
qed

lemma store_queue_length_keeps:
  assumes "store_queue_length sys wp = Ok wp'"
  shows "wp_config wp' = wp_config wp \<and> (wp_scoreboard wp' = None \<longleftrightarrow> wp_scoreboard wp = None)
     \<and> wp_listening_socket_fd wp' = wp_listening_socket_fd wp"
proof (cases "wp' = wp")
  case False
  then obtain cur mx where q: "wp_domain wp = Some PMF_AF_INET"
    "pmf_socket_get_listening_queue sys (wp_listening_socket_fd wp) = Some (cur, mx)"
    using assms by (auto simp: store_queue_length_def split: option.splits if_splits)
  obtain sb where "wp' = (case (wp_scoreboard wp, sb :: pmf_scoreboard option) of
      (Some (a, _), Some sb') \<Rightarrow> wp\<lparr>wp_scoreboard := Some (a, sb')\<rparr> | _ \<Rightarrow> wp)"
    using assms unfolding store_queue_length_def q if_P [OF refl] Let_def option.case prod.case obind_eq_Ok outcome.inject
    by blast
  then show ?thesis by (auto split: option.splits)
qed simp

lemma resolve_premissions_keeps:
  "pmf_unix_resolve_socket_premissions env wp = (r, wp') \<Longrightarrow> wp_config wp' = wp_config wp
     \<and> wp_scoreboard wp' = wp_scoreboard wp"
  by (auto simp: pmf_unix_resolve_socket_premissions_def Let_def split: if_splits option.splits)

lemma open_pool_sockets_pools:
  "open_pool_sockets sys pools st = Ok (True, pools', st') \<Longrightarrow>
   same_configs pools pools' \<and> list_all (\<lambda>wp. wp_listening_socket_fd wp \<noteq> - 1) pools'
   \<and> (list_all (\<lambda>wp. wp_scoreboard wp \<noteq> None) pools \<longrightarrow> list_all (\<lambda>wp. wp_scoreboard wp \<noteq> None) pools')"
proof (induction pools arbitrary: pools' st)
  case (Cons wp wps)
  obtain go1 wp1 st1 where
    first: "(case wp_domain wp of
          Some PMF_AF_INET \<Rightarrow>
            obind (pmf_socket_af_inet_listening_socket sys wp st) (\<lambda>(fd, st).
              Ok (True, wp\<lparr>wp_listening_socket_fd := fd\<rparr>, st))
        | Some PMF_AF_UNIX \<Rightarrow>
            (case pmf_unix_resolve_socket_premissions (sys_unix sys) wp of (r, wp) \<Rightarrow>
               if 0 > r then Ok (False, wp, st)
               else obind (pmf_socket_af_unix_listening_socket sys wp st) (\<lambda>(fd, st).
                      Ok (True, wp\<lparr>wp_listening_socket_fd := fd\<rparr>, st)))
        | None \<Rightarrow> Ok (True, wp, st)) = Ok (go1, wp1, st1)"
    and rest: "(if \<not> go1 \<or> wp_listening_socket_fd wp1 = - 1 then Ok (False, wp1 # wps, st1)
          else obind (store_queue_length sys wp1) (\<lambda>wp.
                 obind (open_pool_sockets sys wps st1) (\<lambda>(go, wps', st). Ok (go, wp # wps', st))))
      = Ok (True, pools', st')"
    using Cons.prems by (auto simp: obind_eq_Ok)
  have keep1: "wp_config wp1 = wp_config wp \<and> wp_scoreboard wp1 = wp_scoreboard wp"
    using first by (auto simp: pmf_simps dest!: resolve_premissions_keeps
        split: option.splits address_domain.splits prod.splits if_splits)
  obtain wp2 wps' where two: "store_queue_length sys wp1 = Ok wp2" "wp_listening_socket_fd wp1 \<noteq> - 1"
    "open_pool_sockets sys wps st1 = Ok (True, wps', st')" "pools' = wp2 # wps'"
    using rest by (auto simp: pmf_simps split: if_splits)
  show ?case
    using store_queue_length_keeps [OF two(1)] keep1 Cons.IH [OF two(3)] two(2,4)
    by (auto simp: same_configs_def)
qed (simp add: same_configs_def)

lemma sockets_init_pools:
  assumes "pmf_sockets_init_main ok sys pools st = Ok (None, pools', st')"
  shows "same_configs pools pools' \<and> list_all (\<lambda>wp. wp_listening_socket_fd wp \<noteq> - 1) pools'
   \<and> (list_all (\<lambda>wp. wp_scoreboard wp \<noteq> None) pools \<longrightarrow> list_all (\<lambda>wp. wp_scoreboard wp \<noteq> None) pools')"
  using assms open_pool_sockets_pools
  by (fastforce simp: pmf_sockets_init_main_def pmf_simps split: prod.splits bool.splits if_splits)

subsection \<open>The master after its initialisation\<close>

lemma same_configs_trans: "same_configs xs ys \<Longrightarrow> same_configs ys zs \<Longrightarrow> same_configs xs zs"
  by (simp add: same_configs_def)

lemma same_configs_valid:
  assumes "same_configs pools pools'"
  shows "list_all (valid_pool edge) pools = list_all (valid_pool edge) pools'"
    and "pool_names pools = pool_names pools'" and "pools = [] \<longleftrightarrow> pools' = []"
    and "map pool_fds pools = map pool_fds pools'"
proof -
  have len: "length pools = length pools'" using assms unfolding same_configs_def by (rule map_eq_imp_length_eq)
  then show "list_all (valid_pool edge) pools = list_all (valid_pool edge) pools'"
    "pool_names pools = pool_names pools'" "pools = [] \<longleftrightarrow> pools' = []" "map pool_fds pools = map pool_fds pools'"
    using assms
    by (induction pools pools' rule: list_induct2)
      (auto simp: same_configs_def valid_pool_def pool_names_def pool_name_def pool_fds_def)
qed

lemma scoreboard_phase:
  assumes "init_phase_step env Scoreboard_init st = Ok (r, st')" and "0 \<le> r"
  shows "same_configs (st_pools (ms_pmf st)) (st_pools (ms_pmf st'))
    \<and> list_all (\<lambda>wp. wp_scoreboard wp \<noteq> None) (st_pools (ms_pmf st'))
    \<and> ms_pmf st' = (ms_pmf st)\<lparr>st_pools := st_pools (ms_pmf st')\<rparr>"
proof -
  obtain ret pools sz where run:
    "pmf_scoreboard_init_main (me_mmap env) (me_now env) (st_pools (ms_pmf st)) (ms_shm_size st) = Ok (ret, pools, sz)"
    "returned ret (me_fallen_scoreboard env) = Ok r" "ms_pmf st' = (ms_pmf st)\<lparr>st_pools := pools\<rparr>"
    using assms(1) by (auto simp: Let_def pmf_simps)
  then have "ret = None" using scoreboard_init_cases [OF run(1)] assms(2) by (auto simp: returned_def)
  then show ?thesis using scoreboard_init_pools run by simp
qed

lemma sockets_phase:
  assumes "init_phase_step env Sockets_init st = Ok (r, st')" and "0 \<le> r"
  shows "same_configs (st_pools (ms_pmf st)) (st_pools (ms_pmf st'))
    \<and> list_all (\<lambda>wp. wp_listening_socket_fd wp \<noteq> - 1) (st_pools (ms_pmf st'))
    \<and> (list_all (\<lambda>wp. wp_scoreboard wp \<noteq> None) (st_pools (ms_pmf st)) \<longrightarrow>
        list_all (\<lambda>wp. wp_scoreboard wp \<noteq> None) (st_pools (ms_pmf st')))
    \<and> st_events (ms_pmf st') = st_events (ms_pmf st) \<and> st_config (ms_pmf st') = st_config (ms_pmf st)"
proof -
  obtain ret pools sk where run:
    "pmf_sockets_init_main (me_array_ok env) (me_sockets env) (st_pools (ms_pmf st))
       ((ms_sockets st)\<lparr>sk_log := st_log (ms_pmf st)\<rparr>) = Ok (ret, pools, sk)"
    "returned ret (me_fallen_sockets env) = Ok r"
    "ms_pmf st' = (ms_pmf st)\<lparr>st_pools := pools, st_log := sk_log sk\<rparr>"
    using assms(1) by (auto simp: Let_def pmf_simps)
  have "ret = None \<or> ret = Some (- 1)"
    using run(1) by (auto simp: pmf_sockets_init_main_def pmf_simps split: prod.splits bool.splits if_splits)
  then have "ret = None" using run(2) assms(2) by (auto simp: returned_def)
  then show ?thesis using sockets_init_pools run by simp
qed

lemma unix_phase:
  "init_phase_step env Unix_init st = Ok (r, st') \<Longrightarrow>
     same_configs (st_pools (ms_pmf st)) (st_pools (ms_pmf st'))
     \<and> st_events (ms_pmf st') = st_events (ms_pmf st) \<and> st_config (ms_pmf st') = st_config (ms_pmf st)"
  by (auto simp: Let_def pmf_simps dest: unix_init_configs)

lemma conf_phase:
  "init_phase_step env Conf_init st = Ok (r, st') \<Longrightarrow>
     \<exists>msgs. pmf_conf_init_main (me_conf env) (ms_pmf st) = Ok (r, msgs, ms_pmf st')"
  by (auto simp: pmf_simps)

lemma other_phases:
  "p \<in> {Stdio_init, Signals_init, Children_init, Worker_pool_init, Event_init, Write_pid} \<Longrightarrow>
   init_phase_step env p st = Ok (r, st') \<Longrightarrow> ms_pmf st' = ms_pmf st"
  by (auto simp: pmf_simps split: prod.splits)

lemma event_phase:
  assumes "init_phase_step env Event_init st = Ok (r, st')" and "0 \<le> r"
  shows "1 + sum_list (map pool_fds (st_pools (ms_pmf st))) < 2147483648"
proof -
  obtain n where "count_fds (st_pools (ms_pmf st)) 1 = Ok n"
    using assms by (auto simp: pmf_event_init_main_def pmf_simps split: option.splits if_splits)
  then show ?thesis
    using count_fds_sum [of 1 "st_pools (ms_pmf st)"] by (auto simp: int32_def Let_def split: if_splits)
qed

lemma write_pid_phase:
  "init_phase_step env Write_pid st = Ok (r, st') \<Longrightarrow> 0 \<le> r \<Longrightarrow> gc_pid_file (st_config (ms_pmf st)) = Some path \<Longrightarrow>
   Pid_write (me_creat env) (show_int (g_parent_pid (st_globals (ms_pmf st)))) \<in> set (ms_pid_calls st')"
  by (auto simp: pmf_conf_write_pid_def Let_def split: if_splits prod.splits)

lemma pmf_init_steps:
  assumes "pmf_init env st = Ok (r, st')" and "0 \<le> r"
  obtains r2 s1 s2 r3 s3 r4 s4 s6 r7 s7 s8 r9 s9 r10 where
    "ms_pmf s1 = ms_pmf st" "init_phase_step env Conf_init s1 = Ok (r2, s2)" "0 \<le> r2"
    "init_phase_step env Unix_init s2 = Ok (r3, s3)"
    "init_phase_step env Scoreboard_init s3 = Ok (r4, s4)" "0 \<le> r4" "ms_pmf s6 = ms_pmf s4"
    "init_phase_step env Sockets_init s6 = Ok (r7, s7)" "0 \<le> r7" "ms_pmf s8 = ms_pmf s7"
    "init_phase_step env Event_init s8 = Ok (r9, s9)" "0 \<le> r9" "ms_pmf s9 = ms_pmf s8"
    "init_phase_step env Write_pid s9 = Ok (r10, st')" "0 \<le> r10" "ms_pmf st' = ms_pmf s9"
proof -
  have run: "run_phases env [Stdio_init, Conf_init, Unix_init, Scoreboard_init, Signals_init, Children_init,
       Sockets_init, Worker_pool_init, Event_init, Write_pid] st = Ok (r, st')"
    using assms(1) by (simp add: pmf_init_def)
  note step = run_phases_ConsE [OF _ assms(2)]
  obtain r1 s1 where p1: "init_phase_step env Stdio_init st = Ok (r1, s1)" "0 \<le> r1"
    and run: "run_phases env [Conf_init, Unix_init, Scoreboard_init, Signals_init, Children_init,
       Sockets_init, Worker_pool_init, Event_init, Write_pid] s1 = Ok (r, st')" by (rule step [OF run])
  obtain r2 s2 where p2: "init_phase_step env Conf_init s1 = Ok (r2, s2)" "0 \<le> r2"
    and run: "run_phases env [Unix_init, Scoreboard_init, Signals_init, Children_init,
       Sockets_init, Worker_pool_init, Event_init, Write_pid] s2 = Ok (r, st')" by (rule step [OF run])
  obtain r3 s3 where p3: "init_phase_step env Unix_init s2 = Ok (r3, s3)" "0 \<le> r3"
    and run: "run_phases env [Scoreboard_init, Signals_init, Children_init,
       Sockets_init, Worker_pool_init, Event_init, Write_pid] s3 = Ok (r, st')" by (rule step [OF run])
  obtain r4 s4 where p4: "init_phase_step env Scoreboard_init s3 = Ok (r4, s4)" "0 \<le> r4"
    and run: "run_phases env [Signals_init, Children_init,
       Sockets_init, Worker_pool_init, Event_init, Write_pid] s4 = Ok (r, st')" by (rule step [OF run])
  obtain r5 s5 where p5: "init_phase_step env Signals_init s4 = Ok (r5, s5)"
    and run: "run_phases env [Children_init, Sockets_init, Worker_pool_init, Event_init, Write_pid] s5 = Ok (r, st')"
    by (rule step [OF run])
  obtain r6 s6 where p6: "init_phase_step env Children_init s5 = Ok (r6, s6)"
    and run: "run_phases env [Sockets_init, Worker_pool_init, Event_init, Write_pid] s6 = Ok (r, st')"
    by (rule step [OF run])
  obtain r7 s7 where p7: "init_phase_step env Sockets_init s6 = Ok (r7, s7)" "0 \<le> r7"
    and run: "run_phases env [Worker_pool_init, Event_init, Write_pid] s7 = Ok (r, st')" by (rule step [OF run])
  obtain r8 s8 where p8: "init_phase_step env Worker_pool_init s7 = Ok (r8, s8)"
    and run: "run_phases env [Event_init, Write_pid] s8 = Ok (r, st')" by (rule step [OF run])
  obtain r9 s9 where p9: "init_phase_step env Event_init s8 = Ok (r9, s9)" "0 \<le> r9"
    and run: "run_phases env [Write_pid] s9 = Ok (r, st')" by (rule step [OF run])
  obtain r10 where p10: "init_phase_step env Write_pid s9 = Ok (r10, st')" "0 \<le> r10"
    by (rule step [OF run]) (simp split: if_splits)
  have "ms_pmf s1 = ms_pmf st" "ms_pmf s6 = ms_pmf s4" "ms_pmf s8 = ms_pmf s7" "ms_pmf s9 = ms_pmf s8"
    "ms_pmf st' = ms_pmf s9"
    using other_phases [OF _ p1(1)] other_phases [OF _ p5] other_phases [OF _ p6] other_phases [OF _ p8]
      other_phases [OF _ p9(1)] other_phases [OF _ p10(1)] by simp_all
  then show ?thesis using that p2 p3 p4 p7 p9 p10 by blast
qed

definition master_ready :: "main_env \<Rightarrow> main_state \<Rightarrow> bool" where
  "master_ready env st \<longleftrightarrow>
     (let s = ms_pmf st in
      st_pools s \<noteq> []
      \<and> list_all (valid_pool (pmf_event_support_edge_trigger (st_events s))) (st_pools s)
      \<and> distinct (pool_names (st_pools s))
      \<and> list_all (\<lambda>wp. wp_scoreboard wp \<noteq> None) (st_pools s)
      \<and> list_all (\<lambda>wp. wp_listening_socket_fd wp \<noteq> - 1) (st_pools s)
      \<and> 1 + sum_list (map pool_fds (st_pools s)) < 2147483648
      \<and> (\<forall>path. gc_pid_file (st_config s) = Some path \<longrightarrow>
           Pid_write (me_creat env) (show_int (g_parent_pid (st_globals s))) \<in> set (ms_pid_calls st)))"

subsection \<open>A run of the initialisation\<close>

definition run_main_env :: main_env where
  "run_main_env = \<lparr>me_null_fd = 5, me_dup2 = (\<lambda>a b. b), me_conf = run_env,
     me_unix = sample_env\<lparr>ue_root := False, ue_getpwuid := None, ue_setrlimit_ok := (\<lambda>b w. True),
       ue_pipe := Some (3, 4), ue_fork := 0, ue_clock_init := 0, ue_getpid := 77\<rparr>,
     me_mmap = (\<lambda>n. 4096), me_now = 0, me_fallen_scoreboard = Some 0,
     me_signals = \<lparr>sg_socketpair = Some (6, 7), sg_getfl = (\<lambda>fd. 0), sg_setfl = (\<lambda>fd fl. 0),
       sg_setfd = (\<lambda>fd. 0), sg_sigaction = (\<lambda>s. 0)\<rparr>,
     me_malloc = (\<lambda>n. True), me_array_ok = True, me_sockets = sample_sys, me_fallen_sockets = Some 0,
     me_event_init = (\<lambda>b n. 0), me_creat = 9, me_write = (\<lambda>t. int (length t))\<rparr>"

definition run_main_start :: main_state where
  "run_main_start = \<lparr>ms_pmf = pmf_state_init, ms_shm_size = 0, ms_sp = (0, 0), ms_faults = None,
     ms_sockets = sample_sock_state, ms_pid_calls = []\<rparr>"

lemma run_unix_pool:
  "wp_config wp = Some c \<Longrightarrow> \<exists>gl' calls. pmf_unix_init_main (me_unix run_main_env) g gl [wp] = Ok (0, gl', [wp], calls)"
  by (simp add: pmf_unix_init_main_def unix_limits_def unix_daemonize_def Let_def run_main_env_def sample_env_def
      pmf_unix_conf_wp_def)

lemma run_sockets_pool:
  assumes "wp_config wp = Some c" and "wp_domain wp = Some PMF_AF_INET"
    and "wpc_listen_address c = Some ''127.0.0.1:80''"
  shows "\<exists>sk. pmf_sockets_init_main True sample_sys [wp] (sample_sock_state\<lparr>sk_log := lg\<rparr>)
    = Ok (None, [wp\<lparr>wp_listening_socket_fd := 5\<rparr>], sk)"
proof -
  let ?sa = "Sa_inet ''127.0.0.1'' 80" and ?st = "sample_sock_state\<lparr>sk_log := lg, sk_list := table0\<rparr>"
  let ?e = "new_entry 5 (wp_domain wp) (''127.0.0.1'' @ '':'' @ show_int 80) 1"
  have parts: "inet_parts ''127.0.0.1:80'' = (Some ''127.0.0.1'', Some ''80'', 80)" "atoi ''80'' = 80" by code_simp+
  have key: "sockaddr_key True ?sa (wp_domain wp) = Ok (Some (''127.0.0.1'' @ '':'' @ show_int 80))"
    using assms(2) by (simp add: sockaddr_key_def pmf_get_in_addr_def pmf_get_in_port_def)
  have new: "\<exists>calls. pmf_sockets_new_listening_socket (sys_env sample_sys (sk_tries ?st)) wp ?sa = Ok (5, calls)"
    using assms by (simp add: pmf_sockets_new_listening_socket_def sample_sys_def sample_sock_env_def
        sample_sock_state_def Let_def)
  then obtain calls where calls: "pmf_sockets_new_listening_socket (sys_env sample_sys (sk_tries ?st)) wp ?sa = Ok (5, calls)"
    by blast
  have "sk_list ?st = table0" by simp
  from get_first [OF sample_keys key this calls] have "\<exists>st'. pmf_socket_af_inet_listening_socket sample_sys wp ?st = Ok (5, st') \<and> sk_list st' = table1 ?e"
    using assms(1,3) parts
    by (simp add: pmf_socket_af_inet_listening_socket_def pmf_socket_af_inet_socket_by_addr_def sample_sys_def)
  then obtain st' where sock: "pmf_socket_af_inet_listening_socket sample_sys wp ?st = Ok (5, st')"
    "sk_list st' = table1 ?e" by blast
  have "ls_refcount ?e \<noteq> 0" by (simp add: new_entry_def)
  then show ?thesis
    using sock assms(2) close_table1
    by (simp add: pmf_sockets_init_main_def table0_init store_queue_length_def pmf_socket_get_listening_queue_def
        sample_sys_def)
qed

lemma run_signals: "\<exists>calls. pmf_signals_init_main (me_signals run_main_env) sp = (0, (6, 7), calls)"
  by (simp add: pmf_signals_init_main_def run_main_env_def fd_set_blocked_def Let_def)

lemma run_pmf_init: "\<exists>st. pmf_init run_main_env run_main_start = Ok (0, st)"
proof -
  obtain msgs s wp c where conf: "pmf_conf_init_main run_env pmf_state_init = Ok (0, msgs, s)"
    "st_pools s = [wp]" and wp: "wp_config wp = Some c" "wp_scoreboard wp = None" "wp_domain wp = Some PMF_AF_INET"
    "wpc_name c = Some ''www''" "wpc_listen_address c = Some ''127.0.0.1:80''" "wpc_pm_max_children c = 5"
    and ev: "st_events s = Some epoll_module"
    using run_conf_init by blast
  obtain gl calls where unix: "pmf_unix_init_main (me_unix run_main_env) (st_config s) (st_globals s) [wp] = Ok (0, gl, [wp], calls)"
    using run_unix_pool [OF wp(1)] by blast
  obtain sb sz where board: "pmf_scoreboard_init_main (\<lambda>n. 4096) 0 [wp] 0
      = Ok (None, [wp\<lparr>wp_scoreboard := Some (4096, sb)\<rparr>], sz)"
    using wp by (auto simp: pmf_shm_alloc_def MAP_FAILED_def Let_def)
  obtain sk where sock: "pmf_sockets_init_main True sample_sys [wp\<lparr>wp_scoreboard := Some (4096, sb)\<rparr>]
      (sample_sock_state\<lparr>sk_log := st_log s\<rparr>)
      = Ok (None, [wp\<lparr>wp_scoreboard := Some (4096, sb), wp_listening_socket_fd := 5\<rparr>], sk)"
    using run_sockets_pool [of "wp\<lparr>wp_scoreboard := Some (4096, sb)\<rparr>" c "st_log s"] wp by auto
  obtain scalls where sig: "pmf_signals_init_main (me_signals run_main_env) (0, 0) = (0, (6, 7), scalls)"
    using run_signals by blast
  have fields: "me_conf run_main_env = run_env" "me_mmap run_main_env = (\<lambda>n. 4096)" "me_now run_main_env = 0"
    "me_fallen_scoreboard run_main_env = Some 0" "me_fallen_sockets run_main_env = Some 0"
    "me_array_ok run_main_env" "me_sockets run_main_env = sample_sys" "me_malloc run_main_env = (\<lambda>n. True)"
    "me_event_init run_main_env = (\<lambda>b n. 0)" "me_creat run_main_env = 9"
    "me_write run_main_env = (\<lambda>t. int (length t))"
    "fst (pmf_stdio_init_main (me_null_fd run_main_env) (me_dup2 run_main_env)) = 0"
    by (simp_all add: run_main_env_def pmf_stdio_init_main_def Let_def)
  have children: "\<exists>f. pmf_children_init_main (\<lambda>n. True) g faults = (0, f)" for g faults
    by (simp add: pmf_children_init_main_def Let_def)
  obtain f where kids: "pmf_children_init_main (\<lambda>n. True) (st_config s) None = (0, f)" using children by blast
  have pid: "\<exists>t. pmf_conf_write_pid 9 (\<lambda>t. int (length t)) g gl = (0, t)" for g gl
    by (simp add: pmf_conf_write_pid_def Let_def split: option.split)
  obtain t where pid: "pmf_conf_write_pid 9 (\<lambda>t. int (length t)) (st_config s) gl = (0, t)" using pid by blast
  have event: "pmf_event_init_main (\<lambda>b n. 0) (Some epoll_module)
      [wp\<lparr>wp_scoreboard := Some (4096, sb), wp_listening_socket_fd := 5\<rparr>] = Ok (0, Some 11)"
    using wp by (simp add: pmf_event_init_main_def epoll_module_def checked32_def int32_def)
  show ?thesis
    using conf unix board sock sig kids pid event ev
    by (simp add: pmf_init_def fields run_main_start_def Let_def returned_def pmf_worker_pool_init_main_def)
qed



text \<open>The structures the configuration left are those of the master that is ready.\<close>

lemma pmf_init_conf:
  assumes "pmf_init env st = Ok (r, st')" and "0 \<le> r" and "ms_pmf st = pmf_state_init"
  obtains r2 msgs s where "pmf_conf_init_main (me_conf env) pmf_state_init = Ok (r2, msgs, s)" "0 \<le> r2"
    "same_configs (st_pools s) (st_pools (ms_pmf st'))" "st_config (ms_pmf st') = st_config s"
proof -
  obtain r2 s1 s2 r3 s3 r4 s4 s6 r7 s7 s8 r9 s9 r10 where
    p: "ms_pmf s1 = ms_pmf st" "init_phase_step env Conf_init s1 = Ok (r2, s2)" "0 \<le> r2"
    "init_phase_step env Unix_init s2 = Ok (r3, s3)"
    "init_phase_step env Scoreboard_init s3 = Ok (r4, s4)" "0 \<le> r4" "ms_pmf s6 = ms_pmf s4"
    "init_phase_step env Sockets_init s6 = Ok (r7, s7)" "0 \<le> r7" "ms_pmf s8 = ms_pmf s7"
    "init_phase_step env Event_init s8 = Ok (r9, s9)" "0 \<le> r9" "ms_pmf s9 = ms_pmf s8"
    "init_phase_step env Write_pid s9 = Ok (r10, st')" "0 \<le> r10" "ms_pmf st' = ms_pmf s9"
    by (rule pmf_init_steps [OF assms(1,2)])
  obtain msgs where conf: "pmf_conf_init_main (me_conf env) pmf_state_init = Ok (r2, msgs, ms_pmf s2)"
    using conf_phase [OF p(2)] p(1) assms(3) by auto
  note unix = unix_phase [OF p(4)] and board = scoreboard_phase [OF p(5,6)] and sock = sockets_phase [OF p(8,9)]
  have "st_config (ms_pmf s4) = st_config (ms_pmf s3)"
    using board by (metis pmf_state.select_convs(1) pmf_state.surjective pmf_state.update_convs(4))
  then have "st_config (ms_pmf st') = st_config (ms_pmf s2)"
    using unix sock unfolding p(7,10,13,16) by simp
  moreover have "same_configs (st_pools (ms_pmf s2)) (st_pools (ms_pmf st'))"
    using unix board sock p same_configs_trans by metis
  ultimately show ?thesis using that conf p(3) by blast
qed



text \<open>A master that cannot open \<open>/dev/null\<close>.\<close>

definition no_null_env :: main_env where "no_null_env = run_main_env\<lparr>me_null_fd := - 1\<rparr>"

lemma no_null_first: "runs_before no_null_env p run_main_start s \<Longrightarrow> p = Stdio_init \<and> s = run_main_start"
  by (cases p) (simp_all add: runs_before_def init_phases_def less_init_phase_def no_null_env_def
      pmf_stdio_init_main_def)

theorem pmf_init_stops_at_failure_witness:
  "\<exists>r1. init_phase_step no_null_env Stdio_init run_main_start = Ok (r1, run_main_start) \<and> r1 < 0"
proof -
  have "pmf_init no_null_env run_main_start = Ok (- 1, run_main_start)"
    by (simp add: pmf_init_def no_null_env_def pmf_stdio_init_main_def)
  from pmf_init_stops_at_failure [OF this] show ?thesis by (auto dest: no_null_first)
qed

end
