(* ===== verification/Pmf_Conf_Values.thy ===== *)
theory Pmf_Conf_Values
  imports Pmf_Conf_Parsers
begin

text \<open>
  What single option values mean: the expansion of \<open>$pool\<close> as removal of dollar signs, and the
  seconds of a time.
\<close>

subsection \<open>Expansion of the pool token\<close>

text \<open>Every run of dollar signs right before \<open>pool\<close> disappears.\<close>

primrec drop_dollars :: "string \<Rightarrow> string" where
  "drop_dollars [] = []"
| "drop_dollars (c # cs) =
     (if c = CHR ''$'' \<and> take 4 (drop_dollars cs) = ''pool'' then drop_dollars cs else c # drop_dollars cs)"

lemma take_token: "take (length pool_token) (c # cs) = pool_token \<longleftrightarrow> c = CHR ''$'' \<and> take 4 cs = ''pool''"
  by (simp add: pool_token_def numeral_eq_Suc)

lemma split_token_Cons:
  "split_token pool_token (c # cs) = None \<longleftrightarrow>
    \<not> (c = CHR ''$'' \<and> take 4 cs = ''pool'') \<and> split_token pool_token cs = None"
  using take_token [of c cs] by simp

lemma split_token_Nil: "split_token pool_token [] = None"
  by (simp add: pool_token_def)

lemma drop_dollars_no_token: "split_token pool_token s = None \<Longrightarrow> drop_dollars s = s"
  by (induction s) (auto simp: split_token_Cons simp del: split_token.simps)

lemma no_token_drop_dollars: "split_token pool_token (drop_dollars s) = None"
  by (induction s) (auto simp: split_token_Nil split_token_Cons simp del: split_token.simps)

lemma drop_dollars_token: "drop_dollars (a @ pool_token @ b) = drop_dollars (a @ ''pool'' @ b)"
  by (induction a) (simp_all add: pool_token_def)

lemma length_split_token:
  "split_token pool_token s = Some (a, b) \<Longrightarrow> length (a @ ''pool'' @ b) + 1 = length s"
  by (drule split_token_Some) (simp add: pool_token_def)

lemma expand_short:
  "length s \<le> MAX_KEY_VALUE_LEN \<Longrightarrow> pmf_conf_expand_pool_name (\<lambda>_. True) (Some s) = Some (drop_dollars s)"
proof (induction "length s" arbitrary: s rule: less_induct)
  case less
  show ?case
  proof (cases "split_token pool_token s")
    case None
    then show ?thesis by (subst pmf_conf_expand_pool_name.simps) (simp add: drop_dollars_no_token)
  next
    case (Some ab)
    obtain a b where ab: "ab = (a, b)" by (cases ab)
    note len = length_split_token [OF Some [unfolded ab]]
    have "snprintf_buf MAX_KEY_VALUE_LEN (a @ ''pool'' @ b) = a @ ''pool'' @ b"
      using len less.prems by (intro snprintf_buf_id) simp
    moreover have "pmf_conf_expand_pool_name (\<lambda>_. True) (Some (a @ ''pool'' @ b)) = Some (drop_dollars (a @ ''pool'' @ b))"
      using len less.prems by (intro less.hyps) simp_all
    moreover have "drop_dollars s = drop_dollars (a @ ''pool'' @ b)"
      using split_token_Some [OF Some [unfolded ab]] drop_dollars_token by simp
    ultimately show ?thesis
      using Some ab by (subst pmf_conf_expand_pool_name.simps) simp
  qed
qed

text \<open>
  C29: When no allocation fails, the expansion of \<open>$pool\<close> removes every run of dollar signs that
  stands right before \<open>pool\<close> and changes nothing else, so that no token is left; the pool's
  name is never inserted. A value longer than the buffer is first cut, but only if it has a token.
\<close>

theorem expand_pool_name_meaning:
  "pmf_conf_expand_pool_name (\<lambda>_. True) (Some s)
     = Some (case split_token pool_token s of
         None \<Rightarrow> s
       | Some (before, after) \<Rightarrow> drop_dollars (take (MAX_KEY_VALUE_LEN - 1) (before @ ''pool'' @ after)))
   \<and> (length s \<le> MAX_KEY_VALUE_LEN \<longrightarrow>
       pmf_conf_expand_pool_name (\<lambda>_. True) (Some s) = Some (drop_dollars s))
   \<and> split_token pool_token (the (pmf_conf_expand_pool_name (\<lambda>_. True) (Some s))) = None"
proof -
  have "pmf_conf_expand_pool_name (\<lambda>_. True) (Some (take (MAX_KEY_VALUE_LEN - 1) t))
      = Some (drop_dollars (take (MAX_KEY_VALUE_LEN - 1) t))" for t
    by (rule expand_short) (simp add: MAX_KEY_VALUE_LEN_def)
  then have "pmf_conf_expand_pool_name (\<lambda>_. True) (Some s)
     = Some (case split_token pool_token s of
         None \<Rightarrow> s
       | Some (before, after) \<Rightarrow> drop_dollars (take (MAX_KEY_VALUE_LEN - 1) (before @ ''pool'' @ after)))"
    by (subst pmf_conf_expand_pool_name.simps) (simp add: snprintf_buf_def del: take_append split: option.split)
  then show ?thesis
    by (auto simp: expand_short no_token_drop_dollars split: option.split)
qed

theorem expand_pool_name_meaning_witness:
  "pmf_conf_expand_pool_name (\<lambda>_. True) (Some ''/run/$$pool-$x.sock'') = Some ''/run/pool-$x.sock''"
proof -
  have "length ''/run/$$pool-$x.sock'' \<le> MAX_KEY_VALUE_LEN" by (simp add: MAX_KEY_VALUE_LEN_def)
  from expand_pool_name_meaning [THEN conjunct2, THEN conjunct1, rule_format, OF this]
  have "pmf_conf_expand_pool_name (\<lambda>_. True) (Some ''/run/$$pool-$x.sock'') = Some (drop_dollars ''/run/$$pool-$x.sock'')" .
  also have "drop_dollars ''/run/$$pool-$x.sock'' = ''/run/pool-$x.sock''" by code_simp
  finally show ?thesis .
qed

subsection \<open>Times\<close>

definition time_unit :: "string \<Rightarrow> int option" where
  "time_unit u = map_of [([], 1), (''s'', 1), (''m'', 60), (''h'', 3600), (''d'', 86400)] u"

lemma show_nat_last: "show_nat n \<noteq> [] \<and> c_isdigit (last (show_nat n))"
  by (subst show_nat.simps, subst (2) show_nat.simps) (simp add: c_isdigit_digit)

lemma show_int_last: "0 \<le> n \<Longrightarrow> show_int n \<noteq> [] \<and> c_isdigit (last (show_int n))"
  using show_nat_last by (simp add: show_int_def)

lemma unit_not_digit: "c_isdigit c \<Longrightarrow> c \<notin> set ''smhd''"
  by (auto simp: c_isdigit_def)

lemma time_seconds_number:
  assumes "0 \<le> n" and "int32 n" and "time_unit u = Some k"
  shows "time_seconds (\<lambda>_. True) (show_int n @ u) = obind (checked32 (k * n)) (\<lambda>s. Ok (Inr s))"
proof -
  note at = atoi_show_int [OF assms(1,2)]
  from assms(3) consider "u = [] \<and> k = 1" | "u = ''s'' \<and> k = 1" | "u = ''m'' \<and> k = 60" | "u = ''h'' \<and> k = 3600"
    | "u = ''d'' \<and> k = 86400"
    by (auto simp: time_unit_def split: if_splits)
  then show ?thesis
  proof cases
    case 1
    then show ?thesis
      using show_int_last [OF assms(1)] unit_not_digit [of "last (show_int n)"] assms(2) at
      by (auto simp: time_seconds_def Let_def checked32_def)
  qed (use assms(2) at in \<open>simp_all add: time_seconds_def Let_def checked32_def\<close>)
qed

text \<open>
  C30: A time option stores the number times its unit (seconds, minutes, hours or days; seconds
  without a unit) when that fits an \<open>int\<close>, and its computation overflows otherwise; a value that
  ends in another letter or is empty is refused and stores nothing.
\<close>

theorem set_time_stores_seconds:
  assumes "0 \<le> n" and "int32 n" and "time_unit u = Some k"
  shows "pmf_conf_set_time (\<lambda>_. True) cs (show_int n @ u) c off
     = (if int32 (k * n) then obind (put_int cs c off (k * n)) (\<lambda>c. Ok (c, None)) else Undef SignedOverflow)
   \<and> (\<not> c_isdigit x \<and> x \<notin> set ''smhd'' \<longrightarrow>
       pmf_conf_set_time (\<lambda>_. True) cs (v @ [x]) c off = Ok (c, Some ''unknown suffix used in time value''))
   \<and> pmf_conf_set_time (\<lambda>_. True) cs [] c off = Ok (c, Some ''invalid time value'')"
  by (auto simp: pmf_conf_set_time_def time_seconds_number [OF assms] checked32_def)
    (simp_all add: time_seconds_def Let_def)

theorem set_time_stores_seconds_witness:
  "pmf_conf_set_time (\<lambda>_. True) int_cells ''2h'' 0 0 = Ok (7200, None)
   \<and> pmf_conf_set_time (\<lambda>_. True) int_cells ''25000d'' 0 0 = Undef SignedOverflow"
proof -
  have u: "time_unit ''h'' = Some 3600" "time_unit ''d'' = Some 86400" by code_simp+
  have "char_of (48 :: nat) = CHR ''0''" "char_of (50 :: nat) = CHR ''2''" "char_of (53 :: nat) = CHR ''5''"
    by code_simp+
  then have s: "show_int 2 = ''2''" "show_int 25000 = ''25000''"
    by (simp_all add: show_int_def show_nat.simps)
  have i: "int32 2" "int32 25000" by (simp_all add: int32_def)
  show ?thesis
    using set_time_stores_seconds [OF _ i(1) u(1), of int_cells 0 0 "CHR ''x''" "[]"]
      set_time_stores_seconds [OF _ i(2) u(2), of int_cells 0 0 "CHR ''x''" "[]"]
    by (simp add: s int32_def int_cells_def)
qed

end
