(* ===== verification/Spec2Isabelle.thy ===== *)
theory Spec2Isabelle
  imports Pmf_Array Pmf_Scoreboard_Init Pmf_Dictionary Pmf_Sockets_Proofs Pmf_Iniparser_Dump
    Pmf_Main Pmf_Conf_Values
begin

text \<open>
  PMF, a process manager in the style of PHP-FPM: its master reads a configuration, checks it,
  goes to the background, creates a scoreboard and listening sockets for every worker pool,
  installs signal handlers and an event mechanism, and writes a PID file. This development models
  the C sources at the level of their functions and proves what each part promises.

  How C is modelled (\<open>Pmf_Prelude\<close>). A function that can reach undefined behaviour has the
  result type \<open>outcome\<close>: \<open>Ok\<close> a value, or \<open>Undef\<close> with the reason (null dereference, access
  out of bounds, signed overflow, a missing return value that is used, a bad format string, a
  store through a pointer of the wrong type, an endless loop). Signed integers are HOL integers with
  checked arithmetic, unsigned ones words that wrap. A \<open>char *\<close> that may be null is a
  \<open>string option\<close>, a structure a record; fields of an output parameter come back in the
  result. Answers of the operating system and of the allocator are arguments or fields of an
  environment record; the system calls a function makes are listed in its result where their
  order matters. String functions, \<open>strtol\<close>, \<open>sscanf\<close> and \<open>fgets\<close> are those of glibc in the
  C locale, on an LP64 platform.

  The parts, in the order they build on each other:

  \<^item> \<open>Pmf_Array\<close> (\<open>pmf_array.h\<close>): the growing array. Removal refines swap-with-last on the list
    of members; push loses its result unless the array was empty; the bounds checks are void on
    an empty array.
  \<^item> \<open>Pmf_Atomic\<close> (\<open>pmf_atomic.h\<close>): atomics of each processor and the spin lock. A step
    relation interleaves the statements of any number of lock users; mutual exclusion, and the
    shared data as the critical sections in lock order, are invariants of its reachable states,
    and from each of them the lock can become free with the sections that took it complete.
  \<^item> \<open>Pmf_Scoreboard\<close>, \<open>Pmf_Scoreboard_Init\<close> (\<open>pmf_scoreboard.[ch]\<close>, \<open>pmf_shm.c\<close>): updates as the
    critical sections of that lock, so concurrent updates are sequential ones; creation of the
    blocks in shared memory.
  \<^item> \<open>Pmf_Types\<close> (\<open>pmf_conf.h\<close>, \<open>pmf_worker_pool.[ch]\<close>, \<open>pmf_children.[ch]\<close>, \<open>pmf.h\<close>): the shared
    structures.
  \<^item> \<open>Pmf_Dictionary\<close> (\<open>lib/iniparser/dictionary.c\<close>): the table of hashed slots. The locale
    \<open>string_table\<close> is what its users rely on; the table implements a finite map, and an ordered
    association list while nothing is removed.
  \<^item> \<open>Pmf_Iniparser\<close> and \<open>_Lines\<close>, \<open>_Load\<close>, \<open>_Dump\<close> (\<open>lib/iniparser/iniparser.c\<close>): accessors, line
    parser, loader and dumps. Loading terminates within its buffers and refines a line by line
    meaning; what is dumped loads back.
  \<^item> \<open>Pmf_Log\<close> (\<open>pmf_log.[ch]\<close>), \<open>Pmf_Events\<close> (\<open>pmf_events.[ch]\<close>, \<open>events/\<close>), \<open>Pmf_Unix\<close>
    (\<open>pmf_unix.c\<close>), \<open>Pmf_Signals\<close> (\<open>pmf_signals.c\<close>, \<open>pmf_stdio.c\<close>, \<open>pmf_clock.c\<close>), \<open>Pmf_Sockets\<close> and
    \<open>_Proofs\<close> (\<open>pmf_sockets.[ch]\<close>): log lines, the two event back ends behind the locale
    \<open>event_backend_ops\<close>, identity of the workers and the step to the background, signals, and
    the table of listening sockets kept in the growing array, with what its allocation failures
    lead to.
  \<^item> \<open>Pmf_Conf_Parsers\<close> to \<open>Pmf_Conf_Run\<close> (\<open>pmf_conf.[ch]\<close>): a value parser stores at a byte
    offset of a structure, so a structure is given by its cells. The locale \<open>config_struct\<close> turns
    a table of options into the fields it sets, \<open>struct_invariant\<close> says what all parsers keep;
    both are interpreted on the global and on the pool configuration. \<open>Pmf_Conf\<close> reads the files,
    \<open>Pmf_Conf_Main\<close> checks, dumps and writes the PID file, \<open>Pmf_Conf_Options\<close>, \<open>Pmf_Conf_Proofs\<close>,
    \<open>Pmf_Conf_Pools\<close>, \<open>Pmf_Conf_Init\<close> and \<open>Pmf_Conf_Values\<close> hold the proofs, and \<open>Pmf_Conf_Run\<close>
    what a successful \<open>pmf_conf_init_main\<close> establishes, with a run from the texts of two files.
    \<open>Pmf_Conf_Text\<close> and \<open>Pmf_Conf_Meaning\<close> give the texts of all files a reference semantics
    (\<open>add_files\<close>, \<open>global_config_of\<close>, \<open>conf_meaning\<close>) and prove that the code computes it.
  \<^item> \<open>Pmf_Main\<close> (\<open>pmf.c\<close>): \<open>pmf_init\<close> as the sequence of all initialisations on one state, where a
    failing phase stops it (the phases are ordered by an instance of \<open>linorder\<close>), what the state
    of the master is when it returns 0 (every pool ready, and configured as the texts of the files
    say), and a run that does.

  Bounds and termination. Loops over data are structural recursions or functions with a measure;
  two loops have no bound of their own in C (waiting for the lock, searching a free slot) and are
  partial functions whose returning is proved. No fuel is used.

  Not modelled. \<open>pmf_process_ctl.[ch]\<close> are empty. The accept loop and the worker processes are
  not part of the sources. \<open>plog\<close> calls elsewhere than in \<open>pmf_conf_dump\<close> are left out of the
  functions that make them, except where the call itself is undefined. The external logger
  has no setter and stays null. Memory that is never freed is not tracked.
  The three arrays of a new dictionary are taken to be allocated: its operations do not look at
  those pointers, and the lists that stand for the arrays have no null value.
\<close>

end
